theory Spec2Isabelle
  imports Main "HOL-Library.Signed_Division"
begin

section \<open>The IR that the conversion reads and builds\<close>

text \<open>
  The conversion patterns of \<^verbatim>\<open>StructuredToMemref.cpp\<close> run at compile time: they read one
  operation and build lower-level operations. The model keeps both sides as data.
  An SSA value is represented by the tree of the operation that defines it, so
  \<^verbatim>\<open>rewriter.create<arith::AddIOp>(loc, a, b)\<close> is the term \<open>AddIOp a b\<close>. Operations with an
  effect on memory (allocation, copy, fill, conditional, materialisation) are also
  recorded, in creation order, in the rewriter state.

  Index arithmetic is done on mathematical integers. The width of \<^verbatim>\<open>index\<close> is fixed by
  the target, not by this file; the one place where the C++ itself computes in a narrower
  type (the \<^verbatim>\<open>int\<close> accumulator of \<^verbatim>\<open>getMixedStridesForMemref\<close>) has its wrap-around
  written out.
\<close>

type_synonym Location = string

datatype Type = ElementType string | PointerType Type | RankedTensorType "int list" Type

record StridedLayoutAttr =
  layoutOffset :: int
  layoutStrides :: "int list"

record MemRefType =
  mrShape :: "int list"
  mrElementType :: Type
  mrLayout :: "StridedLayoutAttr option"

text \<open>\<^verbatim>\<open>ShapedType::kDynamic\<close> is the least 64-bit integer.\<close>

definition kDynamic :: int where
  "kDynamic = - (2 ^ 63)"

text \<open>
  Values of index type (\<open>ivalue\<close>), values that are either a static attribute or a value
  (\<open>OpFoldResult\<close>) and values of memref type (\<open>mvalue\<close>). \<open>IndexArg n\<close> and \<open>BaseArg n\<close>
  are values defined outside the rewritten operation.
\<close>

datatype ivalue =
    IndexArg nat
  | ConstantOp int
  | AddIOp ivalue ivalue
  | SubIOp ivalue ivalue
  | RemSIOp ivalue ivalue
  | DivSIOp ivalue ivalue
  | MinSIOp ivalue ivalue
  | DimOp mvalue nat
and OpFoldResult =
    Attr int
  | Val ivalue
and mvalue =
    BaseArg nat
  | AllocOp "int list" Type
  | ReinterpretCastOp MemRefType mvalue OpFoldResult "OpFoldResult list" "OpFoldResult list"
  | SubViewOp mvalue "OpFoldResult list" "OpFoldResult list" "OpFoldResult list"
  | UnrealizedConversionCastOp "mvalue list" "string list"

datatype bvalue =
    ConstantBool bool
  | CmpIOp_slt ivalue ivalue
  | OrIOp bvalue bvalue

datatype scalar = ScalarArg nat

datatype tvalue =
    TensorArg nat
  | ExtractSliceOp tvalue "OpFoldResult list" "OpFoldResult list" "OpFoldResult list"
  | ToTensorOp mvalue bool bool

datatype Operation =
    Alloc "int list" Type
  | CopyOp mvalue mvalue
  | FillOp scalar mvalue
  | IfOp bvalue "Operation list"
  | MaterializeInDestinationOp tvalue mvalue bool

datatype Replacement = ReplaceWithMemref mvalue | ReplaceWithTensor tvalue | Erased

datatype LogicalResult = success | failure

text \<open>
  What the process does instead of returning: a failed \<^verbatim>\<open>assert\<close> or \<^verbatim>\<open>cast<>\<close>, an
  \<^verbatim>\<open>llvm_unreachable\<close>, an index past the end of an array. The model is that of a build
  with assertions on; the theorems below are about operations on which none of them
  fires.
\<close>

datatype abort = AssertionFailure string | Unreachable string | IndexOutOfRange

record PatternRewriter =
  diagnostics :: "(Location \<times> string) list"
  createdOps :: "Operation list"
  replaced :: "Replacement option"
  erasedOps :: "mvalue list"

definition emptyRewriter :: PatternRewriter where
  "emptyRewriter = \<lparr>diagnostics = [], createdOps = [], replaced = None, erasedOps = []\<rparr>"

definition WRAP_SIDE_BY_SIDE :: string where
  "WRAP_SIDE_BY_SIDE = ''wrap_side_by_side''"

definition WRAP_STACKED :: string where
  "WRAP_STACKED = ''wrap_stacked''"

text \<open>
  \<^verbatim>\<open>tts::MakeTensorPtrOp\<close>, by its accessors. The three kind predicates are declared in the
  dialect, not in this file, and are taken as given by the operation.
\<close>

record MakeTensorPtrOp =
  getLoc :: Location
  getType :: Type
  getBase :: mvalue
  getSizes :: "int list"
  getMixedStrides :: "OpFoldResult list"
  getMixedOffsets :: "OpFoldResult list"
  getStaticShape :: "int list"
  getShape :: "ivalue list"
  getOrder :: "int list"
  isBlockPtr :: bool
  isStructuredPtr :: bool
  isSplitPtr :: bool

text \<open>Array subscripts: past the end the process does not return.\<close>

definition at :: "'a list \<Rightarrow> nat \<Rightarrow> abort + 'a" where
  "at xs i = (if i < length xs then Inr (xs ! i) else Inl IndexOutOfRange)"

text \<open>MLIR's \<^verbatim>\<open>getMixedValues\<close>: a dynamic entry takes the next dynamic operand.\<close>

fun getMixedValues :: "int list \<Rightarrow> ivalue list \<Rightarrow> OpFoldResult list" where
  "getMixedValues [] dyn = []"
| "getMixedValues (s # ss) dyn =
     (if s = kDynamic
      then (case dyn of [] \<Rightarrow> [] | d # ds \<Rightarrow> Val d # getMixedValues ss ds)
      else Attr s # getMixedValues ss dyn)"

definition getMixedShape :: "MakeTensorPtrOp \<Rightarrow> OpFoldResult list" where
  "getMixedShape op = getMixedValues (getStaticShape op) (getShape op)"

definition getMixedSizes :: "MakeTensorPtrOp \<Rightarrow> OpFoldResult list" where
  "getMixedSizes op = map Attr (getSizes op)"

text \<open>MLIR's \<^verbatim>\<open>dispatchIndexOpFoldResults\<close>: the static part, with the dynamic marker.\<close>

fun staticPart :: "OpFoldResult \<Rightarrow> int" where
  "staticPart (Attr n) = n"
| "staticPart (Val v) = kDynamic"

fun dynamicPart :: "OpFoldResult list \<Rightarrow> ivalue list" where
  "dynamicPart [] = []"
| "dynamicPart (Attr n # r) = dynamicPart r"
| "dynamicPart (Val v # r) = v # dynamicPart r"

definition dispatchIndexOpFoldResults :: "OpFoldResult list \<Rightarrow> ivalue list \<times> int list" where
  "dispatchIndexOpFoldResults ofrs = (dynamicPart ofrs, map staticPart ofrs)"

subsection \<open>The index utilities\<close>

text \<open>
  Modelled from the spec: \<^verbatim>\<open>getIntAttr\<close>, \<^verbatim>\<open>ofrToIndexValue\<close>, \<^verbatim>\<open>ofrsToIndexValues\<close>,
  \<^verbatim>\<open>addOFRs\<close>, \<^verbatim>\<open>subOFRs\<close> and \<^verbatim>\<open>minOFRs\<close> are declared in \<^verbatim>\<open>OpFoldResultUtils.h\<close>, which is
  not among the sources. The spec (sections 6 and 9) gives them as fold-or-emit
  operations on a value that is either a known integer or a deferred computation: the
  result is a compile-time constant whenever both operands are static, and otherwise the
  arithmetic operation is emitted.
\<close>

fun getIntAttr :: "OpFoldResult \<Rightarrow> int option" where
  "getIntAttr (Attr n) = Some n"
| "getIntAttr (Val v) = None"

fun ofrToIndexValue :: "OpFoldResult \<Rightarrow> ivalue" where
  "ofrToIndexValue (Attr n) = ConstantOp n"
| "ofrToIndexValue (Val v) = v"

definition ofrsToIndexValues :: "OpFoldResult list \<Rightarrow> ivalue list" where
  "ofrsToIndexValues ofrs = map ofrToIndexValue ofrs"

fun addOFRs :: "OpFoldResult \<Rightarrow> OpFoldResult \<Rightarrow> OpFoldResult" where
  "addOFRs (Attr a) (Attr b) = Attr (a + b)"
| "addOFRs l r = Val (AddIOp (ofrToIndexValue l) (ofrToIndexValue r))"

fun subOFRs :: "OpFoldResult \<Rightarrow> OpFoldResult \<Rightarrow> OpFoldResult" where
  "subOFRs (Attr a) (Attr b) = Attr (a - b)"
| "subOFRs l r = Val (SubIOp (ofrToIndexValue l) (ofrToIndexValue r))"

fun minOFRs :: "OpFoldResult \<Rightarrow> OpFoldResult \<Rightarrow> OpFoldResult" where
  "minOFRs (Attr a) (Attr b) = Attr (min a b)"
| "minOFRs l r = Val (MinSIOp (ofrToIndexValue l) (ofrToIndexValue r))"

section \<open>MakeTensorPtrConverter\<close>

definition getElementTypeStructuredPtr :: "MakeTensorPtrOp \<Rightarrow> abort + Type" where
  "getElementTypeStructuredPtr op =
     (if isBlockPtr op then Inl (AssertionFailure ''!op.isBlockPtr()'')
      else (case getType op of
              RankedTensorType s (PointerType e) \<Rightarrow> Inr e
            | _ \<Rightarrow> Inl (AssertionFailure ''cast'')))"

definition getElementTypeBlockPtr :: "MakeTensorPtrOp \<Rightarrow> abort + Type" where
  "getElementTypeBlockPtr op =
     (if \<not> isBlockPtr op then Inl (AssertionFailure ''op.isBlockPtr()'')
      else (case getType op of
              PointerType (RankedTensorType s e) \<Rightarrow> Inr e
            | _ \<Rightarrow> Inl (AssertionFailure ''cast'')))"

definition getResultMemrefType ::
  "MakeTensorPtrOp \<Rightarrow> int \<Rightarrow> int list \<Rightarrow> int list \<Rightarrow> abort + MemRefType" where
  "getResultMemrefType op offset staticStrides resultShape =
     (case (if isBlockPtr op then getElementTypeBlockPtr op
            else getElementTypeStructuredPtr op) of
        Inl a \<Rightarrow> Inl a
      | Inr elemType \<Rightarrow>
          Inr \<lparr>mrShape = resultShape, mrElementType = elemType,
               mrLayout = Some \<lparr>layoutOffset = offset, layoutStrides = staticStrides\<rparr>\<rparr>)"

text \<open>
  \<^verbatim>\<open>auto accumulate = 1\<close> is a C++ \<^verbatim>\<open>int\<close>: after each \<^verbatim>\<open>accumulate *= size\<close> the product is
  converted back to 32 bits. The loop runs over the reversed zip of sizes and strides,
  which have the same length on a verified operation; the results are then reversed.
\<close>

definition toInt32 :: "int \<Rightarrow> int" where
  "toInt32 x = (x + 2 ^ 31) mod 2 ^ 32 - 2 ^ 31"

fun stridesLoop :: "int \<Rightarrow> (int \<times> OpFoldResult) list \<Rightarrow> OpFoldResult list" where
  "stridesLoop accumulate [] = []"
| "stridesLoop accumulate ((sz, stride) # rest) =
     (if sz = 1 \<and> getIntAttr stride = Some 0 then Attr accumulate else stride)
       # stridesLoop (toInt32 (accumulate * sz)) rest"

definition getMixedStridesForMemref :: "MakeTensorPtrOp \<Rightarrow> OpFoldResult list" where
  "getMixedStridesForMemref op =
     rev (stridesLoop 1 (rev (zip (getSizes op) (getMixedStrides op))))"

definition accumulateTargetOffset :: "MakeTensorPtrOp \<Rightarrow> OpFoldResult" where
  "accumulateTargetOffset op = foldl addOFRs (Attr 0) (getMixedOffsets op)"

definition tensorShape :: "Type \<Rightarrow> abort + int list" where
  "tensorShape t = (case t of RankedTensorType s e \<Rightarrow> Inr s
                    | _ \<Rightarrow> Inl (AssertionFailure ''cast<RankedTensorType>''))"

definition createSideBySideCastOps :: "MakeTensorPtrOp \<Rightarrow> abort + (mvalue \<times> mvalue)" where
  "createSideBySideCastOps op =
     (case tensorShape (getType op) of Inl a \<Rightarrow> Inl a | Inr resultShape \<Rightarrow>
      let targetOffset = ofrToIndexValue (accumulateTargetOffset op) in
      case getResultMemrefType op kDynamic (replicate (length resultShape) kDynamic)
             [kDynamic, kDynamic] of Inl a \<Rightarrow> Inl a | Inr resultType \<Rightarrow>
      case at (getSizes op) 0 of Inl a \<Rightarrow> Inl a | Inr size0 \<Rightarrow>
      case at (getSizes op) 1 of Inl a \<Rightarrow> Inl a | Inr size1 \<Rightarrow>
      case at (getMixedShape op) 1 of Inl a \<Rightarrow> Inl a | Inr shape1 \<Rightarrow>
      let rowSize = ConstantOp size0;
          colSize = ConstantOp size1;
          modN = ofrToIndexValue shape1;
          x = RemSIOp targetOffset modN;
          y = SubIOp targetOffset x;
          strideVals = ofrsToIndexValues (getMixedStrides op);
          nextOffset = AddIOp x colSize;
          clampedOffset = MinSIOp nextOffset modN;
          d1 = SubIOp clampedOffset x;
          cast1 = ReinterpretCastOp resultType (getBase op) (Val targetOffset)
                    [Val rowSize, Val d1] (map Val strideVals);
          d2 = SubIOp colSize d1;
          cast2 = ReinterpretCastOp resultType (getBase op) (Val y)
                    [Val rowSize, Val d2] (map Val strideVals)
      in Inr (cast1, cast2))"

definition createStackedCastOps :: "MakeTensorPtrOp \<Rightarrow> abort + (mvalue \<times> mvalue)" where
  "createStackedCastOps op =
     (case tensorShape (getType op) of Inl a \<Rightarrow> Inl a | Inr resultShape \<Rightarrow>
      if length resultShape \<noteq> 2 then Inl (AssertionFailure ''resultShape.size() == 2'') else
      let targetOffset = ofrToIndexValue (accumulateTargetOffset op) in
      case getResultMemrefType op kDynamic (replicate (length resultShape) kDynamic)
             [kDynamic, kDynamic] of Inl a \<Rightarrow> Inl a | Inr resultType \<Rightarrow>
      case at (getSizes op) 0 of Inl a \<Rightarrow> Inl a | Inr size0 \<Rightarrow>
      case at (getSizes op) 1 of Inl a \<Rightarrow> Inl a | Inr size1 \<Rightarrow>
      case at (getMixedStrides op) 0 of Inl a \<Rightarrow> Inl a | Inr stride0 \<Rightarrow>
      case at (getMixedStrides op) 1 of Inl a \<Rightarrow> Inl a | Inr stride1 \<Rightarrow>
      case at (getShape op) 0 of Inl a \<Rightarrow> Inl a | Inr modRow \<Rightarrow>
      let rowSize = ConstantOp size0;
          colSize = ConstantOp size1;
          strideRow = ofrToIndexValue stride0;
          strideCol = ofrToIndexValue stride1;
          wrappedAroundOff = RemSIOp targetOffset strideRow;
          clampedOff = AddIOp modRow wrappedAroundOff;
          d1 = DivSIOp (SubIOp clampedOff targetOffset) strideRow;
          cast1 = ReinterpretCastOp resultType (getBase op) (Val targetOffset)
                    [Val d1, Val colSize] [Val strideRow, Val strideCol];
          d2 = SubIOp rowSize d1;
          cast2 = ReinterpretCastOp resultType (getBase op) (Val wrappedAroundOff)
                    [Val d2, Val colSize] [Val strideRow, Val strideCol]
      in Inr (cast1, cast2))"

definition rewriteSplitPtr ::
  "MakeTensorPtrOp \<Rightarrow> PatternRewriter \<Rightarrow> abort + (PatternRewriter \<times> LogicalResult)" where
  "rewriteSplitPtr op rewriter =
     (case at (getStaticShape op) 0 of Inl a \<Rightarrow> Inl a | Inr parentShape0 \<Rightarrow>
      if parentShape0 = kDynamic then
        (case at (getStaticShape op) 1 of Inl a \<Rightarrow> Inl a | Inr parentShape1 \<Rightarrow>
         if parentShape1 \<noteq> 0 then Inl (AssertionFailure ''parentShape[1] == 0'') else
         case createStackedCastOps op of Inl a \<Rightarrow> Inl a | Inr (cast1, cast2) \<Rightarrow>
           Inr (rewriter\<lparr>replaced := Some (ReplaceWithMemref
                  (UnrealizedConversionCastOp [cast1, cast2] [WRAP_STACKED]))\<rparr>, success))
      else if parentShape0 \<noteq> 0 then Inl (AssertionFailure ''parentShape[0] == 0'')
      else
        (case createSideBySideCastOps op of Inl a \<Rightarrow> Inl a | Inr (cast1, cast2) \<Rightarrow>
           Inr (rewriter\<lparr>replaced := Some (ReplaceWithMemref
                  (UnrealizedConversionCastOp [cast1, cast2] [WRAP_SIDE_BY_SIDE]))\<rparr>, success)))"

definition rewritePtr ::
  "int list \<Rightarrow> bool \<Rightarrow> MakeTensorPtrOp \<Rightarrow> PatternRewriter \<Rightarrow>
     abort + (PatternRewriter \<times> LogicalResult)" where
  "rewritePtr resultShape isBlock op rewriter =
     (let mixedStrides = getMixedStridesForMemref op;
          (dynamicStrides, staticStrides) = dispatchIndexOpFoldResults mixedStrides;
          targetOffset = accumulateTargetOffset op;
          staticTargetOffset = getIntAttr targetOffset
      in case getResultMemrefType op
                (case staticTargetOffset of Some n \<Rightarrow> n | None \<Rightarrow> kDynamic)
                staticStrides resultShape of Inl a \<Rightarrow> Inl a | Inr resultType \<Rightarrow>
           Inr (rewriter\<lparr>replaced := Some (ReplaceWithMemref
                  (ReinterpretCastOp resultType (getBase op) targetOffset
                     (getMixedSizes op) mixedStrides))\<rparr>, success))"

definition rewriteStructuredPtr ::
  "MakeTensorPtrOp \<Rightarrow> PatternRewriter \<Rightarrow> abort + (PatternRewriter \<times> LogicalResult)" where
  "rewriteStructuredPtr op rewriter =
     (case getType op of
        RankedTensorType resultShape e \<Rightarrow> rewritePtr resultShape False op rewriter
      | _ \<Rightarrow> Inl (AssertionFailure ''cast<ShapedType>''))"

definition rewriteBlockPtr ::
  "MakeTensorPtrOp \<Rightarrow> PatternRewriter \<Rightarrow> abort + (PatternRewriter \<times> LogicalResult)" where
  "rewriteBlockPtr op rewriter =
     (case getType op of
        PointerType (RankedTensorType resultShape e) \<Rightarrow> rewritePtr resultShape True op rewriter
      | _ \<Rightarrow> Inl (AssertionFailure ''cast<ShapedType>''))"

text \<open>
  \<^verbatim>\<open>llvm::is_sorted(order, std::greater<>())\<close>: no element is greater than the one before it.
\<close>

fun is_sorted_greater :: "int list \<Rightarrow> bool" where
  "is_sorted_greater [] = True"
| "is_sorted_greater [x] = True"
| "is_sorted_greater (x # y # r) = (\<not> y > x \<and> is_sorted_greater (y # r))"

definition orderDiagnostic :: string where
  "orderDiagnostic =
     ''non-decreasing dimension order on tensor pointers are not yet supported''"

definition emitError :: "Location \<Rightarrow> string \<Rightarrow> PatternRewriter \<Rightarrow> PatternRewriter" where
  "emitError l msg rewriter = rewriter\<lparr>diagnostics := diagnostics rewriter @ [(l, msg)]\<rparr>"

definition MakeTensorPtrConverter_matchAndRewrite ::
  "MakeTensorPtrOp \<Rightarrow> PatternRewriter \<Rightarrow> abort + (PatternRewriter \<times> LogicalResult)" where
  "MakeTensorPtrConverter_matchAndRewrite op rewriter =
     (if \<not> is_sorted_greater (getOrder op)
      then Inr (emitError (getLoc op) orderDiagnostic rewriter, failure)
      else if isBlockPtr op then rewriteBlockPtr op rewriter
      else if isStructuredPtr op then rewriteStructuredPtr op rewriter
      else if isSplitPtr op then rewriteSplitPtr op rewriter
      else Inr (rewriter, failure))"

section \<open>LoadConverter\<close>

text \<open>
  \<^verbatim>\<open>tts::LoadOp\<close> and \<^verbatim>\<open>tts::StoreOp\<close>, by their accessors; \<open>load_getPtr\<close> and \<open>store_getPtr\<close>
  are the converted pointer operands (\<^verbatim>\<open>adaptor.getPtr()\<close>). The mask dimensions come as a
  static array with dynamic entries and the dynamic operands.
\<close>

record LoadOp =
  load_getLoc :: Location
  load_getType :: Type
  load_getPtr :: mvalue
  load_hasMask :: bool
  load_getStaticMaskDims :: "int list"
  load_getMaskDims :: "ivalue list"
  load_getOther :: "scalar option"

record StoreOp =
  store_getLoc :: Location
  store_getPtr :: mvalue
  store_getValue :: tvalue
  store_getValueType :: Type
  store_hasMask :: bool
  store_getStaticMaskDims :: "int list"
  store_getMaskDims :: "ivalue list"

definition load_getMixedMaskDims :: "LoadOp \<Rightarrow> OpFoldResult list" where
  "load_getMixedMaskDims op = getMixedValues (load_getStaticMaskDims op) (load_getMaskDims op)"

definition store_getMixedMaskDims :: "StoreOp \<Rightarrow> OpFoldResult list" where
  "store_getMixedMaskDims op =
     getMixedValues (store_getStaticMaskDims op) (store_getMaskDims op)"

text \<open>\<^verbatim>\<open>rewriter.create\<close> of an operation with an effect: it is appended to the created ones.\<close>

definition create :: "Operation \<Rightarrow> PatternRewriter \<Rightarrow> PatternRewriter" where
  "create op rewriter = rewriter\<lparr>createdOps := createdOps rewriter @ [op]\<rparr>"

text \<open>
  The values that have type \<^verbatim>\<open>MemRefType\<close>: the result of an allocation, of a cast and of
  a sub-view. The base pointer is an unranked memref and the combined cast of a split
  pointer keeps the type of the pointer, so \<^verbatim>\<open>cast<MemRefType>\<close> fails on them.
\<close>

fun isMemRefType :: "mvalue \<Rightarrow> bool" where
  "isMemRefType (AllocOp shp t) = True"
| "isMemRefType (ReinterpretCastOp ty src off szs strs) = True"
| "isMemRefType (SubViewOp src offs szs strs) = True"
| "isMemRefType (BaseArg n) = False"
| "isMemRefType (UnrealizedConversionCastOp ms attrs) = False"

text \<open>
  The attributes of the operation that defines a value. Only the combined cast carries
  any; a value without a defining operation makes \<^verbatim>\<open>getDefiningOp()\<close> null.
\<close>

fun getDefiningOpAttrs :: "mvalue \<Rightarrow> abort + string list" where
  "getDefiningOpAttrs (UnrealizedConversionCastOp ms attrs) = Inr attrs"
| "getDefiningOpAttrs (BaseArg n) = Inl (AssertionFailure ''getDefiningOp()'')"
| "getDefiningOpAttrs m = Inr []"

definition getSubview :: "nat \<Rightarrow> OpFoldResult list \<Rightarrow> mvalue \<Rightarrow> abort + mvalue" where
  "getSubview rank dims source =
     (if \<not> isMemRefType source then Inl (AssertionFailure ''cast<MemRefType>'')
      else Inr (SubViewOp source (replicate rank (Attr 0)) dims (replicate rank (Attr 1))))"

definition createSideBySideCopies ::
  "mvalue \<Rightarrow> mvalue \<Rightarrow> mvalue \<Rightarrow> PatternRewriter \<Rightarrow> PatternRewriter" where
  "createSideBySideCopies block1 block2 dst rewriter =
     (let zero = ConstantOp 0;
          one = ConstantOp 1;
          block1Row = DimOp block1 0;
          block1Col = DimOp block1 1;
          block2Row = DimOp block2 0;
          block2Col = DimOp block2 1;
          block1Dst = SubViewOp dst [Val zero, Val zero] [Val block1Row, Val block1Col]
                        [Val one, Val one];
          block2Dst = SubViewOp dst [Val zero, Val block1Col] [Val block2Row, Val block2Col]
                        [Val one, Val one]
      in create (CopyOp block2 block2Dst) (create (CopyOp block1 block1Dst) rewriter))"

definition createStackedCopies ::
  "mvalue \<Rightarrow> mvalue \<Rightarrow> mvalue \<Rightarrow> PatternRewriter \<Rightarrow> PatternRewriter" where
  "createStackedCopies block1 block2 dst rewriter =
     (let zero = ConstantOp 0;
          one = ConstantOp 1;
          block1Row = DimOp block1 0;
          block1Col = DimOp block1 1;
          block2Row = DimOp block2 0;
          block2Col = DimOp block2 1;
          block1Dst = SubViewOp dst [Val zero, Val zero] [Val block1Row, Val block1Col]
                        [Val one, Val one];
          block2Dst = SubViewOp dst [Val block1Row, Val zero] [Val block2Row, Val block2Col]
                        [Val one, Val one]
      in create (CopyOp block2 block2Dst) (create (CopyOp block1 block1Dst) rewriter))"

definition createSubview ::
  "mvalue \<Rightarrow> OpFoldResult list \<Rightarrow> OpFoldResult list \<Rightarrow> OpFoldResult list \<Rightarrow>
     abort + mvalue" where
  "createSubview src offsets szs strides =
     (if \<not> isMemRefType src then Inl (AssertionFailure ''cast<MemRefType>'')
      else Inr (SubViewOp src offsets szs strides))"

definition getSideBySideSubviews ::
  "OpFoldResult list \<Rightarrow> mvalue \<Rightarrow> mvalue \<Rightarrow> abort + (mvalue \<times> mvalue)" where
  "getSideBySideSubviews dims block1 block2 =
     (case at dims 0 of Inl a \<Rightarrow> Inl a | Inr subviewRowFull \<Rightarrow>
      case at dims 1 of Inl a \<Rightarrow> Inl a | Inr subviewColFull \<Rightarrow>
      let col1 = Val (DimOp block1 1);
          subviewCol1 = minOFRs col1 subviewColFull;
          subviewCol2 = subOFRs subviewColFull subviewCol1;
          offsets = replicate (length dims) (Attr 0);
          strides = replicate (length dims) (Attr 1)
      in case createSubview block1 offsets [subviewRowFull, subviewCol1] strides of
           Inl a \<Rightarrow> Inl a | Inr sv1 \<Rightarrow>
         case createSubview block2 offsets [subviewRowFull, subviewCol2] strides of
           Inl a \<Rightarrow> Inl a | Inr sv2 \<Rightarrow> Inr (sv1, sv2))"

definition getStackedSubviews ::
  "OpFoldResult list \<Rightarrow> mvalue \<Rightarrow> mvalue \<Rightarrow> abort + (mvalue \<times> mvalue)" where
  "getStackedSubviews dims block1 block2 =
     (case at dims 0 of Inl a \<Rightarrow> Inl a | Inr subviewRowFull \<Rightarrow>
      case at dims 1 of Inl a \<Rightarrow> Inl a | Inr subviewColFull \<Rightarrow>
      let row1 = Val (DimOp block1 0);
          subviewRow1 = minOFRs row1 subviewRowFull;
          subviewRow2 = subOFRs subviewRowFull subviewRow1;
          offsets = replicate (length dims) (Attr 0);
          strides = replicate (length dims) (Attr 1)
      in case createSubview block1 offsets [subviewRow1, subviewColFull] strides of
           Inl a \<Rightarrow> Inl a | Inr sv1 \<Rightarrow>
         case createSubview block2 offsets [subviewRow2, subviewColFull] strides of
           Inl a \<Rightarrow> Inl a | Inr sv2 \<Rightarrow> Inr (sv1, sv2))"

definition rewriteStructuredLoad ::
  "LoadOp \<Rightarrow> PatternRewriter \<Rightarrow> abort + (PatternRewriter \<times> LogicalResult)" where
  "rewriteStructuredLoad op rewriter =
     (if load_hasMask op then Inl (AssertionFailure ''!op.hasMask()'') else
      case load_getType op of
        RankedTensorType shp elemType \<Rightarrow>
          (let ptr = load_getPtr op;
               alloc = AllocOp shp elemType;
               rw1 = create (Alloc shp elemType) rewriter
           in if load_getOther op \<noteq> None
              then Inl (AssertionFailure ''other value used in non-masked load'')
              else
              case getDefiningOpAttrs ptr of Inl a \<Rightarrow> Inl a | Inr attrs \<Rightarrow>
              case (if WRAP_SIDE_BY_SIDE \<in> set attrs \<or> WRAP_STACKED \<in> set attrs then
                      (case ptr of
                         UnrealizedConversionCastOp memrefs as \<Rightarrow>
                           if length memrefs \<noteq> 2
                           then Inl (AssertionFailure ''memrefs.size() == 2'')
                           else (let block1 = memrefs ! 0; block2 = memrefs ! 1
                                 in if WRAP_SIDE_BY_SIDE \<in> set attrs
                                    then Inr (createSideBySideCopies block1 block2 alloc rw1)
                                    else if WRAP_STACKED \<in> set attrs
                                    then Inr (createStackedCopies block1 block2 alloc rw1)
                                    else Inl (Unreachable ''unexpected wraparound type''))
                       | _ \<Rightarrow> Inl (AssertionFailure ''cast<UnrealizedConversionCastOp>''))
                    else Inr (create (CopyOp ptr alloc) rw1)) of
                Inl a \<Rightarrow> Inl a
              | Inr rw2 \<Rightarrow>
                  Inr (rw2\<lparr>replaced := Some (ReplaceWithTensor (ToTensorOp alloc True True))\<rparr>,
                       success))
      | _ \<Rightarrow> Inl (AssertionFailure ''cast<RankedTensorType>''))"

text \<open>
  The loop of \<^verbatim>\<open>rewriteMaskedLoad\<close> over the dimensions: \<open>i\<close> is the loop index, the list
  is what is left of the shape.
\<close>

fun orAccumulate ::
  "LoadOp \<Rightarrow> OpFoldResult list \<Rightarrow> int list \<Rightarrow> nat \<Rightarrow> bvalue \<Rightarrow> abort + bvalue" where
  "orAccumulate op mixedDims [] i accBase = Inr accBase"
| "orAccumulate op mixedDims (shapei # rest) i accBase =
     (case at mixedDims i of Inl a \<Rightarrow> Inl a | Inr d \<Rightarrow>
      case (case d of
              Val v \<Rightarrow> Inr v
            | Attr n \<Rightarrow> (case at (load_getStaticMaskDims op) i of
                           Inl a \<Rightarrow> Inl a | Inr m \<Rightarrow> Inr (ConstantOp m))) of
        Inl a \<Rightarrow> Inl a
      | Inr dimi \<Rightarrow>
          orAccumulate op mixedDims rest (Suc i)
            (OrIOp accBase (CmpIOp_slt dimi (ConstantOp shapei))))"

definition rewriteMaskedLoad ::
  "LoadOp \<Rightarrow> PatternRewriter \<Rightarrow> abort + (PatternRewriter \<times> LogicalResult)" where
  "rewriteMaskedLoad op rewriter =
     (if \<not> load_hasMask op then Inl (AssertionFailure ''op.hasMask()'') else
      case load_getType op of
        RankedTensorType shp elemType \<Rightarrow>
          (let ptr = load_getPtr op;
               alloc = AllocOp shp elemType;
               rw1 = create (Alloc shp elemType) rewriter;
               mixedDims = load_getMixedMaskDims op
           in case (case load_getOther op of
                      None \<Rightarrow> Inr rw1
                    | Some other \<Rightarrow>
                        (case orAccumulate op mixedDims shp 0 (ConstantBool False) of
                           Inl a \<Rightarrow> Inl a
                         | Inr accBase \<Rightarrow>
                             Inr (create (IfOp accBase [FillOp other alloc]) rw1))) of
                Inl a \<Rightarrow> Inl a
              | Inr rw2 \<Rightarrow>
              case getDefiningOpAttrs ptr of Inl a \<Rightarrow> Inl a | Inr attrs \<Rightarrow>
              case (if WRAP_SIDE_BY_SIDE \<in> set attrs \<or> WRAP_STACKED \<in> set attrs then
                      (case ptr of
                         UnrealizedConversionCastOp memrefs as \<Rightarrow>
                           if length memrefs \<noteq> 2
                           then Inl (AssertionFailure ''memrefs.size() == 2'')
                           else (let block1 = memrefs ! 0; block2 = memrefs ! 1
                                 in case (if WRAP_SIDE_BY_SIDE \<in> set attrs
                                          then (case getSideBySideSubviews mixedDims block1 block2 of
                                                  Inl a \<Rightarrow> Inl a
                                                | Inr (subview1, subview2) \<Rightarrow>
                                                    Inr (createSideBySideCopies subview1 subview2
                                                           alloc rw2))
                                          else if WRAP_STACKED \<in> set attrs
                                          then (case getStackedSubviews mixedDims block1 block2 of
                                                  Inl a \<Rightarrow> Inl a
                                                | Inr (subview1, subview2) \<Rightarrow>
                                                    Inr (createStackedCopies subview1 subview2
                                                           alloc rw2))
                                          else Inl (Unreachable ''unexpected wraparound type'')) of
                                      Inl a \<Rightarrow> Inl a
                                    | Inr rw3 \<Rightarrow>
                                        Inr (rw3\<lparr>erasedOps := erasedOps rw3 @ [ptr]\<rparr>))
                       | _ \<Rightarrow> Inl (AssertionFailure ''cast<UnrealizedConversionCastOp>''))
                    else
                      (case getSubview (length shp) mixedDims ptr of
                         Inl a \<Rightarrow> Inl a
                       | Inr srcSubview \<Rightarrow>
                      case getSubview (length shp) mixedDims alloc of
                         Inl a \<Rightarrow> Inl a
                       | Inr dstSubview \<Rightarrow> Inr (create (CopyOp srcSubview dstSubview) rw2))) of
                Inl a \<Rightarrow> Inl a
              | Inr rw4 \<Rightarrow>
                  Inr (rw4\<lparr>replaced := Some (ReplaceWithTensor (ToTensorOp alloc True True))\<rparr>,
                       success))
      | _ \<Rightarrow> Inl (AssertionFailure ''cast<RankedTensorType>''))"

definition LoadConverter_matchAndRewrite ::
  "LoadOp \<Rightarrow> PatternRewriter \<Rightarrow> abort + (PatternRewriter \<times> LogicalResult)" where
  "LoadConverter_matchAndRewrite op rewriter =
     (if load_hasMask op then rewriteMaskedLoad op rewriter
      else rewriteStructuredLoad op rewriter)"

section \<open>StoreConverter\<close>

definition getExtractSlice :: "nat \<Rightarrow> OpFoldResult list \<Rightarrow> tvalue \<Rightarrow> tvalue" where
  "getExtractSlice rank dims source =
     ExtractSliceOp source (replicate rank (Attr 0)) dims (replicate rank (Attr 1))"

definition StoreConverter_matchAndRewrite ::
  "StoreOp \<Rightarrow> PatternRewriter \<Rightarrow> abort + (PatternRewriter \<times> LogicalResult)" where
  "StoreConverter_matchAndRewrite op rewriter =
     (case store_getValueType op of
        RankedTensorType shp elemType \<Rightarrow>
          (let ptr = store_getPtr op;
               storeValue = store_getValue op;
               rank = length shp
           in case (if store_hasMask op then
                      (let mixedDims = store_getMixedMaskDims op;
                           srcSlice = getExtractSlice rank mixedDims storeValue
                       in case getSubview rank mixedDims ptr of
                            Inl a \<Rightarrow> Inl a
                          | Inr dstSubview \<Rightarrow>
                              Inr (create (MaterializeInDestinationOp srcSlice dstSubview True)
                                     rewriter))
                    else Inr (create (MaterializeInDestinationOp storeValue ptr True) rewriter)) of
                Inl a \<Rightarrow> Inl a
              | Inr rw \<Rightarrow> Inr (rw\<lparr>replaced := Some Erased\<rparr>, success))
      | _ \<Rightarrow> Inl (AssertionFailure ''cast<RankedTensorType>''))"

section \<open>What the built values denote\<close>

text \<open>
  The built operations are given their MLIR meaning, so that a statement about the
  lowered code can be about the numbers and the memory cells it touches. A memref value
  denotes a view: its sizes, and for every index vector the cell it aliases. Cells are
  addresses of a base buffer, or elements of the buffer the lowering allocates.
  An operation whose behaviour MLIR leaves undefined (division by zero, a sub-view that
  leaves its source) has no value.
\<close>

datatype cell = MemCell nat int | BufCell "int list"

record view =
  vsizes :: "int list"
  vcell :: "int list \<Rightarrow> cell"

definition subviewInBounds :: "int list \<Rightarrow> int list \<Rightarrow> int list \<Rightarrow> int list \<Rightarrow> bool" where
  "subviewInBounds srcSizes offs szs strs =
     (length offs = length srcSizes \<and> length szs = length srcSizes \<and>
      length strs = length srcSizes \<and>
      list_all (\<lambda>(n, o', s, t). 0 \<le> o' \<and> 0 \<le> s \<and>
                  (s = 0 \<or> (o' < n \<and> 0 \<le> o' + (s - 1) * t \<and> o' + (s - 1) * t < n)))
        (zip srcSizes (zip offs (zip szs strs))))"

definition linearize :: "int \<Rightarrow> int list \<Rightarrow> int list \<Rightarrow> int" where
  "linearize off strs idx = off + sum_list (map2 (*) idx strs)"

fun eval_i :: "(nat \<Rightarrow> int) \<Rightarrow> ivalue \<Rightarrow> int option"
and eval_ofr :: "(nat \<Rightarrow> int) \<Rightarrow> OpFoldResult \<Rightarrow> int option"
and eval_m :: "(nat \<Rightarrow> int) \<Rightarrow> mvalue \<Rightarrow> view option" where
  "eval_i env (IndexArg n) = Some (env n)"
| "eval_i env (ConstantOp c) = Some c"
| "eval_i env (AddIOp a b) =
     (case (eval_i env a, eval_i env b) of (Some x, Some y) \<Rightarrow> Some (x + y) | _ \<Rightarrow> None)"
| "eval_i env (SubIOp a b) =
     (case (eval_i env a, eval_i env b) of (Some x, Some y) \<Rightarrow> Some (x - y) | _ \<Rightarrow> None)"
| "eval_i env (RemSIOp a b) =
     (case (eval_i env a, eval_i env b) of
        (Some x, Some y) \<Rightarrow> if y = 0 then None else Some (x smod y) | _ \<Rightarrow> None)"
| "eval_i env (DivSIOp a b) =
     (case (eval_i env a, eval_i env b) of
        (Some x, Some y) \<Rightarrow> if y = 0 then None else Some (x sdiv y) | _ \<Rightarrow> None)"
| "eval_i env (MinSIOp a b) =
     (case (eval_i env a, eval_i env b) of (Some x, Some y) \<Rightarrow> Some (min x y) | _ \<Rightarrow> None)"
| "eval_i env (DimOp m k) =
     (case eval_m env m of
        Some v \<Rightarrow> if k < length (vsizes v) then Some (vsizes v ! k) else None
      | None \<Rightarrow> None)"
| "eval_ofr env (Attr n) = Some n"
| "eval_ofr env (Val v) = eval_i env v"
| "eval_m env (BaseArg n) = None"
| "eval_m env (AllocOp shp t) = Some \<lparr>vsizes = shp, vcell = BufCell\<rparr>"
| "eval_m env (ReinterpretCastOp ty src off szs strs) =
     (case src of
        BaseArg n \<Rightarrow>
          (case (eval_ofr env off, those (map (eval_ofr env) szs),
                 those (map (eval_ofr env) strs)) of
             (Some o', Some s, Some t) \<Rightarrow>
               if length s = length t
               then Some \<lparr>vsizes = s, vcell = (\<lambda>idx. MemCell n (linearize o' t idx))\<rparr>
               else None
           | _ \<Rightarrow> None)
      | _ \<Rightarrow> None)"
| "eval_m env (SubViewOp src offs szs strs) =
     (case (eval_m env src, those (map (eval_ofr env) offs), those (map (eval_ofr env) szs),
            those (map (eval_ofr env) strs)) of
        (Some v, Some o', Some s, Some t) \<Rightarrow>
          if subviewInBounds (vsizes v) o' s t
          then Some \<lparr>vsizes = s, vcell = (\<lambda>idx. vcell v (map2 (+) o' (map2 (*) idx t)))\<rparr>
          else None
      | _ \<Rightarrow> None)"
| "eval_m env (UnrealizedConversionCastOp ms attrs) = None"

definition eval_ofrs :: "(nat \<Rightarrow> int) \<Rightarrow> OpFoldResult list \<Rightarrow> int list option" where
  "eval_ofrs env xs = those (map (eval_ofr env) xs)"

text \<open>
  The operands of a \<^verbatim>\<open>memref.reinterpret_cast\<close> as numbers: source, scalar offset, sizes and
  strides.
\<close>

fun castOperands :: "(nat \<Rightarrow> int) \<Rightarrow> mvalue \<Rightarrow> (mvalue \<times> int \<times> int list \<times> int list) option" where
  "castOperands env (ReinterpretCastOp ty src off szs strs) =
     (case (eval_ofr env off, eval_ofrs env szs, eval_ofrs env strs) of
        (Some o', Some s, Some t) \<Rightarrow> Some (src, o', s, t)
      | _ \<Rightarrow> None)"
| "castOperands env m = None"
text \<open>The operands of a \<^verbatim>\<open>memref.subview\<close> as numbers: source, offsets, sizes and strides.\<close>

fun subviewOperands ::
  "(nat \<Rightarrow> int) \<Rightarrow> mvalue \<Rightarrow> (mvalue \<times> int list \<times> int list \<times> int list) option" where
  "subviewOperands env (SubViewOp src offs szs strs) =
     (case (eval_ofrs env offs, eval_ofrs env szs, eval_ofrs env strs) of
        (Some o', Some s, Some t) \<Rightarrow> Some (src, o', s, t)
      | _ \<Rightarrow> None)"
| "subviewOperands env m = None"

section \<open>What the created operations do\<close>

text \<open>
  The memory gives every cell its element, or nothing while the cell is uninitialised.
  The environment gives the values defined outside the lowered operation: index values,
  scalars, and tensors with their sizes.
\<close>

type_synonym 'e memory = "cell \<Rightarrow> 'e option"

record 'e env =
  indexArgs :: "nat \<Rightarrow> int"
  scalarArgs :: "nat \<Rightarrow> 'e"
  tensorArgs :: "nat \<Rightarrow> int list \<times> (int list \<Rightarrow> 'e)"

text \<open>All index vectors below the given sizes, in row-major order.\<close>

fun box :: "int list \<Rightarrow> int list list" where
  "box [] = [[]]"
| "box (n # ns) = concat (map (\<lambda>i. map ((#) i) (box ns)) [0..n - 1])"

definition writeCells ::
  "(int list \<Rightarrow> cell) \<Rightarrow> (int list \<Rightarrow> 'e option) \<Rightarrow> int list list \<Rightarrow> 'e memory \<Rightarrow> 'e memory" where
  "writeCells dst val idxs \<sigma> = foldl (\<lambda>\<sigma>' idx. \<sigma>'(dst idx := val idx)) \<sigma> idxs"

definition validSizes :: "int list \<Rightarrow> bool" where
  "validSizes szs = list_all (\<lambda>n. 0 \<le> n) szs"

text \<open>\<^verbatim>\<open>memref.copy\<close>: both views have the same shape.\<close>

definition copyView :: "view \<Rightarrow> view \<Rightarrow> 'e memory \<Rightarrow> 'e memory option" where
  "copyView src dst \<sigma> =
     (if vsizes src = vsizes dst \<and> validSizes (vsizes dst)
      then Some (writeCells (vcell dst) (\<lambda>idx. \<sigma> (vcell src idx)) (box (vsizes dst)) \<sigma>)
      else None)"

text \<open>\<^verbatim>\<open>linalg.fill\<close>: every element of the view becomes the scalar.\<close>

definition fillView :: "'e \<Rightarrow> view \<Rightarrow> 'e memory \<Rightarrow> 'e memory option" where
  "fillView x v \<sigma> =
     (if validSizes (vsizes v)
      then Some (writeCells (vcell v) (\<lambda>idx. Some x) (box (vsizes v)) \<sigma>)
      else None)"

fun eval_b :: "(nat \<Rightarrow> int) \<Rightarrow> bvalue \<Rightarrow> bool option" where
  "eval_b ienv (ConstantBool b) = Some b"
| "eval_b ienv (CmpIOp_slt a b) =
     (case (eval_i ienv a, eval_i ienv b) of (Some x, Some y) \<Rightarrow> Some (x < y) | _ \<Rightarrow> None)"
| "eval_b ienv (OrIOp a b) =
     (case (eval_b ienv a, eval_b ienv b) of (Some x, Some y) \<Rightarrow> Some (x \<or> y) | _ \<Rightarrow> None)"

text \<open>A tensor value: its sizes and its elements.\<close>

fun eval_t ::
  "'e env \<Rightarrow> 'e memory \<Rightarrow> tvalue \<Rightarrow> (int list \<times> (int list \<Rightarrow> 'e option)) option" where
  "eval_t env \<sigma> (TensorArg n) =
     Some (fst (tensorArgs env n), \<lambda>idx. Some (snd (tensorArgs env n) idx))"
| "eval_t env \<sigma> (ExtractSliceOp t offs szs strs) =
     (case (eval_t env \<sigma> t, eval_ofrs (indexArgs env) offs, eval_ofrs (indexArgs env) szs,
            eval_ofrs (indexArgs env) strs) of
        (Some (n, f), Some o', Some s, Some st) \<Rightarrow>
          if subviewInBounds n o' s st
          then Some (s, \<lambda>idx. f (map2 (+) o' (map2 (*) idx st)))
          else None
      | _ \<Rightarrow> None)"
| "eval_t env \<sigma> (ToTensorOp m r w) =
     (case eval_m (indexArgs env) m of
        Some v \<Rightarrow> Some (vsizes v, \<lambda>idx. \<sigma> (vcell v idx))
      | None \<Rightarrow> None)"

text \<open>
  \<^verbatim>\<open>memref.alloc\<close> gives a buffer with nothing in it;
  \<^verbatim>\<open>bufferization.materialize_in_destination\<close> writes every element of the tensor.
\<close>

fun exec :: "'e env \<Rightarrow> Operation \<Rightarrow> 'e memory \<Rightarrow> 'e memory option"
and execAll :: "'e env \<Rightarrow> Operation list \<Rightarrow> 'e memory \<Rightarrow> 'e memory option" where
  "exec env (Alloc shp t) \<sigma> =
     Some (\<lambda>c. case c of BufCell idx \<Rightarrow> None | MemCell b a \<Rightarrow> \<sigma> c)"
| "exec env (CopyOp src dst) \<sigma> =
     (case (eval_m (indexArgs env) src, eval_m (indexArgs env) dst) of
        (Some s, Some d) \<Rightarrow> copyView s d \<sigma>
      | _ \<Rightarrow> None)"
| "exec env (FillOp (ScalarArg n) dst) \<sigma> =
     (case eval_m (indexArgs env) dst of
        Some d \<Rightarrow> fillView (scalarArgs env n) d \<sigma>
      | None \<Rightarrow> None)"
| "exec env (IfOp c body) \<sigma> =
     (case eval_b (indexArgs env) c of
        Some True \<Rightarrow> execAll env body \<sigma>
      | Some False \<Rightarrow> Some \<sigma>
      | None \<Rightarrow> None)"
| "exec env (MaterializeInDestinationOp t dst w) \<sigma> =
     (case (eval_t env \<sigma> t, eval_m (indexArgs env) dst) of
        (Some (n, f), Some d) \<Rightarrow>
          if w \<and> n = vsizes d \<and> validSizes n
          then Some (writeCells (vcell d) f (box n) \<sigma>)
          else None
      | _ \<Rightarrow> None)"
| "execAll env [] \<sigma> = Some \<sigma>"
| "execAll env (op # ops) \<sigma> =
     (case exec env op \<sigma> of Some \<sigma>' \<Rightarrow> execAll env ops \<sigma>' | None \<Rightarrow> None)"

text \<open>The number of allocations among operations, nested ones included.\<close>

fun allocCount :: "Operation \<Rightarrow> nat"
and allocCounts :: "Operation list \<Rightarrow> nat" where
  "allocCount (Alloc shp t) = 1"
| "allocCount (CopyOp src dst) = 0"
| "allocCount (FillOp x dst) = 0"
| "allocCount (IfOp c body) = allocCounts body"
| "allocCount (MaterializeInDestinationOp t dst w) = 0"
| "allocCounts [] = 0"
| "allocCounts (op # ops) = allocCount op + allocCounts ops"

section \<open>The mask region and the source of a load, in the words of the spec\<close>

text \<open>
  An index vector is inside the mask region when every component is below the valid
  extent of its dimension.
\<close>

definition insideMask :: "int list \<Rightarrow> int list \<Rightarrow> bool" where
  "insideMask m idx = list_all2 (\<lambda>i n. i < n) idx m"

text \<open>
  The source element that corresponds to a destination element of a masked load with
  valid extents \<open>m\<close>. For a single view it is the element of the view at the same index.
  For a split pair the first chunk gives the positions below
  \<open>min chunk1_extent requested_extent\<close> along the split axis (the trailing axis for a
  side-by-side pair, the leading one for a stacked pair) and the second chunk gives the
  remainder, counted from its own start.
\<close>

definition sourceCell :: "(nat \<Rightarrow> int) \<Rightarrow> mvalue \<Rightarrow> int list \<Rightarrow> int list \<Rightarrow> cell option" where
  "sourceCell ienv ptr m idx =
     (case ptr of
        UnrealizedConversionCastOp blocks attrs \<Rightarrow>
          (case map (eval_m ienv) blocks of
             [Some v1, Some v2] \<Rightarrow>
               (let axis = (if WRAP_SIDE_BY_SIDE \<in> set attrs then 1 else 0);
                    c1 = min (vsizes v1 ! axis) (m ! axis)
                in Some (if idx ! axis < c1 then vcell v1 idx
                         else vcell v2 (idx[axis := idx ! axis - c1])))
           | _ \<Rightarrow> None)
      | _ \<Rightarrow> (case eval_m ienv ptr of Some v \<Rightarrow> Some (vcell v idx) | None \<Rightarrow> None))"

text \<open>
  The valid extents \<open>m\<close> of a masked load fit its source. A single view has at least the
  valid extent in every dimension. The two chunks of a split pair have extents that are
  not negative along the split axis and together reach the valid extent there, and each
  has at least the valid extent along the other axis. With the valid extents between 0
  and the shape of the load, this is what the spec asks of a mask (a valid extent is
  smaller than or equal to the full shape) on a pointer that has the shape of the load.
\<close>

definition maskFitsSource :: "(nat \<Rightarrow> int) \<Rightarrow> mvalue \<Rightarrow> int list \<Rightarrow> bool" where
  "maskFitsSource ienv ptr m =
     (case ptr of
        UnrealizedConversionCastOp blocks attrs \<Rightarrow>
          (case map (eval_m ienv) blocks of
             [Some v1, Some v2] \<Rightarrow>
               (let axis = (if WRAP_SIDE_BY_SIDE \<in> set attrs then 1 else 0);
                    other = 1 - axis
                in length (vsizes v1) = 2 \<and> length (vsizes v2) = 2 \<and>
                   0 \<le> vsizes v1 ! axis \<and> 0 \<le> vsizes v2 ! axis \<and>
                   m ! axis \<le> vsizes v1 ! axis + vsizes v2 ! axis \<and>
                   m ! other \<le> vsizes v1 ! other \<and> m ! other \<le> vsizes v2 ! other)
           | _ \<Rightarrow> False)
      | _ \<Rightarrow> (case eval_m ienv ptr of
                Some v \<Rightarrow> list_all2 (\<le>) m (vsizes v)
              | None \<Rightarrow> False))"

text \<open>The cells a view aliases, in row-major order of its index vectors.\<close>

definition viewCells :: "view \<Rightarrow> cell list" where
  "viewCells v = map (vcell v) (box (vsizes v))"

text \<open>
  The region a stacked descriptor addresses, in the words of the spec and of the drawing
  in \<^verbatim>\<open>createStackedCastOps\<close>: \<open>rowSize\<close> rows of \<open>colSize\<close> elements, the rows \<open>strideRow\<close>
  apart from \<open>targetOffset\<close> on, and a row that would start at or after the bound
  (\<open>modRow\<close> past the position of the access within its row) starts \<open>modRow\<close> earlier, at
  row 0 of the tensor.
\<close>

definition stackedRegion :: "nat \<Rightarrow> int \<Rightarrow> int \<Rightarrow> int \<Rightarrow> int \<Rightarrow> int \<Rightarrow> int \<Rightarrow> cell list" where
  "stackedRegion b targetOffset modRow strideRow strideCol rowSize colSize =
     map (\<lambda>idx.
            let r = targetOffset + idx ! 0 * strideRow;
                wrapped = targetOffset smod strideRow
            in MemCell b ((if r < modRow + wrapped then r else r - modRow) + idx ! 1 * strideCol))
         (box [rowSize, colSize])"

section \<open>The rewrite driver\<close>

text \<open>
  Modelled from the spec: the pass that runs the patterns is not among the sources. The
  spec (sections 4.1 and 7) has the driver feed each operation to its rule, go on to the
  other operations when one rule fails, and report one result for the whole rewrite, which
  is failure as soon as one operation failed to convert. A contract violation ends the
  process.
\<close>

fun runOnOperations ::
  "MakeTensorPtrOp list \<Rightarrow> abort + ((PatternRewriter \<times> LogicalResult) list \<times> LogicalResult)" where
  "runOnOperations [] = Inr ([], success)"
| "runOnOperations (op # ops) =
     (case MakeTensorPtrConverter_matchAndRewrite op emptyRewriter of
        Inl a \<Rightarrow> Inl a
      | Inr (rw, r) \<Rightarrow>
          (case runOnOperations ops of
             Inl a \<Rightarrow> Inl a
           | Inr (rs, overall) \<Rightarrow>
               Inr ((rw, r) # rs, if r = failure then failure else overall)))"

section \<open>Example descriptors\<close>

definition permutedOrderOp :: MakeTensorPtrOp where
  "permutedOrderOp =
     \<lparr>getLoc = ''loc(a.mlir:3:5)'',
      getType = PointerType (RankedTensorType [4, 4] (ElementType ''f32'')),
      getBase = BaseArg 0, getSizes = [4, 4],
      getMixedStrides = [Attr 1, Attr 4], getMixedOffsets = [Attr 0, Attr 0],
      getStaticShape = [0, 0], getShape = [], getOrder = [0, 1],
      isBlockPtr = True, isStructuredPtr = False, isSplitPtr = False\<rparr>"

definition plainOp :: MakeTensorPtrOp where
  "plainOp =
     \<lparr>getLoc = ''loc(a.mlir:7:5)'',
      getType = RankedTensorType [4, 4] (PointerType (ElementType ''f32'')),
      getBase = BaseArg 0, getSizes = [4, 4],
      getMixedStrides = [Attr 10, Attr 1], getMixedOffsets = [Attr 3, Attr 0],
      getStaticShape = [0, 0], getShape = [], getOrder = [],
      isBlockPtr = False, isStructuredPtr = True, isSplitPtr = False\<rparr>"

definition unknownKindOp :: MakeTensorPtrOp where
  "unknownKindOp = plainOp\<lparr>isStructuredPtr := False\<rparr>"

definition innerUnitOp :: MakeTensorPtrOp where
  "innerUnitOp =
     \<lparr>getLoc = ''loc(a.mlir:9:5)'',
      getType = RankedTensorType [4, 1, 8] (PointerType (ElementType ''f32'')),
      getBase = BaseArg 0, getSizes = [4, 1, 8],
      getMixedStrides = [Val (IndexArg 0), Attr 0, Attr 1],
      getMixedOffsets = [Attr 0, Attr 0, Attr 0],
      getStaticShape = [0, 0, 0], getShape = [], getOrder = [],
      isBlockPtr = False, isStructuredPtr = True, isSplitPtr = False\<rparr>"

definition broadcastOp :: MakeTensorPtrOp where
  "broadcastOp =
     \<lparr>getLoc = ''loc(a.mlir:11:5)'',
      getType = RankedTensorType [4, 8] (PointerType (ElementType ''f32'')),
      getBase = BaseArg 0, getSizes = [4, 8],
      getMixedStrides = [Attr 0, Attr 1],
      getMixedOffsets = [Attr 0, Attr 0],
      getStaticShape = [0, 0], getShape = [], getOrder = [],
      isBlockPtr = False, isStructuredPtr = True, isSplitPtr = False\<rparr>"

definition sideBySideOp :: MakeTensorPtrOp where
  "sideBySideOp =
     \<lparr>getLoc = ''loc(a.mlir:13:5)'',
      getType = RankedTensorType [4, 6] (PointerType (ElementType ''f32'')),
      getBase = BaseArg 0, getSizes = [4, 6],
      getMixedStrides = [Attr 10, Attr 1],
      getMixedOffsets = [Attr 0, Attr 7],
      getStaticShape = [0, 10], getShape = [], getOrder = [],
      isBlockPtr = False, isStructuredPtr = False, isSplitPtr = True\<rparr>"

definition stackedNoWrapOp :: MakeTensorPtrOp where
  "stackedNoWrapOp =
     \<lparr>getLoc = ''loc(a.mlir:15:5)'',
      getType = RankedTensorType [2, 4] (PointerType (ElementType ''f32'')),
      getBase = BaseArg 0, getSizes = [2, 4],
      getMixedStrides = [Attr 4, Attr 1],
      getMixedOffsets = [Attr 8, Attr 0],
      getStaticShape = [kDynamic, 0], getShape = [IndexArg 0], getOrder = [],
      isBlockPtr = False, isStructuredPtr = False, isSplitPtr = True\<rparr>"

section \<open>Example loads and stores\<close>

definition f32 :: Type where
  "f32 = ElementType ''f32''"

definition dynamicView2 :: MemRefType where
  "dynamicView2 =
     \<lparr>mrShape = [kDynamic, kDynamic], mrElementType = f32,
      mrLayout = Some \<lparr>layoutOffset = kDynamic, layoutStrides = [kDynamic, kDynamic]\<rparr>\<rparr>"

text \<open>A view of 4 by 4 elements at offset 0 of base 0, rows 4 apart.\<close>

definition view4x4 :: mvalue where
  "view4x4 = ReinterpretCastOp
     \<lparr>mrShape = [4, 4], mrElementType = f32,
      mrLayout = Some \<lparr>layoutOffset = 0, layoutStrides = [4, 1]\<rparr>\<rparr>
     (BaseArg 0) (Attr 0) [Attr 4, Attr 4] [Attr 4, Attr 1]"

definition store4x4 :: StoreOp where
  "store4x4 =
     \<lparr>store_getLoc = ''loc(a.mlir:21:5)'', store_getPtr = view4x4,
      store_getValue = TensorArg 0, store_getValueType = RankedTensorType [4, 4] f32,
      store_hasMask = False, store_getStaticMaskDims = [], store_getMaskDims = []\<rparr>"

text \<open>
  The two chunks of the spec's end-to-end scenario: rows 8 apart, columns 6 and 7 from
  offset 6, columns 0 and 1 from offset 0.
\<close>

definition chunk1 :: mvalue where
  "chunk1 = ReinterpretCastOp dynamicView2 (BaseArg 0) (Attr 6) [Attr 4, Attr 2] [Attr 8, Attr 1]"

definition chunk2 :: mvalue where
  "chunk2 = ReinterpretCastOp dynamicView2 (BaseArg 0) (Attr 0) [Attr 4, Attr 2] [Attr 8, Attr 1]"

text \<open>A masked load of 4 by 4 through the pair, 3 columns valid, with a fill value.\<close>

definition maskedSplitLoad :: LoadOp where
  "maskedSplitLoad =
     \<lparr>load_getLoc = ''loc(a.mlir:23:5)'', load_getType = RankedTensorType [4, 4] f32,
      load_getPtr = UnrealizedConversionCastOp [chunk1, chunk2] [WRAP_SIDE_BY_SIDE],
      load_hasMask = True, load_getStaticMaskDims = [4, 3], load_getMaskDims = [],
      load_getOther = Some (ScalarArg 0)\<rparr>"

text \<open>A masked load of 4 by 4 through the single view, 2 rows and 3 columns valid.\<close>

definition maskedViewLoad :: LoadOp where
  "maskedViewLoad =
     \<lparr>load_getLoc = ''loc(a.mlir:25:5)'', load_getType = RankedTensorType [4, 4] f32,
      load_getPtr = view4x4,
      load_hasMask = True, load_getStaticMaskDims = [2, 3], load_getMaskDims = [],
      load_getOther = Some (ScalarArg 0)\<rparr>"

text \<open>
  The two chunks of a stacked access to a tensor of 6 rows of 4 elements that starts at
  row 4: rows 4 and 5 from offset 16, rows 0 and 1 from offset 0.
\<close>

definition rows1 :: mvalue where
  "rows1 = ReinterpretCastOp dynamicView2 (BaseArg 0) (Attr 16) [Attr 2, Attr 4] [Attr 4, Attr 1]"

definition rows2 :: mvalue where
  "rows2 = ReinterpretCastOp dynamicView2 (BaseArg 0) (Attr 0) [Attr 2, Attr 4] [Attr 4, Attr 1]"

text \<open>A masked load of 4 by 4 through the stacked pair, 3 rows valid, with a fill value.\<close>

definition maskedStackedLoad :: LoadOp where
  "maskedStackedLoad =
     \<lparr>load_getLoc = ''loc(a.mlir:27:5)'', load_getType = RankedTensorType [4, 4] f32,
      load_getPtr = UnrealizedConversionCastOp [rows1, rows2] [WRAP_STACKED],
      load_hasMask = True, load_getStaticMaskDims = [3, 4], load_getMaskDims = [],
      load_getOther = Some (ScalarArg 0)\<rparr>"

text \<open>
  An environment and a memory to run the examples in: the fill value is \<open>-1\<close>, the tensor
  holds \<open>100 + 4 i + j\<close> at \<open>[i, j]\<close>, and address \<open>a\<close> of a base holds \<open>a\<close>.
\<close>

definition exampleEnv :: "int env" where
  "exampleEnv =
     \<lparr>indexArgs = (\<lambda>n. 0), scalarArgs = (\<lambda>n. - 1),
      tensorArgs = (\<lambda>n. ([4, 4], \<lambda>idx. 100 + 4 * (idx ! 0) + idx ! 1))\<rparr>"

definition exampleMemory :: "int memory" where
  "exampleMemory = (\<lambda>c. case c of MemCell b a \<Rightarrow> Some a | BufCell idx \<Rightarrow> None)"

text \<open>
  A stacked descriptor that does reach the bound: the same tensor of 6 rows, 4 rows
  requested from row 4 (\<open>targetOffset = 16\<close>).
\<close>

definition stackedWrapOp :: MakeTensorPtrOp where
  "stackedWrapOp = stackedNoWrapOp\<lparr>getType := RankedTensorType [4, 4] (PointerType (ElementType ''f32'')),
                                    getSizes := [4, 4], getMixedOffsets := [Attr 16, Attr 0]\<rparr>"

section \<open>Properties of the index utilities and of the loops\<close>

lemma eval_ofrToIndexValue: "eval_i env (ofrToIndexValue x) = eval_ofr env x"
  by (cases x) auto

lemma eval_addOFRs:
  "eval_ofr env l = Some a \<Longrightarrow> eval_ofr env r = Some b \<Longrightarrow> eval_ofr env (addOFRs l r) = Some (a + b)"
  by (cases l; cases r) (auto simp: eval_ofrToIndexValue)

lemma eval_ofrs_Nil: "eval_ofrs env [] = Some []"
  by (simp add: eval_ofrs_def)

lemma eval_ofrs_Cons:
  "eval_ofrs env (x # xs) = Some vs \<longleftrightarrow>
     (\<exists>v vs'. eval_ofr env x = Some v \<and> eval_ofrs env xs = Some vs' \<and> vs = v # vs')"
  by (auto simp: eval_ofrs_def split: option.splits)

lemma eval_foldl_addOFRs:
  "eval_ofr env acc = Some a \<Longrightarrow> eval_ofrs env xs = Some vs \<Longrightarrow>
   eval_ofr env (foldl addOFRs acc xs) = Some (a + sum_list vs)"
proof (induction xs arbitrary: acc a vs)
  case Nil
  then show ?case by (simp add: eval_ofrs_Nil)
next
  case (Cons x xs)
  from Cons.prems(2) obtain v vs' where
    v: "eval_ofr env x = Some v" and vs': "eval_ofrs env xs = Some vs'" and eq: "vs = v # vs'"
    by (auto simp: eval_ofrs_Cons)
  have "eval_ofr env (addOFRs acc x) = Some (a + v)"
    using Cons.prems(1) v by (rule eval_addOFRs)
  from Cons.IH[OF this vs'] show ?case by (simp add: eq add.assoc)
qed

lemma eval_accumulateTargetOffset:
  "eval_ofrs env (getMixedOffsets op) = Some offs \<Longrightarrow>
   eval_ofr env (accumulateTargetOffset op) = Some (sum_list offs)"
  unfolding accumulateTargetOffset_def
  using eval_foldl_addOFRs[of env "Attr 0" 0] by simp

lemma foldl_addOFRs_static:
  "\<forall>o'\<in>set xs. getIntAttr o' \<noteq> None \<Longrightarrow> \<exists>n. foldl addOFRs (Attr a) xs = Attr n"
proof (induction xs arbitrary: a)
  case Nil
  then show ?case by simp
next
  case (Cons x xs)
  then obtain b where "x = Attr b" by (cases x) auto
  with Cons show ?case by simp
qed

lemma sorted_wrt_greater_is_sorted: "sorted_wrt (>) xs \<Longrightarrow> is_sorted_greater xs"
  by (induction xs rule: is_sorted_greater.induct) auto

lemma is_sorted_greater_sorted_wrt: "is_sorted_greater xs = sorted_wrt (\<ge>) xs"
proof (induction xs rule: is_sorted_greater.induct)
  case (3 x y r)
  have "transp ((\<ge>) :: int \<Rightarrow> int \<Rightarrow> bool)" by (auto intro: transpI)
  from sorted_wrt2[OF this, of x y r] 3 show ?case by (simp add: not_less)
qed simp_all

lemma is_sorted_greater_distinct:
  "distinct xs \<Longrightarrow> is_sorted_greater xs \<Longrightarrow> sorted_wrt (>) xs"
  unfolding is_sorted_greater_sorted_wrt
  by (induction xs) (auto simp: order_less_le)

lemma toInt32_mult: "toInt32 (toInt32 a * b) = toInt32 (a * b)"
proof -
  have "(toInt32 a * b + 2 ^ 31) mod 2 ^ 32 = (a * b + 2 ^ 31) mod 2 ^ 32"
  proof -
    have "toInt32 a mod 2 ^ 32 = a mod 2 ^ 32"
      unfolding toInt32_def by (metis add_diff_cancel_right' mod_diff_left_eq mod_add_left_eq diff_add_cancel)
    then have "(toInt32 a * b) mod 2 ^ 32 = (a * b) mod 2 ^ 32"
      by (metis mod_mult_left_eq)
    then show ?thesis by (metis mod_add_left_eq)
  qed
  then show ?thesis by (simp add: toInt32_def)
qed

lemma toInt32_id: "- (2 ^ 31) \<le> x \<Longrightarrow> x < 2 ^ 31 \<Longrightarrow> toInt32 x = x"
  by (simp add: toInt32_def)

lemma length_stridesLoop: "length (stridesLoop a zs) = length zs"
  by (induction zs arbitrary: a) auto

lemma stridesLoop_nth:
  "j < length zs \<Longrightarrow>
   stridesLoop (toInt32 a) zs ! j =
     (if fst (zs ! j) = 1 \<and> getIntAttr (snd (zs ! j)) = Some 0
      then Attr (toInt32 (a * prod_list (map fst (take j zs))))
      else snd (zs ! j))"
proof (induction zs arbitrary: a j)
  case Nil
  then show ?case by simp
next
  case (Cons z zs)
  obtain s st where z: "z = (s, st)" by (cases z)
  show ?case
  proof (cases j)
    case 0
    then show ?thesis by (simp add: z)
  next
    case (Suc k)
    with Cons.prems have k: "k < length zs" by simp
    have "stridesLoop (toInt32 a) (z # zs) ! j = stridesLoop (toInt32 (a * s)) zs ! k"
      by (simp add: z Suc toInt32_mult)
    also have "\<dots> = (if fst (zs ! k) = 1 \<and> getIntAttr (snd (zs ! k)) = Some 0
      then Attr (toInt32 (a * s * prod_list (map fst (take k zs))))
      else snd (zs ! k))"
      by (rule Cons.IH[OF k])
    finally show ?thesis by (simp add: Suc z mult.assoc)
  qed
qed

lemma getMixedStridesForMemref_nth:
  assumes len: "length (getSizes op) = length (getMixedStrides op)"
      and i: "i < length (getSizes op)"
  shows "getMixedStridesForMemref op ! i =
     (if getSizes op ! i = 1 \<and> getIntAttr (getMixedStrides op ! i) = Some 0
      then Attr (toInt32 (prod_list (drop (Suc i) (getSizes op))))
      else getMixedStrides op ! i)"
proof -
  let ?zs = "zip (getSizes op) (getMixedStrides op)"
  let ?n = "length (getSizes op)"
  have lz: "length ?zs = ?n" using len by simp
  have j: "?n - Suc i < length (rev ?zs)" using i lz by simp
  have one: "toInt32 1 = 1" by (simp add: toInt32_def)
  have "getMixedStridesForMemref op ! i = stridesLoop (toInt32 1) (rev ?zs) ! (?n - Suc i)"
    unfolding getMixedStridesForMemref_def one
    using i lz by (simp add: rev_nth length_stridesLoop)
  also have "\<dots> = (if fst (rev ?zs ! (?n - Suc i)) = 1 \<and> getIntAttr (snd (rev ?zs ! (?n - Suc i))) = Some 0
      then Attr (toInt32 (1 * prod_list (map fst (take (?n - Suc i) (rev ?zs)))))
      else snd (rev ?zs ! (?n - Suc i)))"
    by (rule stridesLoop_nth[OF j])
  also have "rev ?zs ! (?n - Suc i) = ?zs ! i"
    using i lz by (simp add: rev_nth)
  also have "take (?n - Suc i) (rev ?zs) = rev (drop (Suc i) ?zs)"
    using lz i by (simp add: take_rev)
  also have "prod_list (map fst (rev (drop (Suc i) ?zs))) = prod_list (drop (Suc i) (getSizes op))"
    using len by (simp add: rev_map[symmetric] prod_list.rev drop_map[symmetric] del: rev_map)
  finally show ?thesis using i len by simp
qed

lemma eval_ofrs_map_Val_ofrToIndexValue:
  "eval_ofrs env (map Val (ofrsToIndexValues xs)) = eval_ofrs env xs"
  by (simp add: eval_ofrs_def ofrsToIndexValues_def comp_def eval_ofrToIndexValue)

lemma smod_nonneg: "0 \<le> t \<Longrightarrow> 0 < n \<Longrightarrow> (t::int) smod n = t mod n"
  by (cases "t = 0") (simp_all add: signed_modulo_int_def)

lemma runOnOperations_results:
  "runOnOperations ops = Inr (rs, overall) \<Longrightarrow>
   map (\<lambda>op. MakeTensorPtrConverter_matchAndRewrite op emptyRewriter) ops = map Inr rs \<and>
   (overall = failure \<longleftrightarrow> (\<exists>r\<in>set rs. snd r = failure))"
proof (induction ops arbitrary: rs overall)
  case Nil
  then show ?case by auto
next
  case (Cons op ops)
  then show ?case
    by (auto split: sum.splits prod.splits if_splits)
qed

lemma plainOp_result:
  "MakeTensorPtrConverter_matchAndRewrite plainOp emptyRewriter =
     Inr (emptyRewriter\<lparr>replaced := Some (ReplaceWithMemref
       (ReinterpretCastOp
          \<lparr>mrShape = [4, 4], mrElementType = ElementType ''f32'',
           mrLayout = Some \<lparr>layoutOffset = 3, layoutStrides = [10, 1]\<rparr>\<rparr>
          (BaseArg 0) (Attr 3) [Attr 4, Attr 4] [Attr 10, Attr 1]))\<rparr>, success)"
  by (simp add: MakeTensorPtrConverter_matchAndRewrite_def plainOp_def rewriteStructuredPtr_def
      rewritePtr_def getMixedStridesForMemref_def dispatchIndexOpFoldResults_def
      accumulateTargetOffset_def getResultMemrefType_def getElementTypeStructuredPtr_def
      getMixedSizes_def toInt32_def)

lemma getResultMemrefType_ok:
  assumes "getType op = (if isBlockPtr op then PointerType (RankedTensorType shp e)
                         else RankedTensorType shp (PointerType e))"
  shows "getResultMemrefType op off strs rs =
     Inr \<lparr>mrShape = rs, mrElementType = e,
          mrLayout = Some \<lparr>layoutOffset = off, layoutStrides = strs\<rparr>\<rparr>"
  using assms
  by (simp add: getResultMemrefType_def getElementTypeBlockPtr_def getElementTypeStructuredPtr_def)

lemma stackedNoWrapOp_casts:
  "createStackedCastOps stackedNoWrapOp =
     Inr (ReinterpretCastOp
            \<lparr>mrShape = [kDynamic, kDynamic], mrElementType = ElementType ''f32'',
             mrLayout = Some \<lparr>layoutOffset = kDynamic, layoutStrides = [kDynamic, kDynamic]\<rparr>\<rparr>
            (BaseArg 0) (Val (ConstantOp 8))
            [Val (DivSIOp (SubIOp (AddIOp (IndexArg 0) (RemSIOp (ConstantOp 8) (ConstantOp 4)))
                            (ConstantOp 8)) (ConstantOp 4)),
             Val (ConstantOp 4)]
            [Val (ConstantOp 4), Val (ConstantOp 1)],
          ReinterpretCastOp
            \<lparr>mrShape = [kDynamic, kDynamic], mrElementType = ElementType ''f32'',
             mrLayout = Some \<lparr>layoutOffset = kDynamic, layoutStrides = [kDynamic, kDynamic]\<rparr>\<rparr>
            (BaseArg 0) (Val (RemSIOp (ConstantOp 8) (ConstantOp 4)))
            [Val (SubIOp (ConstantOp 2)
                   (DivSIOp (SubIOp (AddIOp (IndexArg 0) (RemSIOp (ConstantOp 8) (ConstantOp 4)))
                              (ConstantOp 8)) (ConstantOp 4))),
             Val (ConstantOp 4)]
            [Val (ConstantOp 4), Val (ConstantOp 1)])"
  by (simp add: createStackedCastOps_def stackedNoWrapOp_def tensorShape_def
      getResultMemrefType_def getElementTypeStructuredPtr_def at_def accumulateTargetOffset_def
      Let_def numeral_2_eq_2)

section \<open>Properties of the execution of the created operations\<close>

lemma box_mem: "idx \<in> set (box ns) \<longleftrightarrow> list_all2 (\<lambda>i n. 0 \<le> i \<and> i < n) idx ns"
proof (induction ns arbitrary: idx)
  case Nil
  then show ?case by simp
next
  case (Cons n ns)
  show ?case
  proof (cases idx)
    case Nil
    then show ?thesis by auto
  next
    case (Cons i js)
    have "i # js \<in> set (box (n # ns)) \<longleftrightarrow> (0 \<le> i \<and> i \<le> n - 1) \<and> js \<in> set (box ns)"
      by auto
    then show ?thesis using Cons.IH[of js] by (auto simp: Cons)
  qed
qed

lemma box_mem_nth:
  "idx \<in> set (box ns) \<longleftrightarrow>
     length idx = length ns \<and> (\<forall>k<length ns. 0 \<le> idx ! k \<and> idx ! k < ns ! k)"
  by (auto simp: box_mem list_all2_conv_all_nth)

lemma writeCells_Nil: "writeCells dst val [] \<sigma> = \<sigma>"
  by (simp add: writeCells_def)

lemma writeCells_Cons:
  "writeCells dst val (x # xs) \<sigma> = writeCells dst val xs (\<sigma>(dst x := val x))"
  by (simp add: writeCells_def)

lemma writeCells_other:
  "c \<notin> dst ` set idxs \<Longrightarrow> writeCells dst val idxs \<sigma> c = \<sigma> c"
  by (induction idxs arbitrary: \<sigma>) (auto simp: writeCells_Nil writeCells_Cons)

lemma writeCells_in:
  "inj_on dst (set idxs) \<Longrightarrow> idx \<in> set idxs \<Longrightarrow>
   writeCells dst val idxs \<sigma> (dst idx) = val idx"
proof (induction idxs arbitrary: \<sigma>)
  case Nil
  then show ?case by simp
next
  case (Cons x xs)
  show ?case
  proof (cases "idx \<in> set xs")
    case True
    moreover have "inj_on dst (set xs)" using Cons.prems(1) by (simp add: inj_on_def)
    ultimately show ?thesis using Cons.IH by (simp add: writeCells_Cons)
  next
    case False
    with Cons.prems(2) have eq: "idx = x" by simp
    have "dst x \<notin> dst ` set xs"
      using Cons.prems(1) False eq by (auto simp: inj_on_def)
    then show ?thesis by (simp add: writeCells_Cons writeCells_other eq)
  qed
qed

lemma map2_add_zeros:
  "length idx = n \<Longrightarrow> map2 (+) (replicate n (0::int)) idx = idx"
  by (induction idx arbitrary: n) auto

lemma map2_mult_ones:
  "length idx = n \<Longrightarrow> map2 (*) idx (replicate n (1::int)) = idx"
  by (induction idx arbitrary: n) auto

lemma those_replicate_Some: "those (replicate n (Some c)) = Some (replicate n c)"
  by (induction n) auto

lemma eval_ofrs_replicate_Attr: "eval_ofrs ienv (replicate n (Attr c)) = Some (replicate n c)"
  by (induction n) (auto simp: eval_ofrs_def)

lemma subviewInBounds_zero_one:
  "length m = length n \<Longrightarrow>
   list_all2 (\<lambda>s n. 0 \<le> s \<and> s \<le> n) m n \<Longrightarrow>
   subviewInBounds n (replicate (length n) 0) m (replicate (length n) 1)"
proof (induction m n rule: list_induct2)
  case Nil
  then show ?case by (simp add: subviewInBounds_def)
next
  case (Cons s m n ns)
  then show ?case by (auto simp: subviewInBounds_def)
qed

lemma box_subset:
  "list_all2 (\<lambda>s n. 0 \<le> s \<and> s \<le> n) m n \<Longrightarrow> set (box m) \<subseteq> set (box n)"
proof
  fix idx
  assume le: "list_all2 (\<lambda>s n. 0 \<le> s \<and> s \<le> n) m n" and mem: "idx \<in> set (box m)"
  have "list_all2 (\<lambda>i n. 0 \<le> i \<and> i < n) idx n"
    using mem le unfolding box_mem
    by (auto simp: list_all2_conv_all_nth) (metis less_le_trans)
  then show "idx \<in> set (box n)" by (simp add: box_mem)
qed

lemma validSizes_nth: "validSizes n \<longleftrightarrow> (\<forall>k<length n. 0 \<le> n ! k)"
  by (simp add: validSizes_def list_all_length)

lemma wrap_tags_differ: "WRAP_SIDE_BY_SIDE \<noteq> WRAP_STACKED"
  by (simp add: WRAP_SIDE_BY_SIDE_def WRAP_STACKED_def)

lemma eval_minOFRs:
  "eval_ofr env l = Some a \<Longrightarrow> eval_ofr env r = Some b \<Longrightarrow> eval_ofr env (minOFRs l r) = Some (min a b)"
  by (cases l; cases r) (auto simp: eval_ofrToIndexValue)

lemma eval_subOFRs:
  "eval_ofr env l = Some a \<Longrightarrow> eval_ofr env r = Some b \<Longrightarrow> eval_ofr env (subOFRs l r) = Some (a - b)"
  by (cases l; cases r) (auto simp: eval_ofrToIndexValue)

lemma length_getMixedValues: "length (getMixedValues st dyn) \<le> length st"
  by (induction st dyn rule: getMixedValues.induct) (auto split: list.splits)

lemma orAccumulate_returns:
  "i + length shp \<le> length mixedDims \<Longrightarrow> length mixedDims \<le> length (load_getStaticMaskDims op) \<Longrightarrow>
   \<exists>acc. orAccumulate op mixedDims shp i accBase = Inr acc"
proof (induction shp arbitrary: i accBase)
  case Nil
  then show ?case by simp
next
  case (Cons s shp)
  then have i: "i < length mixedDims" "i < length (load_getStaticMaskDims op)" by auto
  have next_ok: "Suc i + length shp \<le> length mixedDims" using Cons.prems(1) by simp
  show ?case
  proof (cases "mixedDims ! i")
    case (Attr n)
    with i Cons.IH[OF next_ok Cons.prems(2)] show ?thesis by (simp add: at_def)
  next
    case (Val v)
    with i Cons.IH[OF next_ok Cons.prems(2)] show ?thesis by (simp add: at_def)
  qed
qed

lemma getMixedValues_Attr_nth:
  "i < length (getMixedValues st dyn) \<Longrightarrow> getMixedValues st dyn ! i = Attr n \<Longrightarrow> st ! i = n"
proof (induction st dyn arbitrary: i rule: getMixedValues.induct)
  case (1 dyn)
  then show ?case by simp
next
  case (2 s ss dyn)
  show ?case
  proof (cases "s = kDynamic")
    case True
    with "2.prems" obtain d ds where dyn: "dyn = d # ds" by (cases dyn) auto
    show ?thesis
    proof (cases i)
      case 0
      with True dyn "2.prems" show ?thesis by simp
    next
      case (Suc j)
      with True dyn "2.prems" "2.IH"(1)[OF True dyn, of j] show ?thesis by simp
    qed
  next
    case False
    show ?thesis
    proof (cases i)
      case 0
      with False "2.prems" show ?thesis by simp
    next
      case (Suc j)
      with False "2.prems" "2.IH"(2)[OF False, of j] show ?thesis by simp
    qed
  qed
qed

lemma eval_ofrs_nth:
  "eval_ofrs ienv xs = Some vs \<Longrightarrow>
   length vs = length xs \<and> (\<forall>i<length xs. eval_ofr ienv (xs ! i) = Some (vs ! i))"
proof (induction xs arbitrary: vs)
  case Nil
  then show ?case by (simp add: eval_ofrs_Nil)
next
  case (Cons x xs)
  then obtain v vs' where v: "eval_ofr ienv x = Some v" "eval_ofrs ienv xs = Some vs'" "vs = v # vs'"
    by (auto simp: eval_ofrs_Cons)
  with Cons.IH[of vs'] show ?case by (auto simp: nth_Cons split: nat.splits)
qed

lemma orAccumulate_eval:
  assumes mixed: "mixedDims = load_getMixedMaskDims op"
      and ev: "eval_ofrs ienv mixedDims = Some m"
  shows "i + length rest \<le> length mixedDims \<Longrightarrow> eval_b ienv accBase = Some a \<Longrightarrow>
     \<exists>acc. orAccumulate op mixedDims rest i accBase = Inr acc \<and>
           eval_b ienv acc = Some (a \<or> (\<exists>j<length rest. m ! (i + j) < rest ! j))"
proof (induction rest arbitrary: i accBase a)
  case Nil
  then show ?case by simp
next
  case (Cons s rest)
  then have i: "i < length mixedDims" by simp
  have slen: "length mixedDims \<le> length (load_getStaticMaskDims op)"
    unfolding mixed load_getMixedMaskDims_def by (rule length_getMixedValues)
  from eval_ofrs_nth[OF ev] i have evi: "eval_ofr ienv (mixedDims ! i) = Some (m ! i)" by simp
  define dimi where "dimi = (case mixedDims ! i of Val v \<Rightarrow> v
      | Attr n \<Rightarrow> ConstantOp (load_getStaticMaskDims op ! i))"
  have edimi: "eval_i ienv dimi = Some (m ! i)"
  proof (cases "mixedDims ! i")
    case (Attr n)
    with getMixedValues_Attr_nth[of i "load_getStaticMaskDims op" "load_getMaskDims op" n] i
    have "load_getStaticMaskDims op ! i = n"
      by (simp add: mixed load_getMixedMaskDims_def)
    with Attr evi show ?thesis by (simp add: dimi_def)
  next
    case (Val v)
    with evi show ?thesis by (simp add: dimi_def)
  qed
  let ?acc' = "OrIOp accBase (CmpIOp_slt dimi (ConstantOp s))"
  have step: "orAccumulate op mixedDims (s # rest) i accBase =
              orAccumulate op mixedDims rest (Suc i) ?acc'"
    using i slen by (cases "mixedDims ! i") (simp_all add: at_def dimi_def)
  have ea: "eval_b ienv ?acc' = Some (a \<or> m ! i < s)"
    using Cons.prems(2) edimi by simp
  have le: "Suc i + length rest \<le> length mixedDims" using Cons.prems(1) by simp
  from Cons.IH[OF le ea] obtain acc where
    acc: "orAccumulate op mixedDims rest (Suc i) ?acc' = Inr acc"
    and eacc: "eval_b ienv acc = Some ((a \<or> m ! i < s) \<or> (\<exists>j<length rest. m ! (Suc i + j) < rest ! j))"
    by blast
  have "((a \<or> m ! i < s) \<or> (\<exists>j<length rest. m ! (Suc i + j) < rest ! j)) \<longleftrightarrow>
        (a \<or> (\<exists>j<length (s # rest). m ! (i + j) < (s # rest) ! j))"
  proof -
    have "(\<exists>j<length (s # rest). m ! (i + j) < (s # rest) ! j) \<longleftrightarrow>
          (m ! i < s \<or> (\<exists>j<length rest. m ! (Suc i + j) < rest ! j))"
      by (auto simp: less_Suc_eq_0_disj)
    then show ?thesis by blast
  qed
  with step acc eacc show ?case by simp
qed

lemma cast_cells_in_memory:
  "eval_m ienv (ReinterpretCastOp ty (BaseArg b) off szs strs) = Some v \<Longrightarrow>
   \<exists>a. vcell v idx = MemCell b a"
  by (auto split: option.splits if_splits)

lemma exec_copy_cells:
  assumes "exec env (CopyOp src dst) \<sigma> = Some \<sigma>'"
  shows "\<exists>sv dv. eval_m (indexArgs env) src = Some sv \<and> eval_m (indexArgs env) dst = Some dv \<and>
           vsizes sv = vsizes dv \<and> validSizes (vsizes dv) \<and>
           \<sigma>' = writeCells (vcell dv) (\<lambda>idx. \<sigma> (vcell sv idx)) (box (vsizes dv)) \<sigma>"
  using assms by (auto simp: copyView_def split: option.splits if_splits)

lemma eval_subview:
  assumes "eval_m ienv (SubViewOp src offs szs strs) = Some dv"
  shows "\<exists>v o' s t. eval_m ienv src = Some v \<and> eval_ofrs ienv offs = Some o' \<and>
           eval_ofrs ienv szs = Some s \<and> eval_ofrs ienv strs = Some t \<and>
           subviewInBounds (vsizes v) o' s t \<and>
           dv = \<lparr>vsizes = s, vcell = (\<lambda>idx. vcell v (map2 (+) o' (map2 (*) idx t)))\<rparr>"
  using assms by (auto simp: eval_ofrs_def split: option.splits if_splits)

lemma subviewInBounds_lengths:
  "subviewInBounds n o' s t \<Longrightarrow> length o' = length n \<and> length s = length n \<and> length t = length n"
  by (simp add: subviewInBounds_def)

lemma subviewInBounds_nth:
  "subviewInBounds n o' s t \<Longrightarrow> k < length n \<Longrightarrow>
   0 \<le> o' ! k \<and> 0 \<le> s ! k \<and>
   (s ! k = 0 \<or> (o' ! k < n ! k \<and> 0 \<le> o' ! k + (s ! k - 1) * t ! k \<and> o' ! k + (s ! k - 1) * t ! k < n ! k))"
  by (auto simp: subviewInBounds_def list_all_length)

text \<open>After the allocation and the conditional fill.\<close>

lemma exec_alloc_fill:
  assumes run: "execAll env [Alloc shp e, IfOp acc [FillOp (ScalarArg k) (AllocOp shp e)]] \<sigma> = Some \<sigma>2"
      and c: "eval_b (indexArgs env) acc = Some c"
  shows "(\<forall>b a. \<sigma>2 (MemCell b a) = \<sigma> (MemCell b a)) \<and>
         (\<forall>idx. \<sigma>2 (BufCell idx) = (if c \<and> idx \<in> set (box shp) then Some (scalarArgs env k) else None))"
proof (cases c)
  case False
  with run c show ?thesis by auto
next
  case True
  let ?\<sigma>1 = "\<lambda>c. case c of BufCell idx \<Rightarrow> None | MemCell b a \<Rightarrow> \<sigma> c"
  from run c True have s2: "\<sigma>2 = writeCells BufCell (\<lambda>idx. Some (scalarArgs env k)) (box shp) ?\<sigma>1"
    by (auto simp: fillView_def split: if_splits)
  have inj: "inj_on BufCell (set (box shp))" by (simp add: inj_on_def)
  have m: "\<sigma>2 (MemCell b a) = \<sigma> (MemCell b a)" for b a
    unfolding s2 by (subst writeCells_other) auto
  have b: "\<sigma>2 (BufCell idx) = (if c \<and> idx \<in> set (box shp) then Some (scalarArgs env k) else None)" for idx
  proof (cases "idx \<in> set (box shp)")
    case True
    then show ?thesis unfolding s2 using writeCells_in[OF inj True] \<open>c\<close> by simp
  next
    case False
    then have "BufCell idx \<notin> BufCell ` set (box shp)" by auto
    then show ?thesis unfolding s2 using False by (simp add: writeCells_other)
  qed
  from m b show ?thesis by blast
qed

lemma execAll_append:
  "execAll env (xs @ ys) \<sigma> =
     (case execAll env xs \<sigma> of Some \<sigma>m \<Rightarrow> execAll env ys \<sigma>m | None \<Rightarrow> None)"
  by (induction xs arbitrary: \<sigma>) (auto split: option.splits)

lemma writeCells_cong:
  "(\<And>idx. idx \<in> set idxs \<Longrightarrow> dst idx = dst' idx \<and> val idx = val' idx) \<Longrightarrow>
   writeCells dst val idxs \<sigma> = writeCells dst' val' idxs \<sigma>"
  unfolding writeCells_def by (rule foldl_cong) auto

lemma maskedLoad_fill_part:
  assumes other: "load_getOther op = Some x"
      and m: "eval_ofrs ienv (load_getMixedMaskDims op) = Some m"
      and len: "length (load_getMixedMaskDims op) = length shp"
  shows "\<exists>acc. orAccumulate op (load_getMixedMaskDims op) shp 0 (ConstantBool False) = Inr acc \<and>
           eval_b ienv acc = Some (\<exists>j<length shp. m ! j < shp ! j)"
  using orAccumulate_eval[OF refl m, of 0 shp "ConstantBool False" False] len by simp

lemma maskedLoad_single_run:
  assumes mask: "load_hasMask op"
      and ty: "load_getType op = RankedTensorType shp e"
      and ptr: "load_getPtr op = ReinterpretCastOp pty src off szs strs"
      and other: "load_getOther op = Some x"
      and m: "eval_ofrs ienv (load_getMixedMaskDims op) = Some m"
      and len: "length (load_getMixedMaskDims op) = length shp"
  shows "\<exists>acc. LoadConverter_matchAndRewrite op rw =
           Inr (rw\<lparr>createdOps := createdOps rw @
                   [Alloc shp e, IfOp acc [FillOp x (AllocOp shp e)],
                    CopyOp (SubViewOp (load_getPtr op) (replicate (length shp) (Attr 0))
                              (load_getMixedMaskDims op) (replicate (length shp) (Attr 1)))
                           (SubViewOp (AllocOp shp e) (replicate (length shp) (Attr 0))
                              (load_getMixedMaskDims op) (replicate (length shp) (Attr 1)))],
                  replaced := Some (ReplaceWithTensor (ToTensorOp (AllocOp shp e) True True))\<rparr>,
                success) \<and>
           eval_b ienv acc = Some (\<exists>j<length shp. m ! j < shp ! j)"
proof -
  from maskedLoad_fill_part[OF other m len] obtain acc where
    acc: "orAccumulate op (load_getMixedMaskDims op) shp 0 (ConstantBool False) = Inr acc"
    and ev: "eval_b ienv acc = Some (\<exists>j<length shp. m ! j < shp ! j)" by blast
  have "LoadConverter_matchAndRewrite op rw =
           Inr (rw\<lparr>createdOps := createdOps rw @
                   [Alloc shp e, IfOp acc [FillOp x (AllocOp shp e)],
                    CopyOp (SubViewOp (load_getPtr op) (replicate (length shp) (Attr 0))
                              (load_getMixedMaskDims op) (replicate (length shp) (Attr 1)))
                           (SubViewOp (AllocOp shp e) (replicate (length shp) (Attr 0))
                              (load_getMixedMaskDims op) (replicate (length shp) (Attr 1)))],
                  replaced := Some (ReplaceWithTensor (ToTensorOp (AllocOp shp e) True True))\<rparr>,
                success)"
    using mask
    by (simp add: LoadConverter_matchAndRewrite_def rewriteMaskedLoad_def ty Let_def other acc
        ptr getSubview_def create_def)
  with ev show ?thesis by blast
qed

lemma maskedLoad_split_run:
  assumes mask: "load_hasMask op"
      and ty: "load_getType op = RankedTensorType shp e"
      and ptr: "load_getPtr op = UnrealizedConversionCastOp [block1, block2] [tag]"
      and tag: "tag = WRAP_SIDE_BY_SIDE \<or> tag = WRAP_STACKED"
      and axis: "axis = (if tag = WRAP_SIDE_BY_SIDE then 1 else 0)"
      and blocks: "isMemRefType block1" "isMemRefType block2"
      and len: "length (load_getMixedMaskDims op) = 2"
      and pre: "pre = (case load_getOther op of None \<Rightarrow> []
           | Some other \<Rightarrow> (case orAccumulate op (load_getMixedMaskDims op) shp 0 (ConstantBool False) of
                Inr acc \<Rightarrow> [IfOp acc [FillOp other (AllocOp shp e)]] | Inl a \<Rightarrow> []))"
      and ok: "load_getOther op = None \<or>
               (\<exists>acc. orAccumulate op (load_getMixedMaskDims op) shp 0 (ConstantBool False) = Inr acc)"
      and src1: "src1 = SubViewOp block1 [Attr 0, Attr 0]
                   ((load_getMixedMaskDims op)[axis :=
                      minOFRs (Val (DimOp block1 axis)) (load_getMixedMaskDims op ! axis)])
                   [Attr 1, Attr 1]"
      and src2: "src2 = SubViewOp block2 [Attr 0, Attr 0]
                   ((load_getMixedMaskDims op)[axis :=
                      subOFRs (load_getMixedMaskDims op ! axis)
                        (minOFRs (Val (DimOp block1 axis)) (load_getMixedMaskDims op ! axis))])
                   [Attr 1, Attr 1]"
  shows "LoadConverter_matchAndRewrite op rw =
     Inr (rw\<lparr>createdOps := createdOps rw @ Alloc shp e # pre @
       [CopyOp src1
          (SubViewOp (AllocOp shp e) [Val (ConstantOp 0), Val (ConstantOp 0)]
             [Val (DimOp src1 0), Val (DimOp src1 1)] [Val (ConstantOp 1), Val (ConstantOp 1)]),
        CopyOp src2
          (SubViewOp (AllocOp shp e)
             ([Val (ConstantOp 0), Val (ConstantOp 0)][axis := Val (DimOp src1 axis)])
             [Val (DimOp src2 0), Val (DimOp src2 1)] [Val (ConstantOp 1), Val (ConstantOp 1)])],
       replaced := Some (ReplaceWithTensor (ToTensorOp (AllocOp shp e) True True)),
       erasedOps := erasedOps rw @ [load_getPtr op]\<rparr>, success)"
proof -
  let ?dims = "load_getMixedMaskDims op"
  obtain rowFull colFull where dims: "?dims = [rowFull, colFull]"
    using len by (cases ?dims; cases "tl ?dims") auto
  have fillpart: "(case load_getOther op of
                      None \<Rightarrow> Inr (create (Alloc shp e) rw)
                    | Some other \<Rightarrow>
                        (case orAccumulate op ?dims shp 0 (ConstantBool False) of
                           Inl a \<Rightarrow> Inl a
                         | Inr accBase \<Rightarrow>
                             Inr (create (IfOp accBase [FillOp other (AllocOp shp e)])
                                    (create (Alloc shp e) rw)))) =
        Inr (rw\<lparr>createdOps := createdOps rw @ Alloc shp e # pre\<rparr>)"
    using ok by (auto simp: pre create_def split: option.splits)
  show ?thesis
  proof (cases "tag = WRAP_SIDE_BY_SIDE")
    case sbs: True
    then have ax: "axis = 1" using axis by simp
    have sv: "getSideBySideSubviews ?dims block1 block2 = Inr (src1, src2)"
      using blocks by (simp add: getSideBySideSubviews_def dims at_def createSubview_def Let_def
          numeral_2_eq_2 src1 src2 ax)
    show ?thesis
      using mask sbs
      by (simp add: LoadConverter_matchAndRewrite_def rewriteMaskedLoad_def ty Let_def
          fillpart sv ptr)
        (simp add: createSideBySideCopies_def create_def ax Let_def)
  next
    case nsbs: False
    with tag have st: "tag = WRAP_STACKED" by simp
    have ax: "axis = 0" using axis nsbs by simp
    have sv: "getStackedSubviews ?dims block1 block2 = Inr (src1, src2)"
      using blocks by (simp add: getStackedSubviews_def dims at_def createSubview_def Let_def
          numeral_2_eq_2 src1 src2 ax)
    show ?thesis
      using mask st nsbs wrap_tags_differ
      by (simp add: LoadConverter_matchAndRewrite_def rewriteMaskedLoad_def ty Let_def
          fillpart sv ptr)
        (simp add: createStackedCopies_def create_def ax Let_def)
  qed
qed

lemma insideMask_box:
  "idx \<in> set (box shp) \<Longrightarrow> length m = length shp \<Longrightarrow>
   insideMask m idx \<longleftrightarrow> idx \<in> set (box m)"
  by (auto simp: insideMask_def box_mem_nth list_all2_conv_all_nth)

lemma outside_mask_cond:
  assumes "idx \<in> set (box shp)" "length m = length shp" "\<not> insideMask m idx"
  shows "\<exists>j<length shp. m ! j < shp ! j"
proof -
  from assms obtain j where j: "j < length shp" "\<not> idx ! j < m ! j"
    by (auto simp: insideMask_def box_mem_nth list_all2_conv_all_nth)
  with assms(1) have "idx ! j < shp ! j" by (simp add: box_mem_nth)
  with j show ?thesis by (intro exI[of _ j]) auto
qed

lemma unit_subview_index:
  "length idx = n \<Longrightarrow>
   map2 (+) (replicate n (0::int)) (map2 (*) idx (replicate n 1)) = idx"
  by (simp add: map2_mult_ones map2_add_zeros)

lemma maskedLoad_single_cells:
  assumes run: "execAll env
           [Alloc shp e, IfOp acc [FillOp (ScalarArg k) (AllocOp shp e)],
            CopyOp (SubViewOp (ReinterpretCastOp pty (BaseArg b) off szs strs)
                      (replicate (length shp) (Attr 0)) dims (replicate (length shp) (Attr 1)))
                   (SubViewOp (AllocOp shp e) (replicate (length shp) (Attr 0))
                      dims (replicate (length shp) (Attr 1)))] \<sigma> = Some \<sigma>'"
      and c: "eval_b (indexArgs env) acc = Some (\<exists>j<length shp. m ! j < shp ! j)"
      and m: "eval_ofrs (indexArgs env) dims = Some m"
      and idx: "idx \<in> set (box shp)"
  shows "\<sigma>' (BufCell idx) =
           (if insideMask m idx
            then \<sigma> (the (sourceCell (indexArgs env) (ReinterpretCastOp pty (BaseArg b) off szs strs) m idx))
            else Some (scalarArgs env k))"
proof -
  let ?ptr = "ReinterpretCastOp pty (BaseArg b) off szs strs"
  let ?n = "length shp"
  let ?pre = "[Alloc shp e, IfOp acc [FillOp (ScalarArg k) (AllocOp shp e)]]"
  let ?src = "SubViewOp ?ptr (replicate ?n (Attr 0)) dims (replicate ?n (Attr 1))"
  let ?dst = "SubViewOp (AllocOp shp e) (replicate ?n (Attr 0)) dims (replicate ?n (Attr 1))"
  from run have "execAll env (?pre @ [CopyOp ?src ?dst]) \<sigma> = Some \<sigma>'" by simp
  then obtain \<sigma>2 where s2: "execAll env ?pre \<sigma> = Some \<sigma>2"
    and cp: "exec env (CopyOp ?src ?dst) \<sigma>2 = Some \<sigma>'"
    unfolding execAll_append by (auto split: option.splits)
  from exec_alloc_fill[OF s2 c]
  have mem: "\<And>b a. \<sigma>2 (MemCell b a) = \<sigma> (MemCell b a)"
    and buf: "\<And>idx. \<sigma>2 (BufCell idx) =
       (if (\<exists>j<length shp. m ! j < shp ! j) \<and> idx \<in> set (box shp)
        then Some (scalarArgs env k) else None)"
    by auto
  from exec_copy_cells[OF cp] obtain sv dv where
    sv: "eval_m (indexArgs env) ?src = Some sv" and dv: "eval_m (indexArgs env) ?dst = Some dv"
    and valid: "validSizes (vsizes dv)"
    and s': "\<sigma>' = writeCells (vcell dv) (\<lambda>idx. \<sigma>2 (vcell sv idx)) (box (vsizes dv)) \<sigma>2"
    by blast
  from eval_subview[OF sv] m obtain v where
    v: "eval_m (indexArgs env) ?ptr = Some v"
    and svd: "sv = \<lparr>vsizes = m, vcell = (\<lambda>idx. vcell v (map2 (+) (replicate ?n 0)
                  (map2 (*) idx (replicate ?n 1))))\<rparr>"
    by (auto simp: eval_ofrs_replicate_Attr)
  from eval_subview[OF dv] m have
    inb: "subviewInBounds shp (replicate ?n 0) m (replicate ?n 1)"
    and dvd: "dv = \<lparr>vsizes = m, vcell = (\<lambda>idx. BufCell (map2 (+) (replicate ?n 0)
                  (map2 (*) idx (replicate ?n 1))))\<rparr>"
    by (auto simp: eval_ofrs_replicate_Attr)
  have lm: "length m = length shp" using subviewInBounds_lengths[OF inb] by simp
  have s'': "\<sigma>' = writeCells BufCell (\<lambda>idx. \<sigma>2 (vcell v idx)) (box m) \<sigma>2"
    unfolding s' svd dvd
    by (simp, rule writeCells_cong) (simp add: box_mem_nth lm unit_subview_index)
  have inj: "inj_on BufCell (set (box m))" by (simp add: inj_on_def)
  have src: "sourceCell (indexArgs env) ?ptr m idx = Some (vcell v idx)"
    using v unfolding sourceCell_def by simp
  show ?thesis
  proof (cases "insideMask m idx")
    case True
    then have im: "idx \<in> set (box m)" using insideMask_box[OF idx lm] by simp
    obtain a where a: "vcell v idx = MemCell b a"
      using cast_cells_in_memory[OF v] by blast
    have "\<sigma>' (BufCell idx) = \<sigma>2 (vcell v idx)"
      unfolding s'' by (rule writeCells_in[OF inj im])
    with True a mem src show ?thesis by simp
  next
    case False
    then have "idx \<notin> set (box m)" using insideMask_box[OF idx lm] by simp
    then have "BufCell idx \<notin> BufCell ` set (box m)" by auto
    then have "\<sigma>' (BufCell idx) = \<sigma>2 (BufCell idx)"
      unfolding s'' by (rule writeCells_other)
    with False buf outside_mask_cond[OF idx lm False] idx show ?thesis by simp
  qed
qed

declare box.simps [simp del]

lemma list2: "length xs = 2 \<Longrightarrow> \<exists>a b. xs = [a, b]"
  by (cases xs; cases "tl xs") auto

lemma box2_mem: "[i, j] \<in> set (box [a, b]) \<longleftrightarrow> 0 \<le> i \<and> i < a \<and> 0 \<le> j \<and> j < b"
  unfolding box_mem by auto

lemma box2_length: "idx \<in> set (box [a, b]) \<Longrightarrow> \<exists>i j. idx = [i, j]"
  unfolding box_mem_nth by (rule list2) simp

lemma box2_iff:
  "p \<in> set (box [a, b]) \<longleftrightarrow> (\<exists>i j. p = [i, j] \<and> 0 \<le> i \<and> i < a \<and> 0 \<le> j \<and> j < b)"
  using box2_length[of p a b] box2_mem by auto

lemma unit2_index:
  assumes "p \<in> set (box s)" "length s = 2"
  shows "map2 (+) [0, 0] (map2 (*) p [1, 1]) = p"
proof -
  from assms have "length p = 2" by (simp add: box_mem_nth)
  then obtain a b where "p = [a, b]" using list2 by blast
  then show ?thesis by simp
qed

lemma ones2_index:
  assumes "p \<in> set (box s)" "length s = 2"
  shows "map2 (*) p [1, 1] = p"
proof -
  from assms have "length p = 2" by (simp add: box_mem_nth)
  then obtain a b where "p = [a, b]" using list2 by blast
  then show ?thesis by simp
qed

lemma zeros2_index:
  assumes "p \<in> set (box s)" "length s = 2"
  shows "map2 (+) [0, 0] p = p"
proof -
  from assms have "length p = 2" by (simp add: box_mem_nth)
  then obtain a b where "p = [a, b]" using list2 by blast
  then show ?thesis by simp
qed

lemma eval_ofrs_update:
  "eval_ofrs ienv xs = Some vs \<Longrightarrow> eval_ofr ienv x = Some v \<Longrightarrow>
   eval_ofrs ienv (xs[k := x]) = Some (vs[k := v])"
proof (induction xs arbitrary: k vs)
  case Nil
  then show ?case by (simp add: eval_ofrs_Nil)
next
  case (Cons y ys)
  then obtain w ws where w: "eval_ofr ienv y = Some w" "eval_ofrs ienv ys = Some ws" "vs = w # ws"
    by (auto simp: eval_ofrs_Cons)
  show ?case
  proof (cases k)
    case 0
    with w Cons.prems(2) show ?thesis by (simp add: eval_ofrs_Cons)
  next
    case (Suc k')
    with w Cons.IH[OF w(2) Cons.prems(2), of k'] show ?thesis by (simp add: eval_ofrs_Cons)
  qed
qed

lemma maskedLoad_split_cells:
  assumes run: "execAll env
           [Alloc shp e, IfOp acc [FillOp (ScalarArg k) (AllocOp shp e)],
            CopyOp src1
              (SubViewOp (AllocOp shp e) [Val (ConstantOp 0), Val (ConstantOp 0)]
                 [Val (DimOp src1 0), Val (DimOp src1 1)] [Val (ConstantOp 1), Val (ConstantOp 1)]),
            CopyOp src2
              (SubViewOp (AllocOp shp e)
                 ([Val (ConstantOp 0), Val (ConstantOp 0)][axis := Val (DimOp src1 axis)])
                 [Val (DimOp src2 0), Val (DimOp src2 1)] [Val (ConstantOp 1), Val (ConstantOp 1)])]
           \<sigma> = Some \<sigma>'"
      and src1: "src1 = SubViewOp block1 [Attr 0, Attr 0]
                   (dims[axis := minOFRs (Val (DimOp block1 axis)) (dims ! axis)]) [Attr 1, Attr 1]"
      and src2: "src2 = SubViewOp block2 [Attr 0, Attr 0]
                   (dims[axis := subOFRs (dims ! axis)
                        (minOFRs (Val (DimOp block1 axis)) (dims ! axis))]) [Attr 1, Attr 1]"
      and b1: "block1 = ReinterpretCastOp ty1 (BaseArg a1) off1 szs1 strs1"
      and b2: "block2 = ReinterpretCastOp ty2 (BaseArg a2) off2 szs2 strs2"
      and axis: "axis = (if tag = WRAP_SIDE_BY_SIDE then 1 else 0)"
      and c: "eval_b (indexArgs env) acc = Some (\<exists>j<length shp. m ! j < shp ! j)"
      and m: "eval_ofrs (indexArgs env) dims = Some m"
      and len: "length dims = 2"
      and idx: "idx \<in> set (box shp)"
  shows "\<sigma>' (BufCell idx) =
           (if insideMask m idx
            then \<sigma> (the (sourceCell (indexArgs env)
                            (UnrealizedConversionCastOp [block1, block2] [tag]) m idx))
            else Some (scalarArgs env k))"
proof -
  let ?ienv = "indexArgs env"
  let ?pre = "[Alloc shp e, IfOp acc [FillOp (ScalarArg k) (AllocOp shp e)]]"
  let ?dst1 = "SubViewOp (AllocOp shp e) [Val (ConstantOp 0), Val (ConstantOp 0)]
                 [Val (DimOp src1 0), Val (DimOp src1 1)] [Val (ConstantOp 1), Val (ConstantOp 1)]"
  let ?dst2 = "SubViewOp (AllocOp shp e)
                 ([Val (ConstantOp 0), Val (ConstantOp 0)][axis := Val (DimOp src1 axis)])
                 [Val (DimOp src2 0), Val (DimOp src2 1)] [Val (ConstantOp 1), Val (ConstantOp 1)]"
  have ax: "axis = 0 \<or> axis = 1" using axis by simp
  from run have "execAll env (?pre @ [CopyOp src1 ?dst1, CopyOp src2 ?dst2]) \<sigma> = Some \<sigma>'" by simp
  then obtain \<sigma>2 \<sigma>3 where s2: "execAll env ?pre \<sigma> = Some \<sigma>2"
    and cp1: "exec env (CopyOp src1 ?dst1) \<sigma>2 = Some \<sigma>3"
    and cp2: "exec env (CopyOp src2 ?dst2) \<sigma>3 = Some \<sigma>'"
    unfolding execAll_append by (auto split: option.splits)
  from exec_alloc_fill[OF s2 c]
  have mem: "\<And>b a. \<sigma>2 (MemCell b a) = \<sigma> (MemCell b a)"
    and buf: "\<And>idx. \<sigma>2 (BufCell idx) =
       (if (\<exists>j<length shp. m ! j < shp ! j) \<and> idx \<in> set (box shp)
        then Some (scalarArgs env k) else None)"
    by auto
  obtain rowFull colFull where dims: "dims = [rowFull, colFull]"
    using list2[OF len] by blast
  from m obtain m0 m1 where mm: "m = [m0, m1]"
    and e0: "eval_ofr ?ienv rowFull = Some m0" and e1: "eval_ofr ?ienv colFull = Some m1"
    by (auto simp: dims eval_ofrs_Cons eval_ofrs_Nil)
  \<comment> \<open>the first copy\<close>
  from exec_copy_cells[OF cp1] obtain sv1 dv1 where
    sv1: "eval_m ?ienv src1 = Some sv1" and dv1: "eval_m ?ienv ?dst1 = Some dv1"
    and s3: "\<sigma>3 = writeCells (vcell dv1) (\<lambda>idx. \<sigma>2 (vcell sv1 idx)) (box (vsizes dv1)) \<sigma>2"
    by blast
  from eval_subview[OF sv1[unfolded src1]] obtain v1 s1 where
    v1: "eval_m ?ienv block1 = Some v1"
    and es1: "eval_ofrs ?ienv (dims[axis := minOFRs (Val (DimOp block1 axis)) (dims ! axis)]) = Some s1"
    and inb1: "subviewInBounds (vsizes v1) [0, 0] s1 [1, 1]"
    and sv1d: "sv1 = \<lparr>vsizes = s1, vcell = (\<lambda>idx. vcell v1 (map2 (+) [0, 0] (map2 (*) idx [1, 1])))\<rparr>"
    by (auto simp: eval_ofrs_def)
  have lv1: "length (vsizes v1) = 2" using subviewInBounds_lengths[OF inb1] by simp
  define c1 where "c1 = min (vsizes v1 ! axis) (m ! axis)"
  have dax: "eval_ofr ?ienv (Val (DimOp block1 axis)) = Some (vsizes v1 ! axis)"
    using v1 lv1 ax by auto
  have emin: "eval_ofr ?ienv (minOFRs (Val (DimOp block1 axis)) (dims ! axis)) = Some c1"
    unfolding c1_def using ax e0 e1 by (intro eval_minOFRs[OF dax]) (auto simp: dims mm)
  have s1: "s1 = m[axis := c1]"
    using es1 eval_ofrs_update[OF m emin, of axis] by simp
  from eval_subview[OF dv1] sv1 s1 ax have
    inbd1: "subviewInBounds shp [0, 0] s1 [1, 1]"
    and dv1d: "dv1 = \<lparr>vsizes = s1, vcell = (\<lambda>idx. BufCell (map2 (+) [0, 0] (map2 (*) idx [1, 1])))\<rparr>"
    by (auto simp: eval_ofrs_def sv1d mm)
  have ls: "length shp = 2" using subviewInBounds_lengths[OF inbd1] by simp
  then obtain S0 S1 where shp: "shp = [S0, S1]" using list2 by blast
  \<comment> \<open>the second copy\<close>
  from exec_copy_cells[OF cp2] obtain sv2 dv2 where
    sv2: "eval_m ?ienv src2 = Some sv2" and dv2: "eval_m ?ienv ?dst2 = Some dv2"
    and s': "\<sigma>' = writeCells (vcell dv2) (\<lambda>idx. \<sigma>3 (vcell sv2 idx)) (box (vsizes dv2)) \<sigma>3"
    by blast
  from eval_subview[OF sv2[unfolded src2]] obtain v2 s2 where
    v2: "eval_m ?ienv block2 = Some v2"
    and es2: "eval_ofrs ?ienv (dims[axis := subOFRs (dims ! axis)
                        (minOFRs (Val (DimOp block1 axis)) (dims ! axis))]) = Some s2"
    and inb2: "subviewInBounds (vsizes v2) [0, 0] s2 [1, 1]"
    and sv2d: "sv2 = \<lparr>vsizes = s2, vcell = (\<lambda>idx. vcell v2 (map2 (+) [0, 0] (map2 (*) idx [1, 1])))\<rparr>"
    by (auto simp: eval_ofrs_def)
  have esub: "eval_ofr ?ienv (subOFRs (dims ! axis)
                        (minOFRs (Val (DimOp block1 axis)) (dims ! axis))) = Some (m ! axis - c1)"
    using ax e0 e1 by (intro eval_subOFRs[OF _ emin]) (auto simp: dims mm)
  have s2d: "s2 = m[axis := m ! axis - c1]"
    using es2 eval_ofrs_update[OF m esub, of axis] by simp
  define o2 where "o2 = [0, 0][axis := c1]"
  from eval_subview[OF dv2] sv1 sv2 s1 s2d ax have
    inbd2: "subviewInBounds shp o2 s2 [1, 1]"
    and dv2d: "dv2 = \<lparr>vsizes = s2, vcell = (\<lambda>idx. BufCell (map2 (+) o2 (map2 (*) idx [1, 1])))\<rparr>"
    by (auto simp: eval_ofrs_def sv1d sv2d mm o2_def)
  \<comment> \<open>the cells of the sources are in memory\<close>
  have mem1: "\<exists>a. vcell v1 p = MemCell a1 a" for p
    using cast_cells_in_memory[OF v1[unfolded b1]] by blast
  have mem2: "\<exists>a. vcell v2 p = MemCell a2 a" for p
    using cast_cells_in_memory[OF v2[unfolded b2]] by blast
  have lm2: "length m = 2" by (simp add: mm)
  have ls1: "length s1 = 2" and ls2: "length s2 = 2" by (simp_all add: s1 s2d lm2)
  have s3': "\<sigma>3 = writeCells BufCell (\<lambda>idx. \<sigma>2 (vcell v1 idx)) (box s1) \<sigma>2"
    unfolding s3 sv1d dv1d
    by (simp, rule writeCells_cong) (simp add: ones2_index[OF _ ls1] zeros2_index[OF _ ls1])
  have s3mem: "\<sigma>3 (MemCell b a) = \<sigma> (MemCell b a)" for b a
    unfolding s3' using mem by (subst writeCells_other) auto
  have s'': "\<sigma>' = writeCells (\<lambda>idx. BufCell (map2 (+) o2 idx)) (\<lambda>idx. \<sigma> (vcell v2 idx)) (box s2) \<sigma>3"
  proof -
    have "\<sigma>3 (vcell v2 p) = \<sigma> (vcell v2 p)" for p
      using mem2[of p] s3mem by auto
    then show ?thesis
      unfolding s' sv2d dv2d
      by (simp, intro writeCells_cong) (simp add: ones2_index[OF _ ls2] zeros2_index[OF _ ls2])
  qed
  \<comment> \<open>bounds\<close>
  from subviewInBounds_nth[OF inb1, of axis] ax lv1 have c1nn: "0 \<le> c1"
    by (auto simp: s1 mm)
  have c1le: "c1 \<le> m ! axis" by (simp add: c1_def)
  obtain i j where ij: "idx = [i, j]" using idx box2_length unfolding shp by blast
  from idx have ib: "0 \<le> i" "i < S0" "0 \<le> j" "j < S1"
    by (simp_all add: ij shp box2_mem)
  have inj1: "inj_on BufCell (set (box s1))" by (simp add: inj_on_def)
  have inj2: "inj_on (\<lambda>idx. BufCell (map2 (+) o2 idx)) (set (box s2))"
    using ax by (auto simp: inj_on_def s2d mm o2_def box2_iff)
  have src: "sourceCell ?ienv (UnrealizedConversionCastOp [block1, block2] [tag]) m idx =
        Some (if idx ! axis < c1 then vcell v1 idx else vcell v2 (idx[axis := idx ! axis - c1]))"
    using v1 v2 wrap_tags_differ
    by (auto simp: sourceCell_def Let_def c1_def axis)
  show ?thesis
  proof (cases "insideMask m idx")
    case True
    then have im: "i < m0" "j < m1" by (simp_all add: insideMask_def ij mm)
    show ?thesis
    proof (cases "idx ! axis < c1")
      case lt: True
      have in1: "idx \<in> set (box s1)"
        using ax lt im ib by (auto simp: s1 mm ij box2_mem)
      have notin2: "BufCell idx \<notin> (\<lambda>idx. BufCell (map2 (+) o2 idx)) ` set (box s2)"
        using ax lt by (auto simp: s2d mm ij o2_def box2_iff)
      have "\<sigma>' (BufCell idx) = \<sigma>3 (BufCell idx)"
        unfolding s'' by (rule writeCells_other[OF notin2])
      also have "\<dots> = \<sigma>2 (vcell v1 idx)"
        unfolding s3' by (rule writeCells_in[OF inj1 in1])
      also have "\<dots> = \<sigma> (vcell v1 idx)"
        using mem1[of idx] mem by auto
      finally show ?thesis using True lt src by simp
    next
      case ge: False
      let ?idx' = "idx[axis := idx ! axis - c1]"
      have in2: "?idx' \<in> set (box s2)"
        using ax ge im ib c1nn by (auto simp: s2d mm ij box2_mem)
      have shifted: "map2 (+) o2 ?idx' = idx"
        using ax by (auto simp: o2_def ij)
      have "\<sigma>' (BufCell idx) = \<sigma>' (BufCell (map2 (+) o2 ?idx'))" by (simp add: shifted)
      also have "\<dots> = \<sigma> (vcell v2 ?idx')"
        unfolding s'' by (rule writeCells_in[OF inj2 in2])
      finally show ?thesis using True ge src by simp
    qed
  next
    case False
    then have out: "\<not> (i < m0 \<and> j < m1)" by (simp add: insideMask_def ij mm)
    have notin2: "BufCell idx \<notin> (\<lambda>idx. BufCell (map2 (+) o2 idx)) ` set (box s2)"
      using ax out c1le c1nn
      by (auto simp: s2d mm ij o2_def box2_iff)
    have notin1: "BufCell idx \<notin> BufCell ` set (box s1)"
      using ax out c1le by (auto simp: s1 mm ij box2_mem)
    have lm: "length m = length shp" by (simp add: mm shp)
    have "\<sigma>' (BufCell idx) = \<sigma>3 (BufCell idx)"
      unfolding s'' by (rule writeCells_other[OF notin2])
    also have "\<dots> = \<sigma>2 (BufCell idx)"
      unfolding s3' by (rule writeCells_other[OF notin1])
    finally show ?thesis
      using False buf outside_mask_cond[OF idx lm False] idx by simp
  qed
qed

section \<open>When the created operations of a masked load run\<close>

text \<open>
  With the valid extents between 0 and the shape and within the source, every sub-view
  stays inside its source and every copy has equal shapes, so the created operations
  run without undefined behaviour.
\<close>

lemma exec_alloc_fill_defined:
  assumes c: "eval_b (indexArgs env) acc = Some c" and v: "validSizes shp"
  shows "\<exists>\<sigma>2. execAll env [Alloc shp e, IfOp acc [FillOp (ScalarArg k) (AllocOp shp e)]] \<sigma> = Some \<sigma>2"
  by (cases c) (simp_all add: c fillView_def v)

lemma bounds_validSizes:
  assumes "list_all2 (\<lambda>s n. 0 \<le> s \<and> s \<le> n) m shp"
  shows "validSizes m \<and> validSizes shp"
  using assms unfolding validSizes_nth list_all2_conv_all_nth by fastforce

lemma maskedLoad_single_defined:
  assumes c: "eval_b (indexArgs env) acc = Some c"
      and m: "eval_ofrs (indexArgs env) dims = Some m"
      and v: "eval_m (indexArgs env) ptr = Some v"
      and le: "list_all2 (\<lambda>s n. 0 \<le> s \<and> s \<le> n) m shp"
      and fit: "list_all2 (\<le>) m (vsizes v)"
  shows "\<exists>\<sigma>'. execAll env
           [Alloc shp e, IfOp acc [FillOp (ScalarArg k) (AllocOp shp e)],
            CopyOp (SubViewOp ptr (replicate (length shp) (Attr 0)) dims
                      (replicate (length shp) (Attr 1)))
                   (SubViewOp (AllocOp shp e) (replicate (length shp) (Attr 0))
                      dims (replicate (length shp) (Attr 1)))] \<sigma> = Some \<sigma>'"
proof -
  let ?n = "length shp"
  let ?pre = "[Alloc shp e, IfOp acc [FillOp (ScalarArg k) (AllocOp shp e)]]"
  let ?src = "SubViewOp ptr (replicate ?n (Attr 0)) dims (replicate ?n (Attr 1))"
  let ?dst = "SubViewOp (AllocOp shp e) (replicate ?n (Attr 0)) dims (replicate ?n (Attr 1))"
  have lm: "length m = length shp" using le by (rule list_all2_lengthD)
  have lv: "length m = length (vsizes v)" using fit by (rule list_all2_lengthD)
  from bounds_validSizes[OF le] have vm: "validSizes m" and vs: "validSizes shp" by auto
  have le': "list_all2 (\<lambda>s n. 0 \<le> s \<and> s \<le> n) m (vsizes v)"
    using le fit unfolding list_all2_conv_all_nth by auto
  have inbd: "subviewInBounds shp (replicate ?n 0) m (replicate ?n 1)"
    using subviewInBounds_zero_one[OF lm le] .
  have inbs: "subviewInBounds (vsizes v) (replicate ?n 0) m (replicate ?n 1)"
    using subviewInBounds_zero_one[OF lv le'] lm lv by simp
  have es: "eval_m (indexArgs env) ?src =
     Some \<lparr>vsizes = m, vcell = (\<lambda>idx. vcell v (map2 (+) (replicate ?n 0)
                  (map2 (*) idx (replicate ?n 1))))\<rparr>"
    using v m inbs
    by (simp add: eval_ofrs_def[symmetric] eval_ofrs_replicate_Attr those_replicate_Some)
  have ed: "eval_m (indexArgs env) ?dst =
     Some \<lparr>vsizes = m, vcell = (\<lambda>idx. BufCell (map2 (+) (replicate ?n 0)
                  (map2 (*) idx (replicate ?n 1))))\<rparr>"
    using m inbd
    by (simp add: eval_ofrs_def[symmetric] eval_ofrs_replicate_Attr those_replicate_Some)
  have cp: "\<exists>\<sigma>'. exec env (CopyOp ?src ?dst) \<sigma>2 = Some \<sigma>'" for \<sigma>2
    by (simp only: exec.simps es ed) (simp add: copyView_def vm)
  from exec_alloc_fill_defined[OF c vs] obtain \<sigma>2 where
    s2: "execAll env ?pre \<sigma> = Some \<sigma>2" by blast
  from cp[of \<sigma>2] obtain \<sigma>' where s': "exec env (CopyOp ?src ?dst) \<sigma>2 = Some \<sigma>'" by blast
  have "execAll env (?pre @ [CopyOp ?src ?dst]) \<sigma> = Some \<sigma>'"
    unfolding execAll_append using s2 s' by simp
  then show ?thesis by (intro exI[of _ \<sigma>']) simp
qed

lemma maskedLoad_split_defined:
  assumes src1: "src1 = SubViewOp block1 [Attr 0, Attr 0]
                   (dims[axis := minOFRs (Val (DimOp block1 axis)) (dims ! axis)]) [Attr 1, Attr 1]"
      and src2: "src2 = SubViewOp block2 [Attr 0, Attr 0]
                   (dims[axis := subOFRs (dims ! axis)
                        (minOFRs (Val (DimOp block1 axis)) (dims ! axis))]) [Attr 1, Attr 1]"
      and v1: "eval_m (indexArgs env) block1 = Some v1"
      and v2: "eval_m (indexArgs env) block2 = Some v2"
      and ax: "axis = 0 \<or> axis = 1"
      and c: "eval_b (indexArgs env) acc = Some c"
      and m: "eval_ofrs (indexArgs env) dims = Some m"
      and len: "length dims = 2"
      and le: "list_all2 (\<lambda>s n. 0 \<le> s \<and> s \<le> n) m shp"
      and lv: "length (vsizes v1) = 2" "length (vsizes v2) = 2"
      and nn: "0 \<le> vsizes v1 ! axis" "0 \<le> vsizes v2 ! axis"
      and reach: "m ! axis \<le> vsizes v1 ! axis + vsizes v2 ! axis"
      and other: "m ! (1 - axis) \<le> vsizes v1 ! (1 - axis)" "m ! (1 - axis) \<le> vsizes v2 ! (1 - axis)"
  shows "\<exists>\<sigma>'. execAll env
           [Alloc shp e, IfOp acc [FillOp (ScalarArg k) (AllocOp shp e)],
            CopyOp src1
              (SubViewOp (AllocOp shp e) [Val (ConstantOp 0), Val (ConstantOp 0)]
                 [Val (DimOp src1 0), Val (DimOp src1 1)] [Val (ConstantOp 1), Val (ConstantOp 1)]),
            CopyOp src2
              (SubViewOp (AllocOp shp e)
                 ([Val (ConstantOp 0), Val (ConstantOp 0)][axis := Val (DimOp src1 axis)])
                 [Val (DimOp src2 0), Val (DimOp src2 1)] [Val (ConstantOp 1), Val (ConstantOp 1)])]
           \<sigma> = Some \<sigma>'"
proof -
  let ?ienv = "indexArgs env"
  let ?pre = "[Alloc shp e, IfOp acc [FillOp (ScalarArg k) (AllocOp shp e)]]"
  let ?dst1 = "SubViewOp (AllocOp shp e) [Val (ConstantOp 0), Val (ConstantOp 0)]
                 [Val (DimOp src1 0), Val (DimOp src1 1)] [Val (ConstantOp 1), Val (ConstantOp 1)]"
  let ?dst2 = "SubViewOp (AllocOp shp e)
                 ([Val (ConstantOp 0), Val (ConstantOp 0)][axis := Val (DimOp src1 axis)])
                 [Val (DimOp src2 0), Val (DimOp src2 1)] [Val (ConstantOp 1), Val (ConstantOp 1)]"
  obtain rowFull colFull where dims: "dims = [rowFull, colFull]"
    using list2[OF len] by blast
  from m obtain m0 m1 where mm: "m = [m0, m1]"
    and e0: "eval_ofr ?ienv rowFull = Some m0" and e1: "eval_ofr ?ienv colFull = Some m1"
    by (auto simp: dims eval_ofrs_Cons eval_ofrs_Nil)
  have ls: "length shp = 2" using list_all2_lengthD[OF le] by (simp add: mm)
  then obtain S0 S1 where shp: "shp = [S0, S1]" using list2 by blast
  from le have b: "0 \<le> m0" "m0 \<le> S0" "0 \<le> m1" "m1 \<le> S1" by (simp_all add: mm shp)
  obtain a0 a1 where sz1: "vsizes v1 = [a0, a1]" using list2[OF lv(1)] by blast
  obtain b0 b1 where sz2: "vsizes v2 = [b0, b1]" using list2[OF lv(2)] by blast
  from bounds_validSizes[OF le] have vs: "validSizes shp" by simp
  define c1 where "c1 = min (vsizes v1 ! axis) (m ! axis)"
  define s1 where "s1 = m[axis := c1]"
  define s2 where "s2 = m[axis := m ! axis - c1]"
  define o2 where "o2 = [0, 0][axis := c1]"
  have dax: "eval_ofr ?ienv (Val (DimOp block1 axis)) = Some (vsizes v1 ! axis)"
    using v1 lv ax by auto
  have emin: "eval_ofr ?ienv (minOFRs (Val (DimOp block1 axis)) (dims ! axis)) = Some c1"
    unfolding c1_def using ax e0 e1 by (intro eval_minOFRs[OF dax]) (auto simp: dims mm)
  have esub: "eval_ofr ?ienv (subOFRs (dims ! axis)
                        (minOFRs (Val (DimOp block1 axis)) (dims ! axis))) = Some (m ! axis - c1)"
    using ax e0 e1 by (intro eval_subOFRs[OF _ emin]) (auto simp: dims mm)
  have es1: "those (map (eval_ofr ?ienv)
                (dims[axis := minOFRs (Val (DimOp block1 axis)) (dims ! axis)])) = Some s1"
    using eval_ofrs_update[OF m emin, of axis] by (simp add: eval_ofrs_def s1_def)
  have es2: "those (map (eval_ofr ?ienv)
                (dims[axis := subOFRs (dims ! axis)
                        (minOFRs (Val (DimOp block1 axis)) (dims ! axis))])) = Some s2"
    using eval_ofrs_update[OF m esub, of axis] by (simp add: eval_ofrs_def s2_def)
  have inb1: "subviewInBounds (vsizes v1) [0, 0] s1 [1, 1]"
    using ax b nn(1) other(1)
    by (auto simp: subviewInBounds_def s1_def c1_def mm sz1)
  have inb2: "subviewInBounds (vsizes v2) [0, 0] s2 [1, 1]"
    using ax b nn reach other(2)
    by (auto simp: subviewInBounds_def s2_def c1_def mm sz1 sz2)
  have inbd1: "subviewInBounds shp [0, 0] s1 [1, 1]"
    using ax b nn(1)
    by (auto simp: subviewInBounds_def s1_def c1_def mm shp sz1)
  have inbd2: "subviewInBounds shp o2 s2 [1, 1]"
    using ax b nn(1)
    by (auto simp: subviewInBounds_def s2_def o2_def c1_def mm shp sz1)
  have sv1: "eval_m ?ienv src1 =
     Some \<lparr>vsizes = s1, vcell = (\<lambda>idx. vcell v1 (map2 (+) [0, 0] (map2 (*) idx [1, 1])))\<rparr>"
    unfolding src1 by (simp only: eval_m.simps v1 es1) (simp add: inb1)
  have sv2: "eval_m ?ienv src2 =
     Some \<lparr>vsizes = s2, vcell = (\<lambda>idx. vcell v2 (map2 (+) [0, 0] (map2 (*) idx [1, 1])))\<rparr>"
    unfolding src2 by (simp only: eval_m.simps v2 es2) (simp add: inb2)
  have lm2: "length m = 2" by (simp add: mm)
  have l1: "length s1 = 2" and l2: "length s2 = 2" by (simp_all add: s1_def s2_def lm2)
  have s1l: "[s1 ! 0, s1 ! Suc 0] = s1" using list2[OF l1] by auto
  have s2l: "[s2 ! 0, s2 ! Suc 0] = s2" using list2[OF l2] by auto
  have d1: "eval_i ?ienv (DimOp src1 j) = Some (s1 ! j)" if "j < 2" for j
    using that by (simp only: eval_i.simps sv1) (simp add: l1)
  have d2: "eval_i ?ienv (DimOp src2 j) = Some (s2 ! j)" if "j < 2" for j
    using that by (simp only: eval_i.simps sv2) (simp add: l2)
  have c1s: "s1 ! axis = c1" using ax by (auto simp: s1_def mm)
  have dv1: "eval_m ?ienv ?dst1 =
     Some \<lparr>vsizes = s1, vcell = (\<lambda>idx. BufCell (map2 (+) [0, 0] (map2 (*) idx [1, 1])))\<rparr>"
    using inbd1 by (simp add: d1 s1l del: eval_i.simps(8))
  have eo2: "those (map (eval_ofr ?ienv)
               ([Val (ConstantOp 0), Val (ConstantOp 0)][axis := Val (DimOp src1 axis)])) = Some o2"
    using ax d1[of axis] c1s by (auto simp: o2_def simp del: eval_i.simps(8))
  have dv2: "eval_m ?ienv ?dst2 =
     Some \<lparr>vsizes = s2, vcell = (\<lambda>idx. BufCell (map2 (+) o2 (map2 (*) idx [1, 1])))\<rparr>"
    by (simp only: eval_m.simps eo2) (simp add: d2 s2l inbd2 del: eval_i.simps(8))
  have vs1: "validSizes s1" using ax b nn(1) by (auto simp: validSizes_def s1_def c1_def mm sz1)
  have vs2: "validSizes s2" using ax b nn(1) by (auto simp: validSizes_def s2_def c1_def mm sz1)
  have cp1: "\<exists>\<sigma>'. exec env (CopyOp src1 ?dst1) \<sigma>2 = Some \<sigma>'" for \<sigma>2
    by (simp only: exec.simps sv1 dv1) (simp add: copyView_def vs1)
  have cp2: "\<exists>\<sigma>'. exec env (CopyOp src2 ?dst2) \<sigma>2 = Some \<sigma>'" for \<sigma>2
    by (simp only: exec.simps sv2 dv2) (simp add: copyView_def vs2)
  from exec_alloc_fill_defined[OF c vs] obtain \<sigma>2 where
    s2: "execAll env ?pre \<sigma> = Some \<sigma>2" by blast
  from cp1[of \<sigma>2] obtain \<sigma>3 where s3: "exec env (CopyOp src1 ?dst1) \<sigma>2 = Some \<sigma>3" by blast
  from cp2[of \<sigma>3] obtain \<sigma>' where s': "exec env (CopyOp src2 ?dst2) \<sigma>3 = Some \<sigma>'" by blast
  have "execAll env (?pre @ [CopyOp src1 ?dst1, CopyOp src2 ?dst2]) \<sigma> = Some \<sigma>'"
    unfolding execAll_append using s2 s3 s' by (simp del: exec.simps)
  then show ?thesis by (intro exI[of _ \<sigma>']) simp
qed

text \<open>What a mask that fits its source says of the views.\<close>

lemma maskFitsSource_single:
  assumes "maskFitsSource ienv (ReinterpretCastOp pty src off szs strs) m"
  shows "\<exists>v. eval_m ienv (ReinterpretCastOp pty src off szs strs) = Some v \<and>
             list_all2 (\<le>) m (vsizes v)"
  using assms unfolding maskFitsSource_def
  by (cases "eval_m ienv (ReinterpretCastOp pty src off szs strs)") (simp_all del: eval_m.simps)

lemma maskFitsSource_split:
  assumes "maskFitsSource ienv (UnrealizedConversionCastOp [block1, block2] [tag]) m"
      and "tag = WRAP_SIDE_BY_SIDE \<or> tag = WRAP_STACKED"
      and "axis = (if tag = WRAP_SIDE_BY_SIDE then 1 else 0)"
  shows "\<exists>v1 v2. eval_m ienv block1 = Some v1 \<and> eval_m ienv block2 = Some v2 \<and>
           length (vsizes v1) = 2 \<and> length (vsizes v2) = 2 \<and>
           0 \<le> vsizes v1 ! axis \<and> 0 \<le> vsizes v2 ! axis \<and>
           m ! axis \<le> vsizes v1 ! axis + vsizes v2 ! axis \<and>
           m ! (1 - axis) \<le> vsizes v1 ! (1 - axis) \<and> m ! (1 - axis) \<le> vsizes v2 ! (1 - axis)"
  using assms unfolding maskFitsSource_def
  by (cases "eval_m ienv block1"; cases "eval_m ienv block2")
     (auto simp add: Let_def simp del: eval_m.simps)

section \<open>Facts about the examples\<close>

lemma maskedSplitLoad_dims:
  "load_getMixedMaskDims maskedSplitLoad = [Attr 4, Attr 3]"
  by (simp add: load_getMixedMaskDims_def maskedSplitLoad_def kDynamic_def)

lemma view4x4_view:
  "eval_m (indexArgs exampleEnv) view4x4 =
     Some \<lparr>vsizes = [4, 4], vcell = (\<lambda>idx. MemCell 0 (linearize 0 [4, 1] idx))\<rparr>"
  by (simp add: view4x4_def exampleEnv_def)

lemma view4x4_inj:
  "inj_on (\<lambda>idx. MemCell 0 (linearize 0 [4, 1] idx)) (set (box [4, 4]))"
proof (rule inj_onI)
  fix p q
  assume p: "p \<in> set (box [4, 4])" and q: "q \<in> set (box [4, 4])"
    and eq: "MemCell 0 (linearize 0 [4, 1] p) = MemCell 0 (linearize 0 [4, 1] q)"
  from p obtain i j where pi: "p = [i, j]" "0 \<le> i" "i < 4" "0 \<le> j" "j < 4"
    unfolding box2_iff by blast
  from q obtain i' j' where qi: "q = [i', j']" "0 \<le> i'" "i' < 4" "0 \<le> j'" "j' < 4"
    unfolding box2_iff by blast
  from eq have "4 * i + j = 4 * i' + j'" by (simp add: linearize_def pi qi)
  with pi qi have "i = i' \<and> j = j'" by arith
  then show "p = q" by (simp add: pi qi)
qed

lemma maskedSplitLoad_runs:
  "(case LoadConverter_matchAndRewrite maskedSplitLoad emptyRewriter of
      Inr (rw', r) \<Rightarrow>
        (case execAll exampleEnv (createdOps rw') exampleMemory of
           Some \<sigma>' \<Rightarrow> True | None \<Rightarrow> False)
    | Inl a \<Rightarrow> False)"
  by code_simp

lemma maskedViewLoad_runs:
  "(case LoadConverter_matchAndRewrite maskedViewLoad emptyRewriter of
      Inr (rw', r) \<Rightarrow>
        (case execAll exampleEnv (createdOps rw') exampleMemory of
           Some \<sigma>' \<Rightarrow> True | None \<Rightarrow> False)
    | Inl a \<Rightarrow> False)"
  by code_simp

lemma maskedStackedLoad_runs:
  "(case LoadConverter_matchAndRewrite maskedStackedLoad emptyRewriter of
      Inr (rw', r) \<Rightarrow>
        (case execAll exampleEnv (createdOps rw') exampleMemory of
           Some \<sigma>' \<Rightarrow> True | None \<Rightarrow> False)
    | Inl a \<Rightarrow> False)"
  by code_simp

text \<open>
  On the descriptor that reaches the bound the two views are rows 4 and 5 and rows 0 and
  1, and their cells are the addressed region, in order.
\<close>

lemma stackedWrapOp_covers:
  "(case createStackedCastOps stackedWrapOp of
      Inr (cast1, cast2) \<Rightarrow>
        (case (eval_m (\<lambda>n. 24) cast1, eval_m (\<lambda>n. 24) cast2) of
           (Some v1, Some v2) \<Rightarrow>
             vsizes v1 = [2, 4] \<and> vsizes v2 = [2, 4] \<and>
             viewCells v1 @ viewCells v2 = stackedRegion 0 16 24 4 1 4 4
         | _ \<Rightarrow> False)
    | Inl a \<Rightarrow> False)"
  by code_simp

text \<open>The three masked loads: their valid extents fit, and where their elements come from.\<close>

lemma maskedViewLoad_dims:
  "load_getMixedMaskDims maskedViewLoad = [Attr 2, Attr 3]"
  by (simp add: load_getMixedMaskDims_def maskedViewLoad_def kDynamic_def)

lemma maskedStackedLoad_dims:
  "load_getMixedMaskDims maskedStackedLoad = [Attr 3, Attr 4]"
  by (simp add: load_getMixedMaskDims_def maskedStackedLoad_def kDynamic_def)

lemma maskedViewLoad_fits:
  "maskFitsSource (indexArgs exampleEnv) (load_getPtr maskedViewLoad) [2, 3]"
  by (simp add: maskFitsSource_def maskedViewLoad_def view4x4_def)

lemma maskedSplitLoad_fits:
  "maskFitsSource (indexArgs exampleEnv) (load_getPtr maskedSplitLoad) [4, 3]"
  by (simp add: maskFitsSource_def maskedSplitLoad_def chunk1_def chunk2_def)

lemma maskedStackedLoad_fits:
  "maskFitsSource (indexArgs exampleEnv) (load_getPtr maskedStackedLoad) [3, 4]"
  using wrap_tags_differ
  by (simp add: maskFitsSource_def maskedStackedLoad_def rows1_def rows2_def)

lemma maskedViewLoad_source:
  "sourceCell (indexArgs exampleEnv) (load_getPtr maskedViewLoad) [2, 3] [i, j] =
     Some (MemCell 0 (4 * i + j))"
  by (simp add: sourceCell_def maskedViewLoad_def view4x4_def linearize_def)

lemma maskedSplitLoad_source:
  "sourceCell (indexArgs exampleEnv) (load_getPtr maskedSplitLoad) [4, 3] [i, j] =
     Some (if j < 2 then MemCell 0 (6 + (8 * i + j)) else MemCell 0 (8 * i + (j - 2)))"
  by (simp add: sourceCell_def maskedSplitLoad_def chunk1_def chunk2_def linearize_def Let_def)

lemma maskedStackedLoad_source:
  "sourceCell (indexArgs exampleEnv) (load_getPtr maskedStackedLoad) [3, 4] [i, j] =
     Some (if i < 2 then MemCell 0 (16 + (4 * i + j)) else MemCell 0 (4 * (i - 2) + j))"
  using wrap_tags_differ
  by (simp add: sourceCell_def maskedStackedLoad_def rows1_def rows2_def linearize_def Let_def)

section \<open>The two split variants in general\<close>

text \<open>
  What the stacked path computes on any descriptor: the formulas of the drawing, with the
  number of rows of the first cast not compared with the rows requested.
\<close>

lemma stacked_chunks:
  assumes ord: "sorted_wrt (>) (getOrder op)"
      and kind: "\<not> isBlockPtr op" "\<not> isStructuredPtr op" "isSplitPtr op"
      and ty: "getType op = RankedTensorType [s0, s1] (PointerType e)"
      and stacked: "getStaticShape op = [kDynamic, 0]"
      and modRow: "getShape op = modRowValue # others"
      and sizes: "getSizes op = [rowSize, colSize]"
      and strs: "getMixedStrides op = [stride0, stride1]"
      and offs: "eval_ofrs env (getMixedOffsets op) = Some offs"
      and M: "eval_i env modRowValue = Some modRow"
      and S: "eval_ofr env stride0 = Some strideRow" "strideRow \<noteq> 0"
             "eval_ofr env stride1 = Some strideCol"
      and t: "targetOffset = sum_list offs"
      and w: "wrapped = targetOffset smod strideRow"
      and d1: "d1 = (modRow + wrapped - targetOffset) sdiv strideRow"
  shows "\<exists>cast1 cast2.
     MakeTensorPtrConverter_matchAndRewrite op rw =
       Inr (rw\<lparr>replaced := Some (ReplaceWithMemref
              (UnrealizedConversionCastOp [cast1, cast2] [WRAP_STACKED]))\<rparr>, success) \<and>
     castOperands env cast1 =
       Some (getBase op, targetOffset, [d1, colSize], [strideRow, strideCol]) \<and>
     castOperands env cast2 =
       Some (getBase op, wrapped, [rowSize - d1, colSize], [strideRow, strideCol])"
proof -
  have srt: "is_sorted_greater (getOrder op)"
    using ord by (rule sorted_wrt_greater_is_sorted)
  have ty': "getType op = (if isBlockPtr op then PointerType (RankedTensorType [s0, s1] e)
                         else RankedTensorType [s0, s1] (PointerType e))"
    using ty kind by simp
  let ?tv = "ofrToIndexValue (accumulateTargetOffset op)"
  have tv: "eval_i env ?tv = Some targetOffset"
    using eval_accumulateTargetOffset[OF offs] by (simp add: eval_ofrToIndexValue t)
  let ?ty = "\<lparr>mrShape = [kDynamic, kDynamic], mrElementType = e,
              mrLayout = Some \<lparr>layoutOffset = kDynamic,
                                layoutStrides = [kDynamic, kDynamic]\<rparr>\<rparr>"
  let ?sr = "ofrToIndexValue stride0"
  let ?sc = "ofrToIndexValue stride1"
  let ?w = "RemSIOp ?tv ?sr"
  let ?d1 = "DivSIOp (SubIOp (AddIOp modRowValue ?w) ?tv) ?sr"
  define cast1 where "cast1 = ReinterpretCastOp ?ty (getBase op) (Val ?tv)
            [Val ?d1, Val (ConstantOp colSize)] [Val ?sr, Val ?sc]"
  define cast2 where "cast2 = ReinterpretCastOp ?ty (getBase op) (Val ?w)
            [Val (SubIOp (ConstantOp rowSize) ?d1), Val (ConstantOp colSize)] [Val ?sr, Val ?sc]"
  have c: "createStackedCastOps op = Inr (cast1, cast2)"
    by (simp add: createStackedCastOps_def tensorShape_def ty getResultMemrefType_ok[OF ty']
        sizes strs modRow at_def Let_def cast1_def cast2_def numeral_2_eq_2)
  have es: "eval_i env ?sr = Some strideRow" "eval_i env ?sc = Some strideCol"
    using S by (simp_all add: eval_ofrToIndexValue)
  have ew: "eval_i env ?w = Some wrapped"
    using tv es S(2) by (simp add: w)
  have ed1: "eval_i env ?d1 = Some d1"
    using ew tv es M S(2) by (simp add: d1)
  have c1: "castOperands env cast1 =
       Some (getBase op, targetOffset, [d1, colSize], [strideRow, strideCol])"
    using tv ed1 es by (simp add: cast1_def eval_ofrs_def)
  have c2: "castOperands env cast2 =
       Some (getBase op, wrapped, [rowSize - d1, colSize], [strideRow, strideCol])"
    using ew ed1 es by (simp add: cast2_def eval_ofrs_def)
  have "MakeTensorPtrConverter_matchAndRewrite op rw =
       Inr (rw\<lparr>replaced := Some (ReplaceWithMemref
              (UnrealizedConversionCastOp [cast1, cast2] [WRAP_STACKED]))\<rparr>, success)"
    using srt kind c
    by (simp add: MakeTensorPtrConverter_matchAndRewrite_def rewriteSplitPtr_def stacked at_def)
  with c1 c2 show ?thesis by blast
qed

text \<open>
  The side-by-side split covers the addressed row: with a positive modulus, a
  non-negative offset, unit column stride and at most \<open>N\<close> columns requested, column \<open>j\<close>
  of the request is column \<open>j\<close> of the first view while \<open>j < d1\<close> and column \<open>j - d1\<close> of
  the second view after that, and in both cases it lies at column \<open>(x + j) mod N\<close> of the
  row period that starts at \<open>y = targetOffset - x\<close>; the widths are not negative.
\<close>

lemma lin2: "linearize off [s, 1] [i, j] = off + i * s + j"
  by (simp add: linearize_def)

lemma sideBySide_views_cover:
  assumes N: "0 < N" and t: "0 \<le> targetOffset"
      and c: "0 \<le> colSize" "colSize \<le> N" and j: "0 \<le> j" "j < colSize"
      and x: "x = targetOffset smod N"
      and d1: "d1 = min (x + colSize) N - x"
  shows "0 \<le> d1 \<and> 0 \<le> colSize - d1 \<and>
         (if j < d1 then linearize targetOffset [strideRow, 1] [i, j]
          else linearize (targetOffset - x) [strideRow, 1] [i, j - d1]) =
           (targetOffset - x) + i * strideRow + (x + j) mod N"
proof -
  have xm: "x = targetOffset mod N" using x smod_nonneg[OF t N] by simp
  have xb: "0 \<le> x" "x < N" unfolding xm using N by simp_all
  have dn: "0 \<le> d1" "d1 \<le> colSize" using xb c unfolding d1 by linarith+
  have cell: "(if j < d1 then targetOffset + i * strideRow + j
          else targetOffset - x + i * strideRow + (j - d1)) =
           (targetOffset - x) + i * strideRow + (x + j) mod N"
  proof (cases "j < d1")
    case True
    then have "x + j < N" unfolding d1 by linarith
    then have "(x + j) mod N = x + j" using xb j by (intro mod_pos_pos_trivial) linarith+
    then show ?thesis using True by simp
  next
    case False
    then have d: "d1 = N - x" using j unfolding d1 by linarith
    have lo: "N \<le> x + j" using False d by linarith
    have hi: "x + j - N < N" using xb j c by linarith
    have "(x + j) mod N = (x + j - N) mod N" using N lo by (rule mod_pos_geq)
    also have "\<dots> = x + j - N" using lo hi by (intro mod_pos_pos_trivial) linarith+
    finally have "(x + j) mod N = x + j - N" .
    then show ?thesis using False d by simp
  qed
  show ?thesis unfolding lin2 using dn cell by simp
qed

section \<open>The Pointer Materializer\<close>

text \<open>
  Claim C2. For a Block or Structured descriptor whose order is strictly decreasing, the
  rewrite succeeds and replaces the operation by one \<^verbatim>\<open>memref.reinterpret_cast\<close> of the base:
  its offset operand evaluates to the sum of the per-dimension offsets, its sizes are the
  requested sizes, its strides are those of \<open>getMixedStridesForMemref\<close>, which are the
  descriptor's strides except on a dimension of size 1 and stride 0, and the result type
  carries the result shape and the static parts of offset and strides. When every
  per-dimension offset is static, the offset operand is the constant attribute of the sum.
\<close>

theorem nonsplit_view:
  assumes ord: "sorted_wrt (>) (getOrder op)"
      and kind: "isBlockPtr op \<or> isStructuredPtr op"
      and ty: "getType op = (if isBlockPtr op then PointerType (RankedTensorType shp e)
                             else RankedTensorType shp (PointerType e))"
      and offs: "eval_ofrs env (getMixedOffsets op) = Some offs"
      and len: "length (getSizes op) = length (getMixedStrides op)"
  shows "\<exists>ty tgt.
     MakeTensorPtrConverter_matchAndRewrite op rw =
       Inr (rw\<lparr>replaced := Some (ReplaceWithMemref
              (ReinterpretCastOp ty (getBase op) tgt (map Attr (getSizes op))
                 (getMixedStridesForMemref op)))\<rparr>, success) \<and>
     eval_ofr env tgt = Some (sum_list offs) \<and>
     mrShape ty = shp \<and>
     mrLayout ty = Some \<lparr>layoutOffset = (case getIntAttr tgt of Some n \<Rightarrow> n | None \<Rightarrow> kDynamic),
                          layoutStrides = map staticPart (getMixedStridesForMemref op)\<rparr> \<and>
     ((\<forall>o'\<in>set (getMixedOffsets op). getIntAttr o' \<noteq> None) \<longrightarrow> tgt = Attr (sum_list offs)) \<and>
     (\<forall>i<length (getSizes op).
        \<not> (getSizes op ! i = 1 \<and> getIntAttr (getMixedStrides op ! i) = Some 0) \<longrightarrow>
        getMixedStridesForMemref op ! i = getMixedStrides op ! i)"
proof -
  let ?tgt = "accumulateTargetOffset op"
  let ?ty = "\<lparr>mrShape = shp, mrElementType = e,
          mrLayout = Some \<lparr>layoutOffset = (case getIntAttr ?tgt of Some n \<Rightarrow> n | None \<Rightarrow> kDynamic),
                            layoutStrides = map staticPart (getMixedStridesForMemref op)\<rparr>\<rparr>"
  have srt: "is_sorted_greater (getOrder op)"
    using ord by (rule sorted_wrt_greater_is_sorted)
  have rp: "rewritePtr shp b op rw =
       Inr (rw\<lparr>replaced := Some (ReplaceWithMemref
              (ReinterpretCastOp ?ty (getBase op) ?tgt (map Attr (getSizes op))
                 (getMixedStridesForMemref op)))\<rparr>, success)" for b
    by (simp add: rewritePtr_def Let_def dispatchIndexOpFoldResults_def getMixedSizes_def
        getResultMemrefType_ok[OF ty])
  have run: "MakeTensorPtrConverter_matchAndRewrite op rw =
       Inr (rw\<lparr>replaced := Some (ReplaceWithMemref
              (ReinterpretCastOp ?ty (getBase op) ?tgt (map Attr (getSizes op))
                 (getMixedStridesForMemref op)))\<rparr>, success)"
  proof (cases "isBlockPtr op")
    case True
    with ty srt rp[of True] show ?thesis
      by (simp add: MakeTensorPtrConverter_matchAndRewrite_def rewriteBlockPtr_def)
  next
    case False
    with kind have "isStructuredPtr op" by simp
    with False ty srt rp[of False] show ?thesis
      by (simp add: MakeTensorPtrConverter_matchAndRewrite_def rewriteStructuredPtr_def)
  qed
  have ev: "eval_ofr env ?tgt = Some (sum_list offs)"
    using offs by (rule eval_accumulateTargetOffset)
  have st: "(\<forall>o'\<in>set (getMixedOffsets op). getIntAttr o' \<noteq> None) \<longrightarrow> ?tgt = Attr (sum_list offs)"
  proof
    assume "\<forall>o'\<in>set (getMixedOffsets op). getIntAttr o' \<noteq> None"
    then obtain n where n: "?tgt = Attr n"
      unfolding accumulateTargetOffset_def using foldl_addOFRs_static by blast
    with ev show "?tgt = Attr (sum_list offs)" by simp
  qed
  have keep: "\<forall>i<length (getSizes op).
        \<not> (getSizes op ! i = 1 \<and> getIntAttr (getMixedStrides op ! i) = Some 0) \<longrightarrow>
        getMixedStridesForMemref op ! i = getMixedStrides op ! i"
    using getMixedStridesForMemref_nth[OF len] by simp
  show ?thesis
    apply (rule exI[of _ ?ty], rule exI[of _ ?tgt])
    using run ev st keep by simp
qed

text \<open>The case of the spec: offsets \<open>[3, 0]\<close> and strides \<open>[10, 1]\<close> give the static offset 3.\<close>

theorem nonsplit_view_witness:
  "sorted_wrt (>) (getOrder plainOp) \<and> isStructuredPtr plainOp \<and>
   eval_ofrs (\<lambda>_. 0) (getMixedOffsets plainOp) = Some [3, 0] \<and>
   (\<exists>ty. MakeTensorPtrConverter_matchAndRewrite plainOp emptyRewriter =
       Inr (emptyRewriter\<lparr>replaced := Some (ReplaceWithMemref
              (ReinterpretCastOp ty (BaseArg 0) (Attr 3) [Attr 4, Attr 4] [Attr 10, Attr 1]))\<rparr>,
            success) \<and>
      mrShape ty = [4, 4] \<and>
      mrLayout ty = Some \<lparr>layoutOffset = 3, layoutStrides = [10, 1]\<rparr>)"
proof -
  have h1: "sorted_wrt (>) (getOrder plainOp)" by (simp add: plainOp_def)
  have h2: "isBlockPtr plainOp \<or> isStructuredPtr plainOp" by (simp add: plainOp_def)
  have h3: "getType plainOp = (if isBlockPtr plainOp
              then PointerType (RankedTensorType [4, 4] (ElementType ''f32''))
              else RankedTensorType [4, 4] (PointerType (ElementType ''f32'')))"
    by (simp add: plainOp_def)
  have h4: "eval_ofrs (\<lambda>_. 0) (getMixedOffsets plainOp) = Some [3, 0]"
    by (simp add: plainOp_def eval_ofrs_def)
  have h5: "length (getSizes plainOp) = length (getMixedStrides plainOp)"
    by (simp add: plainOp_def)
  have s: "getMixedStridesForMemref plainOp = [Attr 10, Attr 1]"
    by (simp add: getMixedStridesForMemref_def plainOp_def)
  have st: "\<forall>o'\<in>set (getMixedOffsets plainOp). getIntAttr o' \<noteq> None"
    by (simp add: plainOp_def)
  from nonsplit_view[OF h1 h2 h3 h4 h5, of emptyRewriter] st
  obtain ty where
    "MakeTensorPtrConverter_matchAndRewrite plainOp emptyRewriter =
       Inr (emptyRewriter\<lparr>replaced := Some (ReplaceWithMemref
              (ReinterpretCastOp ty (getBase plainOp) (Attr (sum_list [3, 0]))
                 (map Attr (getSizes plainOp)) (getMixedStridesForMemref plainOp)))\<rparr>, success)"
    "mrShape ty = [4, 4]"
    "mrLayout ty = Some \<lparr>layoutOffset = (case getIntAttr (Attr (sum_list [3, 0])) of Some n \<Rightarrow> n | None \<Rightarrow> kDynamic),
                          layoutStrides = map staticPart (getMixedStridesForMemref plainOp)\<rparr>"
    by auto
  then have "MakeTensorPtrConverter_matchAndRewrite plainOp emptyRewriter =
       Inr (emptyRewriter\<lparr>replaced := Some (ReplaceWithMemref
              (ReinterpretCastOp ty (BaseArg 0) (Attr 3) [Attr 4, Attr 4] [Attr 10, Attr 1]))\<rparr>,
            success) \<and>
      mrShape ty = [4, 4] \<and>
      mrLayout ty = Some \<lparr>layoutOffset = 3, layoutStrides = [10, 1]\<rparr>"
    by (simp add: s) (simp add: plainOp_def)
  then show ?thesis using h1 h4 by (auto simp: plainOp_def)
qed

text \<open>
  Claim C5, as the code has it. On a dimension of static size 1 whose stride is the
  constant 0, the stride becomes the product of the sizes of all dimensions after it (the
  inner dimensions, which the loop visits first), provided that product fits the 32-bit
  accumulator. Every other stride is unchanged, a zero stride on a dimension of another
  size included.
\<close>

theorem zero_stride_replaced:
  assumes len: "length (getSizes op) = length (getMixedStrides op)"
      and i: "i < length (getSizes op)"
  shows "length (getMixedStridesForMemref op) = length (getSizes op) \<and>
     (getSizes op ! i = 1 \<and> getIntAttr (getMixedStrides op ! i) = Some 0 \<and>
      - (2 ^ 31) \<le> prod_list (drop (Suc i) (getSizes op)) \<and>
      prod_list (drop (Suc i) (getSizes op)) < 2 ^ 31 \<longrightarrow>
        getMixedStridesForMemref op ! i = Attr (prod_list (drop (Suc i) (getSizes op)))) \<and>
     (\<not> (getSizes op ! i = 1 \<and> getIntAttr (getMixedStrides op ! i) = Some 0) \<longrightarrow>
        getMixedStridesForMemref op ! i = getMixedStrides op ! i)"
proof -
  have "length (getMixedStridesForMemref op) = length (getSizes op)"
    using len by (simp add: getMixedStridesForMemref_def length_stridesLoop)
  then show ?thesis
    using getMixedStridesForMemref_nth[OF len i] toInt32_id by simp
qed

text \<open>Sizes \<open>[4, 1, 8]\<close> with strides \<open>[_, 0, 1]\<close>: the middle stride becomes 8.\<close>

theorem zero_stride_replaced_witness:
  "length (getSizes innerUnitOp) = length (getMixedStrides innerUnitOp) \<and>
   (1::nat) < length (getSizes innerUnitOp) \<and>
   getSizes innerUnitOp ! 1 = 1 \<and> getIntAttr (getMixedStrides innerUnitOp ! 1) = Some 0 \<and>
   prod_list (drop (Suc 1) (getSizes innerUnitOp)) = 8 \<and>
   getMixedStridesForMemref innerUnitOp ! 1 = Attr 8 \<and>
   getMixedStridesForMemref innerUnitOp ! 0 = Val (IndexArg 0)"
proof -
  have len: "length (getSizes innerUnitOp) = length (getMixedStrides innerUnitOp)"
    by (simp add: innerUnitOp_def)
  have i1: "(1::nat) < length (getSizes innerUnitOp)" and i0: "(0::nat) < length (getSizes innerUnitOp)"
    by (simp_all add: innerUnitOp_def)
  have a: "getMixedStridesForMemref innerUnitOp ! 1 = Attr 8"
    using zero_stride_replaced[OF len i1] by (simp add: innerUnitOp_def)
  have b: "getMixedStridesForMemref innerUnitOp ! 0 = Val (IndexArg 0)"
    using zero_stride_replaced[OF len i0] by (simp add: innerUnitOp_def)
  show ?thesis using len i1 a b by (simp add: innerUnitOp_def)
qed

text \<open>
  The last clause of claim C5 does not hold: a view of sizes \<open>[4, 8]\<close> that broadcasts its
  rows with strides \<open>[0, 1]\<close> keeps the literal zero stride, in the operand and in the type.
\<close>

theorem zero_stride_kept_counterexample:
  "MakeTensorPtrConverter_matchAndRewrite broadcastOp emptyRewriter =
     Inr (emptyRewriter\<lparr>replaced := Some (ReplaceWithMemref
       (ReinterpretCastOp
          \<lparr>mrShape = [4, 8], mrElementType = ElementType ''f32'',
           mrLayout = Some \<lparr>layoutOffset = 0, layoutStrides = [0, 1]\<rparr>\<rparr>
          (BaseArg 0) (Attr 0) [Attr 4, Attr 8] [Attr 0, Attr 1]))\<rparr>, success)"
  by (simp add: MakeTensorPtrConverter_matchAndRewrite_def broadcastOp_def rewriteStructuredPtr_def
      rewritePtr_def getMixedStridesForMemref_def dispatchIndexOpFoldResults_def
      accumulateTargetOffset_def getResultMemrefType_def getElementTypeStructuredPtr_def
      getMixedSizes_def toInt32_def)

text \<open>
  Claim C3. For a side-by-side split descriptor of two dimensions, with wrap modulus \<open>N\<close>,
  accumulated offset \<open>targetOffset\<close> and sizes \<open>rowSize\<close>, \<open>colSize\<close>, the rewrite builds two
  casts of the base, tagged \<open>wrap_side_by_side\<close>. With \<open>x\<close> the signed remainder of
  \<open>targetOffset\<close> by \<open>N\<close> (which is \<open>targetOffset mod N\<close> on a non-negative offset and a positive
  modulus), the first starts at \<open>targetOffset\<close> and is \<open>d1 = min (x + colSize) N - x\<close> wide,
  the second starts at \<open>y = targetOffset - x\<close> and is \<open>colSize - d1\<close> wide; both have \<open>rowSize\<close>
  rows and the strides of the descriptor.
\<close>

theorem sideBySide_chunks:
  assumes ord: "sorted_wrt (>) (getOrder op)"
      and kind: "\<not> isBlockPtr op" "\<not> isStructuredPtr op" "isSplitPtr op"
      and ty: "getType op = RankedTensorType shp (PointerType e)"
      and side: "at (getStaticShape op) 0 = Inr 0"
      and modN: "at (getMixedShape op) 1 = Inr modN"
      and sizes: "getSizes op = [rowSize, colSize]"
      and offs: "eval_ofrs env (getMixedOffsets op) = Some offs"
      and N: "eval_ofr env modN = Some N" "N \<noteq> 0"
      and strs: "eval_ofrs env (getMixedStrides op) = Some strides"
      and t: "targetOffset = sum_list offs"
      and x: "x = targetOffset smod N"
      and d1: "d1 = min (x + colSize) N - x"
  shows "\<exists>cast1 cast2.
     MakeTensorPtrConverter_matchAndRewrite op rw =
       Inr (rw\<lparr>replaced := Some (ReplaceWithMemref
              (UnrealizedConversionCastOp [cast1, cast2] [WRAP_SIDE_BY_SIDE]))\<rparr>, success) \<and>
     castOperands env cast1 = Some (getBase op, targetOffset, [rowSize, d1], strides) \<and>
     castOperands env cast2 = Some (getBase op, targetOffset - x, [rowSize, colSize - d1], strides) \<and>
     (0 \<le> targetOffset \<and> 0 < N \<longrightarrow> x = targetOffset mod N)"
proof -
  have srt: "is_sorted_greater (getOrder op)"
    using ord by (rule sorted_wrt_greater_is_sorted)
  have ty': "getType op = (if isBlockPtr op then PointerType (RankedTensorType shp e)
                         else RankedTensorType shp (PointerType e))"
    using ty kind by simp
  let ?tv = "ofrToIndexValue (accumulateTargetOffset op)"
  have tv: "eval_i env ?tv = Some targetOffset"
    using eval_accumulateTargetOffset[OF offs] by (simp add: eval_ofrToIndexValue t)
  have mv: "eval_i env (ofrToIndexValue modN) = Some N"
    using N by (simp add: eval_ofrToIndexValue)
  let ?ty = "\<lparr>mrShape = [kDynamic, kDynamic], mrElementType = e,
              mrLayout = Some \<lparr>layoutOffset = kDynamic,
                                layoutStrides = replicate (length shp) kDynamic\<rparr>\<rparr>"
  let ?x = "RemSIOp ?tv (ofrToIndexValue modN)"
  let ?d1 = "SubIOp (MinSIOp (AddIOp ?x (ConstantOp colSize)) (ofrToIndexValue modN)) ?x"
  let ?strs = "map Val (ofrsToIndexValues (getMixedStrides op))"
  define cast1 where "cast1 = ReinterpretCastOp ?ty (getBase op) (Val ?tv)
            [Val (ConstantOp rowSize), Val ?d1] ?strs"
  define cast2 where "cast2 = ReinterpretCastOp ?ty (getBase op) (Val (SubIOp ?tv ?x))
            [Val (ConstantOp rowSize), Val (SubIOp (ConstantOp colSize) ?d1)] ?strs"
  have c: "createSideBySideCastOps op = Inr (cast1, cast2)"
    using modN
    by (simp add: createSideBySideCastOps_def tensorShape_def ty getResultMemrefType_ok[OF ty']
        sizes at_def Let_def cast1_def cast2_def)
  have ex: "eval_i env ?x = Some x"
    using tv mv N(2) by (simp add: x)
  have ed1: "eval_i env ?d1 = Some d1"
    using ex mv by (simp add: d1)
  have c1: "castOperands env cast1 = Some (getBase op, targetOffset, [rowSize, d1], strides)"
    using tv ed1 strs
    by (simp add: cast1_def eval_ofrs_map_Val_ofrToIndexValue) (simp add: eval_ofrs_def)
  have c2: "castOperands env cast2 = Some (getBase op, targetOffset - x, [rowSize, colSize - d1], strides)"
    using tv ex ed1 strs
    by (simp add: cast2_def eval_ofrs_map_Val_ofrToIndexValue) (simp add: eval_ofrs_def)
  have "MakeTensorPtrConverter_matchAndRewrite op rw =
       Inr (rw\<lparr>replaced := Some (ReplaceWithMemref
              (UnrealizedConversionCastOp [cast1, cast2] [WRAP_SIDE_BY_SIDE]))\<rparr>, success)"
    using srt kind side c
    by (simp add: MakeTensorPtrConverter_matchAndRewrite_def rewriteSplitPtr_def kDynamic_def)
  with c1 c2 show ?thesis using smod_nonneg x by blast
qed

text \<open>\<open>N = 10\<close>, \<open>targetOffset = 7\<close>, \<open>colSize = 6\<close>: widths 3 and 3, from offsets 7 and 0.\<close>

theorem sideBySide_chunks_witness:
  "sorted_wrt (>) (getOrder sideBySideOp) \<and> isSplitPtr sideBySideOp \<and>
   at (getMixedShape sideBySideOp) 1 = Inr (Attr 10) \<and>
   (\<exists>cast1 cast2.
     MakeTensorPtrConverter_matchAndRewrite sideBySideOp emptyRewriter =
       Inr (emptyRewriter\<lparr>replaced := Some (ReplaceWithMemref
              (UnrealizedConversionCastOp [cast1, cast2] [WRAP_SIDE_BY_SIDE]))\<rparr>, success) \<and>
     castOperands (\<lambda>_. 0) cast1 = Some (BaseArg 0, 7, [4, 3], [10, 1]) \<and>
     castOperands (\<lambda>_. 0) cast2 = Some (BaseArg 0, 0, [4, 3], [10, 1]))"
proof -
  have h1: "sorted_wrt (>) (getOrder sideBySideOp)" by (simp add: sideBySideOp_def)
  have h2: "\<not> isBlockPtr sideBySideOp" "\<not> isStructuredPtr sideBySideOp" "isSplitPtr sideBySideOp"
    by (simp_all add: sideBySideOp_def)
  have h3: "getType sideBySideOp = RankedTensorType [4, 6] (PointerType (ElementType ''f32''))"
    by (simp add: sideBySideOp_def)
  have h4: "at (getStaticShape sideBySideOp) 0 = Inr 0" by (simp add: sideBySideOp_def at_def)
  have h5: "at (getMixedShape sideBySideOp) 1 = Inr (Attr 10)"
    by (simp add: sideBySideOp_def at_def getMixedShape_def kDynamic_def)
  have h6: "getSizes sideBySideOp = [4, 6]" by (simp add: sideBySideOp_def)
  have h7: "eval_ofrs (\<lambda>_. 0) (getMixedOffsets sideBySideOp) = Some [0, 7]"
    by (simp add: sideBySideOp_def eval_ofrs_def)
  have h8: "eval_ofr (\<lambda>_. 0) (Attr 10) = Some 10" "(10::int) \<noteq> 0" by simp_all
  have h9: "eval_ofrs (\<lambda>_. 0) (getMixedStrides sideBySideOp) = Some [10, 1]"
    by (simp add: sideBySideOp_def eval_ofrs_def)
  have x: "(7::int) smod 10 = 7" by (simp add: signed_modulo_int_def)
  have a: "(7::int) = sum_list [0, 7]" "(7::int) = 7 smod 10" "(3::int) = min (7 + 6) 10 - 7"
    by (simp_all add: x)
  from sideBySide_chunks[OF h1 h2 h3 h4 h5 h6 h7 h8 h9 a(1) a(2) a(3), of emptyRewriter]
  show ?thesis using h1 h2 h5 by (simp add: sideBySideOp_def)
qed

text \<open>
  Claim C4 on a stacked descriptor that does not reach the bound: 6 rows of stride 4
  (\<open>modRow = 24\<close>), 2 rows of 4 requested from row 2 (\<open>targetOffset = 8\<close>). The number of rows
  of the first cast is \<open>(24 + 0 - 8) / 4 = 4\<close>, not clamped at the 2 rows requested, and the
  second cast has \<open>2 - 4 = -2\<close> rows.
\<close>

theorem stacked_rows_not_clamped:
  "\<exists>cast1 cast2.
     MakeTensorPtrConverter_matchAndRewrite stackedNoWrapOp emptyRewriter =
       Inr (emptyRewriter\<lparr>replaced := Some (ReplaceWithMemref
              (UnrealizedConversionCastOp [cast1, cast2] [WRAP_STACKED]))\<rparr>, success) \<and>
     castOperands (\<lambda>_. 24) cast1 = Some (BaseArg 0, 8, [4, 4], [4, 1]) \<and>
     castOperands (\<lambda>_. 24) cast2 = Some (BaseArg 0, 0, [- 2, 4], [4, 1])"
proof -
  have r: "(8::int) smod 4 = 0" "(16::int) sdiv 4 = 4"
    by (simp_all add: signed_modulo_int_def signed_divide_int_def)
  have m: "MakeTensorPtrConverter_matchAndRewrite stackedNoWrapOp emptyRewriter =
       (case createStackedCastOps stackedNoWrapOp of Inl a \<Rightarrow> Inl a
        | Inr (cast1, cast2) \<Rightarrow> Inr (emptyRewriter\<lparr>replaced := Some (ReplaceWithMemref
              (UnrealizedConversionCastOp [cast1, cast2] [WRAP_STACKED]))\<rparr>, success))"
    by (simp add: MakeTensorPtrConverter_matchAndRewrite_def rewriteSplitPtr_def at_def
        stackedNoWrapOp_def)
  show ?thesis
    unfolding m stackedNoWrapOp_casts
    apply (simp only: sum.case prod.case)
    apply (intro exI conjI)
      apply (rule refl)
     apply (simp add: eval_ofrs_def r)
    apply (simp add: eval_ofrs_def r)
    done
qed

text \<open>
  Claim C1 on the same descriptor. The two casts have sizes \<open>[4, 4]\<close> and \<open>[-2, 4]\<close>: the
  sizes along the wrapping axis sum to the 2 rows requested and the sizes along the other
  axis are the 4 columns requested, but the first view aliases 16 cells and the second has
  a negative extent, while the region the descriptor addresses has 8 cells. The views do
  not cover it exactly: the first one reaches cell 23, which is outside the region.
\<close>

theorem stacked_views_overshoot:
  "\<exists>cast1 cast2 v1 v2.
     MakeTensorPtrConverter_matchAndRewrite stackedNoWrapOp emptyRewriter =
       Inr (emptyRewriter\<lparr>replaced := Some (ReplaceWithMemref
              (UnrealizedConversionCastOp [cast1, cast2] [WRAP_STACKED]))\<rparr>, success) \<and>
     eval_m (\<lambda>n. 24) cast1 = Some v1 \<and> eval_m (\<lambda>n. 24) cast2 = Some v2 \<and>
     vsizes v1 = [4, 4] \<and> vsizes v2 = [- 2, 4] \<and>
     length (viewCells v1 @ viewCells v2) = 16 \<and>
     length (stackedRegion 0 8 24 4 1 2 4) = 8 \<and>
     set (viewCells v1 @ viewCells v2) \<noteq> set (stackedRegion 0 8 24 4 1 2 4)"
proof -
  have r: "(8::int) smod 4 = 0" "(16::int) sdiv 4 = 4"
    by (simp_all add: signed_modulo_int_def signed_divide_int_def)
  have m: "MakeTensorPtrConverter_matchAndRewrite stackedNoWrapOp emptyRewriter =
       (case createStackedCastOps stackedNoWrapOp of Inl a \<Rightarrow> Inl a
        | Inr (cast1, cast2) \<Rightarrow> Inr (emptyRewriter\<lparr>replaced := Some (ReplaceWithMemref
              (UnrealizedConversionCastOp [cast1, cast2] [WRAP_STACKED]))\<rparr>, success))"
    by (simp add: MakeTensorPtrConverter_matchAndRewrite_def rewriteSplitPtr_def at_def
        stackedNoWrapOp_def)
  define v1 where "v1 = \<lparr>vsizes = [4, 4], vcell = (\<lambda>idx. MemCell 0 (linearize 8 [4, 1] idx))\<rparr>"
  define v2 where "v2 = \<lparr>vsizes = [- 2, 4], vcell = (\<lambda>idx. MemCell 0 (linearize 0 [4, 1] idx))\<rparr>"
  obtain cast1 cast2 where c: "createStackedCastOps stackedNoWrapOp = Inr (cast1, cast2)"
    and e1: "eval_m (\<lambda>n. 24) cast1 = Some v1" and e2: "eval_m (\<lambda>n. 24) cast2 = Some v2"
    using stackedNoWrapOp_casts by (simp add: r v1_def v2_def)
  have b1: "length (box [4, 4]) = 16" by code_simp
  have b2: "box [- 2, 4] = []" by code_simp
  have b3: "length (stackedRegion 0 8 24 4 1 2 4) = 8" by code_simp
  have b4: "MemCell 0 23 \<notin> set (stackedRegion 0 8 24 4 1 2 4)" by code_simp
  have b5: "[3, 3] \<in> set (box [4, 4])" by (simp add: box2_mem)
  have len: "length (viewCells v1 @ viewCells v2) = 16"
    by (simp add: viewCells_def v1_def v2_def b1 b2)
  have "vcell v1 [3, 3] \<in> set (viewCells v1)"
    unfolding viewCells_def using b5 by (simp add: v1_def)
  then have "MemCell 0 23 \<in> set (viewCells v1 @ viewCells v2)"
    by (simp add: v1_def linearize_def)
  with b4 have ne: "set (viewCells v1 @ viewCells v2) \<noteq> set (stackedRegion 0 8 24 4 1 2 4)"
    by metis
  have run: "MakeTensorPtrConverter_matchAndRewrite stackedNoWrapOp emptyRewriter =
       Inr (emptyRewriter\<lparr>replaced := Some (ReplaceWithMemref
              (UnrealizedConversionCastOp [cast1, cast2] [WRAP_STACKED]))\<rparr>, success)"
    by (simp add: m c)
  have sz: "vsizes v1 = [4, 4]" "vsizes v2 = [- 2, 4]" by (simp_all add: v1_def v2_def)
  from run e1 e2 sz len b3 ne show ?thesis by blast
qed

text \<open>
  Claim C9. When the order is a permutation that is not strictly decreasing, the rewrite
  emits the diagnostic at the location of the operation, returns failure and leaves
  everything else of the rewriter as it was: the operation is not replaced. A run of the
  driver over operations that include such an operation reports failure, while every
  operation has been given to the pattern and has the result the pattern gives it.
\<close>

theorem unsorted_order_fails:
  assumes perm: "distinct (getOrder op)"
      and bad: "\<not> sorted_wrt (>) (getOrder op)"
  shows "MakeTensorPtrConverter_matchAndRewrite op rw =
           Inr (rw\<lparr>diagnostics := diagnostics rw @ [(getLoc op, orderDiagnostic)]\<rparr>, failure) \<and>
         (\<forall>ops rs overall.
            op \<in> set ops \<and> runOnOperations ops = Inr (rs, overall) \<longrightarrow>
            overall = failure \<and>
            map (\<lambda>op. MakeTensorPtrConverter_matchAndRewrite op emptyRewriter) ops = map Inr rs)"
proof -
  have ns: "\<not> is_sorted_greater (getOrder op)"
    using perm bad is_sorted_greater_distinct by blast
  then have one: "MakeTensorPtrConverter_matchAndRewrite op rw =
           Inr (rw\<lparr>diagnostics := diagnostics rw @ [(getLoc op, orderDiagnostic)]\<rparr>, failure)"
    for rw
    by (simp add: MakeTensorPtrConverter_matchAndRewrite_def emitError_def)
  have two: "overall = failure \<and>
           map (\<lambda>op. MakeTensorPtrConverter_matchAndRewrite op emptyRewriter) ops = map Inr rs"
    if mem: "op \<in> set ops" and run: "runOnOperations ops = Inr (rs, overall)"
    for ops rs overall
  proof -
    from runOnOperations_results[OF run]
    have m: "map (\<lambda>op. MakeTensorPtrConverter_matchAndRewrite op emptyRewriter) ops = map Inr rs"
      and o: "overall = failure \<longleftrightarrow> (\<exists>r\<in>set rs. snd r = failure)" by auto
    from mem have "MakeTensorPtrConverter_matchAndRewrite op emptyRewriter
        \<in> set (map (\<lambda>op. MakeTensorPtrConverter_matchAndRewrite op emptyRewriter) ops)" by auto
    with m one[of emptyRewriter] obtain r where "r \<in> set rs" "snd r = failure"
      by (metis (no_types, lifting) imageE list.set_map snd_conv sum.inject(2))
    with o m show ?thesis by blast
  qed
  from one two show ?thesis by blast
qed

theorem unsorted_order_fails_witness:
  "distinct (getOrder permutedOrderOp) \<and> \<not> sorted_wrt (>) (getOrder permutedOrderOp) \<and>
   MakeTensorPtrConverter_matchAndRewrite permutedOrderOp emptyRewriter =
     Inr (emptyRewriter\<lparr>diagnostics := [(''loc(a.mlir:3:5)'', orderDiagnostic)]\<rparr>, failure) \<and>
   permutedOrderOp \<in> set [permutedOrderOp, plainOp] \<and>
   (\<exists>rs overall. runOnOperations [permutedOrderOp, plainOp] = Inr (rs, overall) \<and>
         overall = failure \<and> map snd rs = [failure, success])"
proof -
  have p: "distinct (getOrder permutedOrderOp)" "\<not> sorted_wrt (>) (getOrder permutedOrderOp)"
    by (simp_all add: permutedOrderOp_def)
  note inst = unsorted_order_fails[OF p, of emptyRewriter]
  have a: "MakeTensorPtrConverter_matchAndRewrite permutedOrderOp emptyRewriter =
     Inr (emptyRewriter\<lparr>diagnostics := [(''loc(a.mlir:3:5)'', orderDiagnostic)]\<rparr>, failure)"
    using inst[THEN conjunct1]
    by (simp add: emptyRewriter_def permutedOrderOp_def)
  let ?rs = "[(emptyRewriter\<lparr>diagnostics := [(''loc(a.mlir:3:5)'', orderDiagnostic)]\<rparr>, failure),
            (emptyRewriter\<lparr>replaced := Some (ReplaceWithMemref
       (ReinterpretCastOp
          \<lparr>mrShape = [4, 4], mrElementType = ElementType ''f32'',
           mrLayout = Some \<lparr>layoutOffset = 3, layoutStrides = [10, 1]\<rparr>\<rparr>
          (BaseArg 0) (Attr 3) [Attr 4, Attr 4] [Attr 10, Attr 1]))\<rparr>, success)]"
  have b: "runOnOperations [permutedOrderOp, plainOp] = Inr (?rs, failure)"
    by (simp add: a plainOp_result)
  have mem: "permutedOrderOp \<in> set [permutedOrderOp, plainOp]" by simp
  from inst[THEN conjunct2] mem b have "failure = failure \<and>
      map (\<lambda>op. MakeTensorPtrConverter_matchAndRewrite op emptyRewriter) [permutedOrderOp, plainOp]
        = map Inr ?rs"
    by blast
  with p a b mem show ?thesis by simp
qed

text \<open>
  Claim C10. When the order is strictly decreasing and the operation is none of block
  pointer, structured pointer and split pointer, the rewrite returns failure with the
  rewriter unchanged: no diagnostic is added and the operation is not replaced.
\<close>

theorem unknown_kind_fails:
  assumes "sorted_wrt (>) (getOrder op)"
      and "\<not> isBlockPtr op" and "\<not> isStructuredPtr op" and "\<not> isSplitPtr op"
  shows "MakeTensorPtrConverter_matchAndRewrite op rw = Inr (rw, failure)"
  using assms sorted_wrt_greater_is_sorted[of "getOrder op"]
  by (simp add: MakeTensorPtrConverter_matchAndRewrite_def)

theorem unknown_kind_fails_witness:
  "sorted_wrt (>) (getOrder unknownKindOp) \<and> \<not> isBlockPtr unknownKindOp \<and>
   \<not> isStructuredPtr unknownKindOp \<and> \<not> isSplitPtr unknownKindOp \<and>
   MakeTensorPtrConverter_matchAndRewrite unknownKindOp emptyRewriter = Inr (emptyRewriter, failure) \<and>
   diagnostics emptyRewriter = [] \<and> replaced emptyRewriter = None"
proof -
  have h: "sorted_wrt (>) (getOrder unknownKindOp)" "\<not> isBlockPtr unknownKindOp"
    "\<not> isStructuredPtr unknownKindOp" "\<not> isSplitPtr unknownKindOp"
    by (simp_all add: unknownKindOp_def plainOp_def)
  from unknown_kind_fails[OF h, of emptyRewriter] h show ?thesis
    by (simp add: emptyRewriter_def)
qed

section \<open>The Load Lowerer and the Store Lowerer\<close>

text \<open>
  Claim C6. A masked load with a fill value, through a single view or a split pair of
  casts of a base, is lowered to the allocation of the destination, then a conditional
  whose only operation fills the whole destination with the fill value, then nothing but
  copies. The condition evaluates to the disjunction, over the dimensions, of
  \<open>valid extent < full extent\<close>, so the conditional fills the destination if and only if
  that disjunction holds. Whenever the created operations run without undefined
  behaviour, every element of the destination inside the mask region holds the
  corresponding source element and every element outside it holds the fill value. And
  they do run: with the valid extents between 0 and the shape of the load and within the
  extents of the source (of the single view, of the two chunks of a side-by-side or of a
  stacked pair), the created operations run from every memory and leave the destination
  as said.
\<close>

theorem masked_load_fill:
  assumes mask: "load_hasMask op"
      and ty: "load_getType op = RankedTensorType shp e"
      and other: "load_getOther op = Some (ScalarArg k)"
      and m: "eval_ofrs (indexArgs env) (load_getMixedMaskDims op) = Some m"
      and len: "length (load_getMixedMaskDims op) = length shp"
      and ptr: "load_getPtr op = ReinterpretCastOp pty (BaseArg b) off szs strs \<or>
                length shp = 2 \<and> (tag = WRAP_SIDE_BY_SIDE \<or> tag = WRAP_STACKED) \<and>
                load_getPtr op = UnrealizedConversionCastOp
                  [ReinterpretCastOp ty1 (BaseArg a1) off1 szs1 strs1,
                   ReinterpretCastOp ty2 (BaseArg a2) off2 szs2 strs2] [tag]"
  shows "\<exists>rw' acc copies.
     LoadConverter_matchAndRewrite op rw = Inr (rw', success) \<and>
     replaced rw' = Some (ReplaceWithTensor (ToTensorOp (AllocOp shp e) True True)) \<and>
     createdOps rw' = createdOps rw @
        [Alloc shp e, IfOp acc [FillOp (ScalarArg k) (AllocOp shp e)]] @ copies \<and>
     (\<forall>c\<in>set copies. \<exists>s d. c = CopyOp s d) \<and>
     eval_b (indexArgs env) acc = Some (\<exists>j<length shp. m ! j < shp ! j) \<and>
     (\<forall>\<sigma>. exec env (IfOp acc [FillOp (ScalarArg k) (AllocOp shp e)]) \<sigma> =
            (if \<exists>j<length shp. m ! j < shp ! j
             then fillView (scalarArgs env k) \<lparr>vsizes = shp, vcell = BufCell\<rparr> \<sigma>
             else Some \<sigma>)) \<and>
     (\<forall>\<sigma> \<sigma>' idx.
        execAll env ([Alloc shp e, IfOp acc [FillOp (ScalarArg k) (AllocOp shp e)]] @ copies) \<sigma>
          = Some \<sigma>' \<and> idx \<in> set (box shp) \<longrightarrow>
        \<sigma>' (BufCell idx) =
          (if insideMask m idx
           then \<sigma> (the (sourceCell (indexArgs env) (load_getPtr op) m idx))
           else Some (scalarArgs env k))) \<and>
     (list_all2 (\<lambda>s n. 0 \<le> s \<and> s \<le> n) m shp \<and>
      maskFitsSource (indexArgs env) (load_getPtr op) m \<longrightarrow>
      (\<forall>\<sigma>. \<exists>\<sigma>'.
         execAll env ([Alloc shp e, IfOp acc [FillOp (ScalarArg k) (AllocOp shp e)]] @ copies) \<sigma>
           = Some \<sigma>' \<and>
         (\<forall>idx\<in>set (box shp).
            \<sigma>' (BufCell idx) =
              (if insideMask m idx
               then \<sigma> (the (sourceCell (indexArgs env) (load_getPtr op) m idx))
               else Some (scalarArgs env k)))))"
  using ptr
proof
  assume p: "load_getPtr op = ReinterpretCastOp pty (BaseArg b) off szs strs"
  from maskedLoad_single_run[OF mask ty p other m len, of rw] obtain acc where
    run: "LoadConverter_matchAndRewrite op rw =
           Inr (rw\<lparr>createdOps := createdOps rw @
                   [Alloc shp e, IfOp acc [FillOp (ScalarArg k) (AllocOp shp e)],
                    CopyOp (SubViewOp (load_getPtr op) (replicate (length shp) (Attr 0))
                              (load_getMixedMaskDims op) (replicate (length shp) (Attr 1)))
                           (SubViewOp (AllocOp shp e) (replicate (length shp) (Attr 0))
                              (load_getMixedMaskDims op) (replicate (length shp) (Attr 1)))],
                  replaced := Some (ReplaceWithTensor (ToTensorOp (AllocOp shp e) True True))\<rparr>,
                success)"
    and acc: "eval_b (indexArgs env) acc = Some (\<exists>j<length shp. m ! j < shp ! j)"
    by blast
  let ?copies = "[CopyOp (SubViewOp (load_getPtr op) (replicate (length shp) (Attr 0))
                              (load_getMixedMaskDims op) (replicate (length shp) (Attr 1)))
                           (SubViewOp (AllocOp shp e) (replicate (length shp) (Attr 0))
                              (load_getMixedMaskDims op) (replicate (length shp) (Attr 1)))]"
  have cells: "\<sigma>' (BufCell idx) =
          (if insideMask m idx
           then \<sigma> (the (sourceCell (indexArgs env) (load_getPtr op) m idx))
           else Some (scalarArgs env k))"
    if "execAll env ([Alloc shp e, IfOp acc [FillOp (ScalarArg k) (AllocOp shp e)]] @ ?copies) \<sigma>
          = Some \<sigma>'" "idx \<in> set (box shp)" for \<sigma> \<sigma>' idx
    using maskedLoad_single_cells[OF _ acc m that(2), of e k pty b off szs strs \<sigma> \<sigma>'] that(1)
    by (simp add: p)
  have filled: "\<forall>\<sigma>. exec env (IfOp acc [FillOp (ScalarArg k) (AllocOp shp e)]) \<sigma> =
            (if \<exists>j<length shp. m ! j < shp ! j
             then fillView (scalarArgs env k) \<lparr>vsizes = shp, vcell = BufCell\<rparr> \<sigma>
             else Some \<sigma>)"
  proof (cases "\<exists>j<length shp. m ! j < shp ! j")
    case True
    with acc show ?thesis by (simp split: option.splits)
  next
    case False
    then have "eval_b (indexArgs env) acc = Some False" using acc by simp
    then show ?thesis using False by auto
  qed
  have defined: "\<exists>\<sigma>'.
         execAll env ([Alloc shp e, IfOp acc [FillOp (ScalarArg k) (AllocOp shp e)]] @ ?copies) \<sigma>
           = Some \<sigma>' \<and>
         (\<forall>idx\<in>set (box shp).
            \<sigma>' (BufCell idx) =
              (if insideMask m idx
               then \<sigma> (the (sourceCell (indexArgs env) (load_getPtr op) m idx))
               else Some (scalarArgs env k)))"
    if le: "list_all2 (\<lambda>s n. 0 \<le> s \<and> s \<le> n) m shp"
      and fits: "maskFitsSource (indexArgs env) (load_getPtr op) m" for \<sigma>
  proof -
    from maskFitsSource_single[OF fits[unfolded p]] obtain v where
      v: "eval_m (indexArgs env) (load_getPtr op) = Some v" and fit: "list_all2 (\<le>) m (vsizes v)"
      unfolding p by blast
    from maskedLoad_single_defined[OF acc m v le fit, of e k \<sigma>] obtain \<sigma>' where
      ex: "execAll env ([Alloc shp e, IfOp acc [FillOp (ScalarArg k) (AllocOp shp e)]] @ ?copies) \<sigma>
             = Some \<sigma>'"
      by auto
    with cells[OF ex] show ?thesis by blast
  qed
  show ?thesis
    apply (rule exI[of _ "rw\<lparr>createdOps := createdOps rw @
                   [Alloc shp e, IfOp acc [FillOp (ScalarArg k) (AllocOp shp e)]] @ ?copies,
                  replaced := Some (ReplaceWithTensor (ToTensorOp (AllocOp shp e) True True))\<rparr>"])
    apply (rule exI[of _ acc], rule exI[of _ ?copies])
    apply (intro conjI)
    subgoal using run by simp
    subgoal by simp
    subgoal by simp
    subgoal by simp
    subgoal using acc by simp
    subgoal using filled by simp
    subgoal using cells by blast
    subgoal using defined by blast
    done
next
  assume "length shp = 2 \<and> (tag = WRAP_SIDE_BY_SIDE \<or> tag = WRAP_STACKED) \<and>
                load_getPtr op = UnrealizedConversionCastOp
                  [ReinterpretCastOp ty1 (BaseArg a1) off1 szs1 strs1,
                   ReinterpretCastOp ty2 (BaseArg a2) off2 szs2 strs2] [tag]"
  then have ls: "length shp = 2" and tag: "tag = WRAP_SIDE_BY_SIDE \<or> tag = WRAP_STACKED"
    and p: "load_getPtr op = UnrealizedConversionCastOp
                  [ReinterpretCastOp ty1 (BaseArg a1) off1 szs1 strs1,
                   ReinterpretCastOp ty2 (BaseArg a2) off2 szs2 strs2] [tag]"
    by auto
  let ?b1 = "ReinterpretCastOp ty1 (BaseArg a1) off1 szs1 strs1"
  let ?b2 = "ReinterpretCastOp ty2 (BaseArg a2) off2 szs2 strs2"
  let ?dims = "load_getMixedMaskDims op"
  define axis :: nat where "axis = (if tag = WRAP_SIDE_BY_SIDE then 1 else 0)"
  define src1 where "src1 = SubViewOp ?b1 [Attr 0, Attr 0]
                   (?dims[axis := minOFRs (Val (DimOp ?b1 axis)) (?dims ! axis)]) [Attr 1, Attr 1]"
  define src2 where "src2 = SubViewOp ?b2 [Attr 0, Attr 0]
                   (?dims[axis := subOFRs (?dims ! axis)
                        (minOFRs (Val (DimOp ?b1 axis)) (?dims ! axis))]) [Attr 1, Attr 1]"
  have len2: "length ?dims = 2" using len ls by simp
  from maskedLoad_fill_part[OF other m len] obtain acc where
    oa: "orAccumulate op ?dims shp 0 (ConstantBool False) = Inr acc"
    and acc: "eval_b (indexArgs env) acc = Some (\<exists>j<length shp. m ! j < shp ! j)" by blast
  have pre: "[IfOp acc [FillOp (ScalarArg k) (AllocOp shp e)]] =
       (case load_getOther op of None \<Rightarrow> []
           | Some other \<Rightarrow> (case orAccumulate op ?dims shp 0 (ConstantBool False) of
                Inr acc \<Rightarrow> [IfOp acc [FillOp other (AllocOp shp e)]] | Inl a \<Rightarrow> []))"
    by (simp add: other oa)
  have ok: "load_getOther op = None \<or>
               (\<exists>acc. orAccumulate op ?dims shp 0 (ConstantBool False) = Inr acc)"
    using oa by blast
  let ?copies = "[CopyOp src1
          (SubViewOp (AllocOp shp e) [Val (ConstantOp 0), Val (ConstantOp 0)]
             [Val (DimOp src1 0), Val (DimOp src1 1)] [Val (ConstantOp 1), Val (ConstantOp 1)]),
        CopyOp src2
          (SubViewOp (AllocOp shp e)
             ([Val (ConstantOp 0), Val (ConstantOp 0)][axis := Val (DimOp src1 axis)])
             [Val (DimOp src2 0), Val (DimOp src2 1)] [Val (ConstantOp 1), Val (ConstantOp 1)])]"
  have run: "LoadConverter_matchAndRewrite op rw =
     Inr (rw\<lparr>createdOps := createdOps rw @ Alloc shp e #
                  [IfOp acc [FillOp (ScalarArg k) (AllocOp shp e)]] @ ?copies,
       replaced := Some (ReplaceWithTensor (ToTensorOp (AllocOp shp e) True True)),
       erasedOps := erasedOps rw @ [load_getPtr op]\<rparr>, success)"
    by (rule maskedLoad_split_run[OF mask ty p tag axis_def _ _ len2 pre ok src1_def src2_def])
      simp_all
  have cells: "\<sigma>' (BufCell idx) =
          (if insideMask m idx
           then \<sigma> (the (sourceCell (indexArgs env) (load_getPtr op) m idx))
           else Some (scalarArgs env k))"
    if "execAll env ([Alloc shp e, IfOp acc [FillOp (ScalarArg k) (AllocOp shp e)]] @ ?copies) \<sigma>
          = Some \<sigma>'" "idx \<in> set (box shp)" for \<sigma> \<sigma>' idx
    using maskedLoad_split_cells[OF _ src1_def src2_def refl refl axis_def acc m len2 that(2),
        of e k \<sigma> \<sigma>'] that(1)
    by (simp add: p)
  have filled: "\<forall>\<sigma>. exec env (IfOp acc [FillOp (ScalarArg k) (AllocOp shp e)]) \<sigma> =
            (if \<exists>j<length shp. m ! j < shp ! j
             then fillView (scalarArgs env k) \<lparr>vsizes = shp, vcell = BufCell\<rparr> \<sigma>
             else Some \<sigma>)"
  proof (cases "\<exists>j<length shp. m ! j < shp ! j")
    case True
    with acc show ?thesis by (simp split: option.splits)
  next
    case False
    then have "eval_b (indexArgs env) acc = Some False" using acc by simp
    then show ?thesis using False by auto
  qed
  have defined: "\<exists>\<sigma>'.
         execAll env ([Alloc shp e, IfOp acc [FillOp (ScalarArg k) (AllocOp shp e)]] @ ?copies) \<sigma>
           = Some \<sigma>' \<and>
         (\<forall>idx\<in>set (box shp).
            \<sigma>' (BufCell idx) =
              (if insideMask m idx
               then \<sigma> (the (sourceCell (indexArgs env) (load_getPtr op) m idx))
               else Some (scalarArgs env k)))"
    if le: "list_all2 (\<lambda>s n. 0 \<le> s \<and> s \<le> n) m shp"
      and fits: "maskFitsSource (indexArgs env) (load_getPtr op) m" for \<sigma>
  proof -
    from maskFitsSource_split[OF fits[unfolded p] tag axis_def] obtain v1 v2 where
      v1: "eval_m (indexArgs env) ?b1 = Some v1" and v2: "eval_m (indexArgs env) ?b2 = Some v2"
      and lv: "length (vsizes v1) = 2" "length (vsizes v2) = 2"
      and nn: "0 \<le> vsizes v1 ! axis" "0 \<le> vsizes v2 ! axis"
      and reach: "m ! axis \<le> vsizes v1 ! axis + vsizes v2 ! axis"
      and others: "m ! (1 - axis) \<le> vsizes v1 ! (1 - axis)"
                  "m ! (1 - axis) \<le> vsizes v2 ! (1 - axis)"
      by blast
    have ax: "axis = 0 \<or> axis = 1" by (simp add: axis_def)
    from maskedLoad_split_defined[OF src1_def src2_def v1 v2 ax acc m len2 le lv nn reach others,
        of e k \<sigma>]
    obtain \<sigma>' where
      ex: "execAll env ([Alloc shp e, IfOp acc [FillOp (ScalarArg k) (AllocOp shp e)]] @ ?copies) \<sigma>
             = Some \<sigma>'"
      by auto
    with cells[OF ex] show ?thesis by blast
  qed
  show ?thesis
    apply (rule exI[of _ "rw\<lparr>createdOps := createdOps rw @ Alloc shp e #
                  [IfOp acc [FillOp (ScalarArg k) (AllocOp shp e)]] @ ?copies,
       replaced := Some (ReplaceWithTensor (ToTensorOp (AllocOp shp e) True True)),
       erasedOps := erasedOps rw @ [load_getPtr op]\<rparr>"])
    apply (rule exI[of _ acc], rule exI[of _ ?copies])
    apply (intro conjI)
    subgoal using run by simp
    subgoal by simp
    subgoal by simp
    subgoal by simp
    subgoal using acc by simp
    subgoal using filled by simp
    subgoal using cells by blast
    subgoal using defined by blast
    done
qed

text \<open>
  Three masked loads of 4 by 4, run on a memory where address \<open>a\<close> holds \<open>a\<close>, with fill
  value \<open>-1\<close>. Through the single view with 2 rows and 3 columns valid, element
  \<open>[1, 2]\<close> comes from address 6 and rows 2 and 3 and column 3 hold the fill value.
  Through the side-by-side pair with 3 columns valid, columns 0 and 1 come from the first
  chunk, column 2 from the second, column 3 holds the fill value. Through the stacked
  pair with 3 rows valid, rows 0 and 1 come from the first chunk, row 2 from the second,
  row 3 holds the fill value.
\<close>

theorem masked_load_fill_witness:
  "(load_hasMask maskedViewLoad \<and> load_getOther maskedViewLoad = Some (ScalarArg 0) \<and>
    load_getPtr maskedViewLoad = view4x4 \<and>
    (\<exists>rw' acc copies \<sigma>'.
       LoadConverter_matchAndRewrite maskedViewLoad emptyRewriter = Inr (rw', success) \<and>
       createdOps rw' =
         [Alloc [4, 4] f32, IfOp acc [FillOp (ScalarArg 0) (AllocOp [4, 4] f32)]] @ copies \<and>
       eval_b (\<lambda>n. 0) acc = Some True \<and>
       execAll exampleEnv (createdOps rw') exampleMemory = Some \<sigma>' \<and>
       \<sigma>' (BufCell [0, 0]) = Some 0 \<and> \<sigma>' (BufCell [1, 2]) = Some 6 \<and>
       \<sigma>' (BufCell [2, 0]) = Some (- 1) \<and> \<sigma>' (BufCell [0, 3]) = Some (- 1))) \<and>
   (load_hasMask maskedSplitLoad \<and> load_getOther maskedSplitLoad = Some (ScalarArg 0) \<and>
    load_getPtr maskedSplitLoad =
      UnrealizedConversionCastOp [chunk1, chunk2] [WRAP_SIDE_BY_SIDE] \<and>
    (\<exists>rw' acc copies \<sigma>'.
       LoadConverter_matchAndRewrite maskedSplitLoad emptyRewriter = Inr (rw', success) \<and>
       createdOps rw' =
         [Alloc [4, 4] f32, IfOp acc [FillOp (ScalarArg 0) (AllocOp [4, 4] f32)]] @ copies \<and>
       eval_b (\<lambda>n. 0) acc = Some True \<and>
       execAll exampleEnv (createdOps rw') exampleMemory = Some \<sigma>' \<and>
       \<sigma>' (BufCell [0, 0]) = Some 6 \<and> \<sigma>' (BufCell [1, 1]) = Some 15 \<and>
       \<sigma>' (BufCell [0, 2]) = Some 0 \<and> \<sigma>' (BufCell [0, 3]) = Some (- 1))) \<and>
   (load_hasMask maskedStackedLoad \<and> load_getOther maskedStackedLoad = Some (ScalarArg 0) \<and>
    load_getPtr maskedStackedLoad = UnrealizedConversionCastOp [rows1, rows2] [WRAP_STACKED] \<and>
    (\<exists>rw' acc copies \<sigma>'.
       LoadConverter_matchAndRewrite maskedStackedLoad emptyRewriter = Inr (rw', success) \<and>
       createdOps rw' =
         [Alloc [4, 4] f32, IfOp acc [FillOp (ScalarArg 0) (AllocOp [4, 4] f32)]] @ copies \<and>
       eval_b (\<lambda>n. 0) acc = Some True \<and>
       execAll exampleEnv (createdOps rw') exampleMemory = Some \<sigma>' \<and>
       \<sigma>' (BufCell [0, 0]) = Some 16 \<and> \<sigma>' (BufCell [1, 3]) = Some 23 \<and>
       \<sigma>' (BufCell [2, 1]) = Some 1 \<and> \<sigma>' (BufCell [3, 0]) = Some (- 1)))"
proof -
  have ienv: "indexArgs exampleEnv = (\<lambda>n. 0)" by (simp add: exampleEnv_def)
  have fillv: "scalarArgs exampleEnv 0 = - 1" by (simp add: exampleEnv_def)
  have mem: "exampleMemory (MemCell b a) = Some a" for b a by (simp add: exampleMemory_def)
  have single: "load_hasMask maskedViewLoad \<and> load_getOther maskedViewLoad = Some (ScalarArg 0) \<and>
    load_getPtr maskedViewLoad = view4x4 \<and>
    (\<exists>rw' acc copies \<sigma>'.
       LoadConverter_matchAndRewrite maskedViewLoad emptyRewriter = Inr (rw', success) \<and>
       createdOps rw' =
         [Alloc [4, 4] f32, IfOp acc [FillOp (ScalarArg 0) (AllocOp [4, 4] f32)]] @ copies \<and>
       eval_b (\<lambda>n. 0) acc = Some True \<and>
       execAll exampleEnv (createdOps rw') exampleMemory = Some \<sigma>' \<and>
       \<sigma>' (BufCell [0, 0]) = Some 0 \<and> \<sigma>' (BufCell [1, 2]) = Some 6 \<and>
       \<sigma>' (BufCell [2, 0]) = Some (- 1) \<and> \<sigma>' (BufCell [0, 3]) = Some (- 1))"
  proof -
    have h1: "load_hasMask maskedViewLoad"
      and h2: "load_getType maskedViewLoad = RankedTensorType [4, 4] f32"
      and h3: "load_getOther maskedViewLoad = Some (ScalarArg 0)"
      and h0: "load_getPtr maskedViewLoad = view4x4"
      by (simp_all add: maskedViewLoad_def)
    have h4: "eval_ofrs (indexArgs exampleEnv) (load_getMixedMaskDims maskedViewLoad) = Some [2, 3]"
      by (simp add: maskedViewLoad_dims eval_ofrs_def)
    have h5: "length (load_getMixedMaskDims maskedViewLoad) = length [4, 4 :: int]"
      by (simp add: maskedViewLoad_dims)
    have h6: "load_getPtr maskedViewLoad =
                ReinterpretCastOp \<lparr>mrShape = [4, 4], mrElementType = f32,
                    mrLayout = Some \<lparr>layoutOffset = 0, layoutStrides = [4, 1]\<rparr>\<rparr>
                  (BaseArg 0) (Attr 0) [Attr 4, Attr 4] [Attr 4, Attr 1] \<or>
              length [4, 4 :: int] = 2 \<and>
              (WRAP_STACKED = WRAP_SIDE_BY_SIDE \<or> WRAP_STACKED = WRAP_STACKED) \<and>
              load_getPtr maskedViewLoad = UnrealizedConversionCastOp
                [ReinterpretCastOp dynamicView2 (BaseArg 0) (Attr 0) [] [],
                 ReinterpretCastOp dynamicView2 (BaseArg 0) (Attr 0) [] []]
                [WRAP_STACKED]"
      by (simp add: maskedViewLoad_def view4x4_def)
    have le: "list_all2 (\<lambda>s n. 0 \<le> s \<and> s \<le> n) [2, 3] [4, 4 :: int]" by simp
    from masked_load_fill[OF h1 h2 h3 h4 h5 h6, of emptyRewriter]
    obtain rw' acc copies where
      run: "LoadConverter_matchAndRewrite maskedViewLoad emptyRewriter = Inr (rw', success)"
      and created: "createdOps rw' = createdOps emptyRewriter @
          [Alloc [4, 4] f32, IfOp acc [FillOp (ScalarArg 0) (AllocOp [4, 4] f32)]] @ copies"
      and acc: "eval_b (indexArgs exampleEnv) acc =
                  Some (\<exists>j<length [4, 4 :: int]. [2, 3 :: int] ! j < [4, 4] ! j)"
      and defined: "list_all2 (\<lambda>s n. 0 \<le> s \<and> s \<le> n) [2, 3] [4, 4 :: int] \<and>
          maskFitsSource (indexArgs exampleEnv) (load_getPtr maskedViewLoad) [2, 3] \<longrightarrow>
          (\<forall>\<sigma>. \<exists>\<sigma>'.
             execAll exampleEnv
               ([Alloc [4, 4] f32, IfOp acc [FillOp (ScalarArg 0) (AllocOp [4, 4] f32)]] @ copies) \<sigma>
               = Some \<sigma>' \<and>
             (\<forall>idx\<in>set (box [4, 4]).
                \<sigma>' (BufCell idx) =
                  (if insideMask [2, 3] idx
                   then \<sigma> (the (sourceCell (indexArgs exampleEnv)
                                   (load_getPtr maskedViewLoad) [2, 3] idx))
                   else Some (scalarArgs exampleEnv 0))))"
      by blast
    have created': "createdOps rw' =
          [Alloc [4, 4] f32, IfOp acc [FillOp (ScalarArg 0) (AllocOp [4, 4] f32)]] @ copies"
      using created by (simp add: emptyRewriter_def)
    from defined le maskedViewLoad_fits obtain \<sigma>' where
      ex: "execAll exampleEnv (createdOps rw') exampleMemory = Some \<sigma>'"
      and cells: "\<forall>idx\<in>set (box [4, 4]).
                \<sigma>' (BufCell idx) =
                  (if insideMask [2, 3] idx
                   then exampleMemory (the (sourceCell (indexArgs exampleEnv)
                                   (load_getPtr maskedViewLoad) [2, 3] idx))
                   else Some (scalarArgs exampleEnv 0))"
      unfolding created' by blast
    have a: "eval_b (\<lambda>n. 0) acc = Some True"
    proof -
      have "\<exists>j<length [4, 4 :: int]. [2, 3 :: int] ! j < [4, 4] ! j"
        by (intro exI[of _ 0]) simp
      with acc show ?thesis by (simp add: ienv)
    qed
    have c1: "\<sigma>' (BufCell [0, 0]) = Some 0"
      using bspec[OF cells, of "[0, 0]"]
      by (simp add: box2_mem insideMask_def maskedViewLoad_source mem)
    have c2: "\<sigma>' (BufCell [1, 2]) = Some 6"
      using bspec[OF cells, of "[1, 2]"]
      by (simp add: box2_mem insideMask_def maskedViewLoad_source mem)
    have c3: "\<sigma>' (BufCell [2, 0]) = Some (- 1)"
      using bspec[OF cells, of "[2, 0]"]
      by (simp add: box2_mem insideMask_def fillv)
    have c4: "\<sigma>' (BufCell [0, 3]) = Some (- 1)"
      using bspec[OF cells, of "[0, 3]"]
      by (simp add: box2_mem insideMask_def fillv)
    show ?thesis
      using h1 h3 h0 run created' a ex c1 c2 c3 c4 by blast
  qed
  have sideBySide: "load_hasMask maskedSplitLoad \<and> load_getOther maskedSplitLoad = Some (ScalarArg 0) \<and>
    load_getPtr maskedSplitLoad =
      UnrealizedConversionCastOp [chunk1, chunk2] [WRAP_SIDE_BY_SIDE] \<and>
    (\<exists>rw' acc copies \<sigma>'.
       LoadConverter_matchAndRewrite maskedSplitLoad emptyRewriter = Inr (rw', success) \<and>
       createdOps rw' =
         [Alloc [4, 4] f32, IfOp acc [FillOp (ScalarArg 0) (AllocOp [4, 4] f32)]] @ copies \<and>
       eval_b (\<lambda>n. 0) acc = Some True \<and>
       execAll exampleEnv (createdOps rw') exampleMemory = Some \<sigma>' \<and>
       \<sigma>' (BufCell [0, 0]) = Some 6 \<and> \<sigma>' (BufCell [1, 1]) = Some 15 \<and>
       \<sigma>' (BufCell [0, 2]) = Some 0 \<and> \<sigma>' (BufCell [0, 3]) = Some (- 1))"
  proof -
    have h1: "load_hasMask maskedSplitLoad"
      and h2: "load_getType maskedSplitLoad = RankedTensorType [4, 4] f32"
      and h3: "load_getOther maskedSplitLoad = Some (ScalarArg 0)"
      and h0: "load_getPtr maskedSplitLoad =
                 UnrealizedConversionCastOp [chunk1, chunk2] [WRAP_SIDE_BY_SIDE]"
      by (simp_all add: maskedSplitLoad_def)
    have h4: "eval_ofrs (indexArgs exampleEnv) (load_getMixedMaskDims maskedSplitLoad) = Some [4, 3]"
      by (simp add: maskedSplitLoad_dims eval_ofrs_def)
    have h5: "length (load_getMixedMaskDims maskedSplitLoad) = length [4, 4 :: int]"
      by (simp add: maskedSplitLoad_dims)
    have h6: "load_getPtr maskedSplitLoad =
                ReinterpretCastOp dynamicView2 (BaseArg 0) (Attr 0) [] [] \<or>
              length [4, 4 :: int] = 2 \<and>
              (WRAP_SIDE_BY_SIDE = WRAP_SIDE_BY_SIDE \<or> WRAP_SIDE_BY_SIDE = WRAP_STACKED) \<and>
              load_getPtr maskedSplitLoad = UnrealizedConversionCastOp
                [ReinterpretCastOp dynamicView2 (BaseArg 0) (Attr 6) [Attr 4, Attr 2] [Attr 8, Attr 1],
                 ReinterpretCastOp dynamicView2 (BaseArg 0) (Attr 0) [Attr 4, Attr 2] [Attr 8, Attr 1]]
                [WRAP_SIDE_BY_SIDE]"
      by (simp add: maskedSplitLoad_def chunk1_def chunk2_def)
    have le: "list_all2 (\<lambda>s n. 0 \<le> s \<and> s \<le> n) [4, 3] [4, 4 :: int]" by simp
    from masked_load_fill[OF h1 h2 h3 h4 h5 h6, of emptyRewriter]
    obtain rw' acc copies where
      run: "LoadConverter_matchAndRewrite maskedSplitLoad emptyRewriter = Inr (rw', success)"
      and created: "createdOps rw' = createdOps emptyRewriter @
          [Alloc [4, 4] f32, IfOp acc [FillOp (ScalarArg 0) (AllocOp [4, 4] f32)]] @ copies"
      and acc: "eval_b (indexArgs exampleEnv) acc =
                  Some (\<exists>j<length [4, 4 :: int]. [4, 3 :: int] ! j < [4, 4] ! j)"
      and defined: "list_all2 (\<lambda>s n. 0 \<le> s \<and> s \<le> n) [4, 3] [4, 4 :: int] \<and>
          maskFitsSource (indexArgs exampleEnv) (load_getPtr maskedSplitLoad) [4, 3] \<longrightarrow>
          (\<forall>\<sigma>. \<exists>\<sigma>'.
             execAll exampleEnv
               ([Alloc [4, 4] f32, IfOp acc [FillOp (ScalarArg 0) (AllocOp [4, 4] f32)]] @ copies) \<sigma>
               = Some \<sigma>' \<and>
             (\<forall>idx\<in>set (box [4, 4]).
                \<sigma>' (BufCell idx) =
                  (if insideMask [4, 3] idx
                   then \<sigma> (the (sourceCell (indexArgs exampleEnv)
                                   (load_getPtr maskedSplitLoad) [4, 3] idx))
                   else Some (scalarArgs exampleEnv 0))))"
      by blast
    have created': "createdOps rw' =
          [Alloc [4, 4] f32, IfOp acc [FillOp (ScalarArg 0) (AllocOp [4, 4] f32)]] @ copies"
      using created by (simp add: emptyRewriter_def)
    from defined le maskedSplitLoad_fits obtain \<sigma>' where
      ex: "execAll exampleEnv (createdOps rw') exampleMemory = Some \<sigma>'"
      and cells: "\<forall>idx\<in>set (box [4, 4]).
                \<sigma>' (BufCell idx) =
                  (if insideMask [4, 3] idx
                   then exampleMemory (the (sourceCell (indexArgs exampleEnv)
                                   (load_getPtr maskedSplitLoad) [4, 3] idx))
                   else Some (scalarArgs exampleEnv 0))"
      unfolding created' by blast
    have a: "eval_b (\<lambda>n. 0) acc = Some True"
    proof -
      have "\<exists>j<length [4, 4 :: int]. [4, 3 :: int] ! j < [4, 4] ! j"
        by (intro exI[of _ 1]) simp
      with acc show ?thesis by (simp add: ienv)
    qed
    have c1: "\<sigma>' (BufCell [0, 0]) = Some 6"
      using bspec[OF cells, of "[0, 0]"]
      by (simp add: box2_mem insideMask_def maskedSplitLoad_source mem)
    have c2: "\<sigma>' (BufCell [1, 1]) = Some 15"
      using bspec[OF cells, of "[1, 1]"]
      by (simp add: box2_mem insideMask_def maskedSplitLoad_source mem)
    have c3: "\<sigma>' (BufCell [0, 2]) = Some 0"
      using bspec[OF cells, of "[0, 2]"]
      by (simp add: box2_mem insideMask_def maskedSplitLoad_source mem)
    have c4: "\<sigma>' (BufCell [0, 3]) = Some (- 1)"
      using bspec[OF cells, of "[0, 3]"]
      by (simp add: box2_mem insideMask_def fillv)
    show ?thesis
      using h1 h3 h0 run created' a ex c1 c2 c3 c4 by blast
  qed
  have stacked: "load_hasMask maskedStackedLoad \<and> load_getOther maskedStackedLoad = Some (ScalarArg 0) \<and>
    load_getPtr maskedStackedLoad = UnrealizedConversionCastOp [rows1, rows2] [WRAP_STACKED] \<and>
    (\<exists>rw' acc copies \<sigma>'.
       LoadConverter_matchAndRewrite maskedStackedLoad emptyRewriter = Inr (rw', success) \<and>
       createdOps rw' =
         [Alloc [4, 4] f32, IfOp acc [FillOp (ScalarArg 0) (AllocOp [4, 4] f32)]] @ copies \<and>
       eval_b (\<lambda>n. 0) acc = Some True \<and>
       execAll exampleEnv (createdOps rw') exampleMemory = Some \<sigma>' \<and>
       \<sigma>' (BufCell [0, 0]) = Some 16 \<and> \<sigma>' (BufCell [1, 3]) = Some 23 \<and>
       \<sigma>' (BufCell [2, 1]) = Some 1 \<and> \<sigma>' (BufCell [3, 0]) = Some (- 1))"
  proof -
    have h1: "load_hasMask maskedStackedLoad"
      and h2: "load_getType maskedStackedLoad = RankedTensorType [4, 4] f32"
      and h3: "load_getOther maskedStackedLoad = Some (ScalarArg 0)"
      and h0: "load_getPtr maskedStackedLoad =
                 UnrealizedConversionCastOp [rows1, rows2] [WRAP_STACKED]"
      by (simp_all add: maskedStackedLoad_def)
    have h4: "eval_ofrs (indexArgs exampleEnv) (load_getMixedMaskDims maskedStackedLoad) = Some [3, 4]"
      by (simp add: maskedStackedLoad_dims eval_ofrs_def)
    have h5: "length (load_getMixedMaskDims maskedStackedLoad) = length [4, 4 :: int]"
      by (simp add: maskedStackedLoad_dims)
    have h6: "load_getPtr maskedStackedLoad =
                ReinterpretCastOp dynamicView2 (BaseArg 0) (Attr 0) [] [] \<or>
              length [4, 4 :: int] = 2 \<and>
              (WRAP_STACKED = WRAP_SIDE_BY_SIDE \<or> WRAP_STACKED = WRAP_STACKED) \<and>
              load_getPtr maskedStackedLoad = UnrealizedConversionCastOp
                [ReinterpretCastOp dynamicView2 (BaseArg 0) (Attr 16) [Attr 2, Attr 4] [Attr 4, Attr 1],
                 ReinterpretCastOp dynamicView2 (BaseArg 0) (Attr 0) [Attr 2, Attr 4] [Attr 4, Attr 1]]
                [WRAP_STACKED]"
      by (simp add: maskedStackedLoad_def rows1_def rows2_def)
    have le: "list_all2 (\<lambda>s n. 0 \<le> s \<and> s \<le> n) [3, 4] [4, 4 :: int]" by simp
    from masked_load_fill[OF h1 h2 h3 h4 h5 h6, of emptyRewriter]
    obtain rw' acc copies where
      run: "LoadConverter_matchAndRewrite maskedStackedLoad emptyRewriter = Inr (rw', success)"
      and created: "createdOps rw' = createdOps emptyRewriter @
          [Alloc [4, 4] f32, IfOp acc [FillOp (ScalarArg 0) (AllocOp [4, 4] f32)]] @ copies"
      and acc: "eval_b (indexArgs exampleEnv) acc =
                  Some (\<exists>j<length [4, 4 :: int]. [3, 4 :: int] ! j < [4, 4] ! j)"
      and defined: "list_all2 (\<lambda>s n. 0 \<le> s \<and> s \<le> n) [3, 4] [4, 4 :: int] \<and>
          maskFitsSource (indexArgs exampleEnv) (load_getPtr maskedStackedLoad) [3, 4] \<longrightarrow>
          (\<forall>\<sigma>. \<exists>\<sigma>'.
             execAll exampleEnv
               ([Alloc [4, 4] f32, IfOp acc [FillOp (ScalarArg 0) (AllocOp [4, 4] f32)]] @ copies) \<sigma>
               = Some \<sigma>' \<and>
             (\<forall>idx\<in>set (box [4, 4]).
                \<sigma>' (BufCell idx) =
                  (if insideMask [3, 4] idx
                   then \<sigma> (the (sourceCell (indexArgs exampleEnv)
                                   (load_getPtr maskedStackedLoad) [3, 4] idx))
                   else Some (scalarArgs exampleEnv 0))))"
      by blast
    have created': "createdOps rw' =
          [Alloc [4, 4] f32, IfOp acc [FillOp (ScalarArg 0) (AllocOp [4, 4] f32)]] @ copies"
      using created by (simp add: emptyRewriter_def)
    from defined le maskedStackedLoad_fits obtain \<sigma>' where
      ex: "execAll exampleEnv (createdOps rw') exampleMemory = Some \<sigma>'"
      and cells: "\<forall>idx\<in>set (box [4, 4]).
                \<sigma>' (BufCell idx) =
                  (if insideMask [3, 4] idx
                   then exampleMemory (the (sourceCell (indexArgs exampleEnv)
                                   (load_getPtr maskedStackedLoad) [3, 4] idx))
                   else Some (scalarArgs exampleEnv 0))"
      unfolding created' by blast
    have a: "eval_b (\<lambda>n. 0) acc = Some True"
    proof -
      have "\<exists>j<length [4, 4 :: int]. [3, 4 :: int] ! j < [4, 4] ! j"
        by (intro exI[of _ 0]) simp
      with acc show ?thesis by (simp add: ienv)
    qed
    have c1: "\<sigma>' (BufCell [0, 0]) = Some 16"
      using bspec[OF cells, of "[0, 0]"]
      by (simp add: box2_mem insideMask_def maskedStackedLoad_source mem)
    have c2: "\<sigma>' (BufCell [1, 3]) = Some 23"
      using bspec[OF cells, of "[1, 3]"]
      by (simp add: box2_mem insideMask_def maskedStackedLoad_source mem)
    have c3: "\<sigma>' (BufCell [2, 1]) = Some 1"
      using bspec[OF cells, of "[2, 1]"]
      by (simp add: box2_mem insideMask_def maskedStackedLoad_source mem)
    have c4: "\<sigma>' (BufCell [3, 0]) = Some (- 1)"
      using bspec[OF cells, of "[3, 0]"]
      by (simp add: box2_mem insideMask_def fillv)
    show ?thesis
      using h1 h3 h0 run created' a ex c1 c2 c3 c4 by blast
  qed
  show ?thesis by (rule conjI[OF single conjI[OF sideBySide stacked]])
qed

text \<open>
  Claim C7. A load through a split pair copies the first chunk to the sub-view of the
  destination at offsets \<open>[0, 0]\<close> and the second chunk to the sub-view whose offset along
  the split axis (1 for a side-by-side pair, 0 for a stacked pair) is the extent of the
  first copied chunk along that axis. Without a mask the chunks are copied whole. With a
  mask of valid extents \<open>m\<close> the copied part of the first chunk has extent
  \<open>min chunk1_extent (m ! axis)\<close> along the split axis, that of the second chunk the
  remainder \<open>m ! axis - min chunk1_extent (m ! axis)\<close>, and both have the extent of the mask
  along the other axis.
\<close>

theorem split_load_copies:
  assumes ty: "load_getType op = RankedTensorType shp e"
      and ptr: "load_getPtr op = UnrealizedConversionCastOp [block1, block2] [tag]"
      and tag: "tag = WRAP_SIDE_BY_SIDE \<or> tag = WRAP_STACKED"
      and axis: "axis = (if tag = WRAP_SIDE_BY_SIDE then 1 else 0)"
      and unmasked: "\<not> load_hasMask op \<Longrightarrow> load_getOther op = None"
      and masked: "load_hasMask op \<Longrightarrow>
                     isMemRefType block1 \<and> isMemRefType block2 \<and> length shp = 2 \<and>
                     length (load_getMixedMaskDims op) = 2"
      and v1: "eval_m ienv block1 = Some v1" "length (vsizes v1) = 2"
      and m: "eval_ofrs ienv (load_getMixedMaskDims op) = Some m"
      and alloc: "alloc = AllocOp shp e"
  shows "\<exists>rw' pre src1 src2.
     LoadConverter_matchAndRewrite op rw = Inr (rw', success) \<and>
     replaced rw' = Some (ReplaceWithTensor (ToTensorOp alloc True True)) \<and>
     createdOps rw' = createdOps rw @ Alloc shp e # pre @
       [CopyOp src1
          (SubViewOp alloc [Val (ConstantOp 0), Val (ConstantOp 0)]
             [Val (DimOp src1 0), Val (DimOp src1 1)] [Val (ConstantOp 1), Val (ConstantOp 1)]),
        CopyOp src2
          (SubViewOp alloc ([Val (ConstantOp 0), Val (ConstantOp 0)][axis := Val (DimOp src1 axis)])
             [Val (DimOp src2 0), Val (DimOp src2 1)] [Val (ConstantOp 1), Val (ConstantOp 1)])] \<and>
     (if load_hasMask op
      then subviewOperands ienv src1 =
             Some (block1, [0, 0], m[axis := min (vsizes v1 ! axis) (m ! axis)], [1, 1]) \<and>
           subviewOperands ienv src2 =
             Some (block2, [0, 0], m[axis := m ! axis - min (vsizes v1 ! axis) (m ! axis)], [1, 1])
      else src1 = block1 \<and> src2 = block2)"
proof (cases "load_hasMask op")
  case False
  note other = unmasked[OF False]
  let ?c1 = "\<lambda>a. CopyOp block1
          (SubViewOp alloc [Val (ConstantOp 0), Val (ConstantOp 0)]
             [Val (DimOp block1 0), Val (DimOp block1 1)] [Val (ConstantOp 1), Val (ConstantOp 1)])"
  let ?c2 = "CopyOp block2
          (SubViewOp alloc ([Val (ConstantOp 0), Val (ConstantOp 0)][axis := Val (DimOp block1 axis)])
             [Val (DimOp block2 0), Val (DimOp block2 1)] [Val (ConstantOp 1), Val (ConstantOp 1)])"
  let ?rw' = "rw\<lparr>createdOps := createdOps rw @ [Alloc shp e, ?c1 0, ?c2],
                 replaced := Some (ReplaceWithTensor (ToTensorOp alloc True True))\<rparr>"
  have "LoadConverter_matchAndRewrite op rw = Inr (?rw', success)"
    using False other tag wrap_tags_differ
    by (auto simp: LoadConverter_matchAndRewrite_def rewriteStructuredLoad_def ty ptr Let_def
        createSideBySideCopies_def createStackedCopies_def create_def axis alloc)
  then show ?thesis
    using False
    by (intro exI[of _ ?rw'] exI[of _ "[]"] exI[of _ block1] exI[of _ block2]) simp
next
  case True
  from masked[OF True] have b: "isMemRefType block1" "isMemRefType block2"
    and len: "length shp = 2" "length (load_getMixedMaskDims op) = 2" by auto
  let ?dims = "load_getMixedMaskDims op"
  obtain rowFull colFull where dims: "?dims = [rowFull, colFull]"
    using len(2) by (cases ?dims; cases "tl ?dims") auto
  from m obtain m0 m1 where mm: "m = [m0, m1]"
    and e0: "eval_ofr ienv rowFull = Some m0" and e1: "eval_ofr ienv colFull = Some m1"
    by (auto simp: dims eval_ofrs_Cons eval_ofrs_Nil)
  have slen: "length ?dims \<le> length (load_getStaticMaskDims op)"
    unfolding load_getMixedMaskDims_def by (rule length_getMixedValues)
  define pre where "pre = (case load_getOther op of None \<Rightarrow> []
     | Some other \<Rightarrow> (case orAccumulate op ?dims shp 0 (ConstantBool False) of
          Inr acc \<Rightarrow> [IfOp acc [FillOp other alloc]] | Inl a \<Rightarrow> []))"
  have fillpart: "(case load_getOther op of
                      None \<Rightarrow> Inr (create (Alloc shp e) rw)
                    | Some other \<Rightarrow>
                        (case orAccumulate op ?dims shp 0 (ConstantBool False) of
                           Inl a \<Rightarrow> Inl a
                         | Inr accBase \<Rightarrow>
                             Inr (create (IfOp accBase [FillOp other (AllocOp shp e)])
                                    (create (Alloc shp e) rw)))) =
        Inr (rw\<lparr>createdOps := createdOps rw @ Alloc shp e # pre\<rparr>)"
  proof (cases "load_getOther op")
    case None
    then show ?thesis by (simp add: pre_def create_def)
  next
    case (Some other)
    from orAccumulate_returns[of 0 shp ?dims op "ConstantBool False"] len slen
    obtain acc where "orAccumulate op ?dims shp 0 (ConstantBool False) = Inr acc" by auto
    with Some show ?thesis by (simp add: pre_def create_def alloc)
  qed
  have d10: "eval_ofr ienv (Val (DimOp block1 0)) = Some (vsizes v1 ! 0)"
    and d11: "eval_ofr ienv (Val (DimOp block1 1)) = Some (vsizes v1 ! 1)"
    using v1 by simp_all
  show ?thesis
  proof (cases "tag = WRAP_SIDE_BY_SIDE")
    case sbs: True
    then have ax: "axis = 1" using axis by simp
    let ?s1 = "SubViewOp block1 [Attr 0, Attr 0] [rowFull, minOFRs (Val (DimOp block1 1)) colFull]
                 [Attr 1, Attr 1]"
    let ?s2 = "SubViewOp block2 [Attr 0, Attr 0]
                 [rowFull, subOFRs colFull (minOFRs (Val (DimOp block1 1)) colFull)] [Attr 1, Attr 1]"
    let ?c1 = "CopyOp ?s1
          (SubViewOp alloc [Val (ConstantOp 0), Val (ConstantOp 0)]
             [Val (DimOp ?s1 0), Val (DimOp ?s1 1)] [Val (ConstantOp 1), Val (ConstantOp 1)])"
    let ?c2 = "CopyOp ?s2
          (SubViewOp alloc ([Val (ConstantOp 0), Val (ConstantOp 0)][axis := Val (DimOp ?s1 axis)])
             [Val (DimOp ?s2 0), Val (DimOp ?s2 1)] [Val (ConstantOp 1), Val (ConstantOp 1)])"
    let ?rw' = "rw\<lparr>createdOps := createdOps rw @ Alloc shp e # pre @ [?c1, ?c2],
                 replaced := Some (ReplaceWithTensor (ToTensorOp alloc True True)),
                 erasedOps := erasedOps rw @ [load_getPtr op]\<rparr>"
    have sv: "getSideBySideSubviews ?dims block1 block2 = Inr (?s1, ?s2)"
      using b by (simp add: getSideBySideSubviews_def dims at_def createSubview_def Let_def
          numeral_2_eq_2)
    have run: "LoadConverter_matchAndRewrite op rw = Inr (?rw', success)"
      using True sbs
      by (simp add: LoadConverter_matchAndRewrite_def rewriteMaskedLoad_def ty Let_def
          fillpart sv ptr)
        (simp add: createSideBySideCopies_def create_def ax alloc Let_def)
    have o1: "subviewOperands ienv ?s1 =
             Some (block1, [0, 0], m[axis := min (vsizes v1 ! axis) (m ! axis)], [1, 1])"
      using e0 eval_minOFRs[OF d11 e1]
      by (simp add: eval_ofrs_def mm ax)
    have o2: "subviewOperands ienv ?s2 =
             Some (block2, [0, 0], m[axis := m ! axis - min (vsizes v1 ! axis) (m ! axis)], [1, 1])"
      using e0 eval_subOFRs[OF e1 eval_minOFRs[OF d11 e1]]
      by (simp add: eval_ofrs_def mm ax)
    show ?thesis
      using True run o1 o2
      by (intro exI[of _ ?rw'] exI[of _ pre] exI[of _ ?s1] exI[of _ ?s2]) simp
  next
    case nsbs: False
    with tag have st: "tag = WRAP_STACKED" by simp
    have ax: "axis = 0" using axis nsbs by simp
    let ?s1 = "SubViewOp block1 [Attr 0, Attr 0] [minOFRs (Val (DimOp block1 0)) rowFull, colFull]
                 [Attr 1, Attr 1]"
    let ?s2 = "SubViewOp block2 [Attr 0, Attr 0]
                 [subOFRs rowFull (minOFRs (Val (DimOp block1 0)) rowFull), colFull] [Attr 1, Attr 1]"
    let ?c1 = "CopyOp ?s1
          (SubViewOp alloc [Val (ConstantOp 0), Val (ConstantOp 0)]
             [Val (DimOp ?s1 0), Val (DimOp ?s1 1)] [Val (ConstantOp 1), Val (ConstantOp 1)])"
    let ?c2 = "CopyOp ?s2
          (SubViewOp alloc ([Val (ConstantOp 0), Val (ConstantOp 0)][axis := Val (DimOp ?s1 axis)])
             [Val (DimOp ?s2 0), Val (DimOp ?s2 1)] [Val (ConstantOp 1), Val (ConstantOp 1)])"
    let ?rw' = "rw\<lparr>createdOps := createdOps rw @ Alloc shp e # pre @ [?c1, ?c2],
                 replaced := Some (ReplaceWithTensor (ToTensorOp alloc True True)),
                 erasedOps := erasedOps rw @ [load_getPtr op]\<rparr>"
    have sv: "getStackedSubviews ?dims block1 block2 = Inr (?s1, ?s2)"
      using b by (simp add: getStackedSubviews_def dims at_def createSubview_def Let_def
          numeral_2_eq_2)
    have run: "LoadConverter_matchAndRewrite op rw = Inr (?rw', success)"
      using True st nsbs wrap_tags_differ
      by (simp add: LoadConverter_matchAndRewrite_def rewriteMaskedLoad_def ty Let_def
          fillpart sv ptr)
        (simp add: createStackedCopies_def create_def ax alloc Let_def)
    have o1: "subviewOperands ienv ?s1 =
             Some (block1, [0, 0], m[axis := min (vsizes v1 ! axis) (m ! axis)], [1, 1])"
      using e1 eval_minOFRs[OF d10 e0]
      by (simp add: eval_ofrs_def mm ax)
    have o2: "subviewOperands ienv ?s2 =
             Some (block2, [0, 0], m[axis := m ! axis - min (vsizes v1 ! axis) (m ! axis)], [1, 1])"
      using e1 eval_subOFRs[OF e0 eval_minOFRs[OF d10 e0]]
      by (simp add: eval_ofrs_def mm ax)
    show ?thesis
      using True run o1 o2
      by (intro exI[of _ ?rw'] exI[of _ pre] exI[of _ ?s1] exI[of _ ?s2]) simp
  qed
qed

text \<open>The same load: 2 columns of the first chunk and 1 column of the second are copied.\<close>

theorem split_load_copies_witness:
  "load_getType maskedSplitLoad = RankedTensorType [4, 4] f32 \<and>
   load_getPtr maskedSplitLoad = UnrealizedConversionCastOp [chunk1, chunk2] [WRAP_SIDE_BY_SIDE] \<and>
   load_hasMask maskedSplitLoad \<and>
   (\<exists>rw' pre src1 src2.
     LoadConverter_matchAndRewrite maskedSplitLoad emptyRewriter = Inr (rw', success) \<and>
     createdOps rw' = Alloc [4, 4] f32 # pre @
       [CopyOp src1
          (SubViewOp (AllocOp [4, 4] f32) [Val (ConstantOp 0), Val (ConstantOp 0)]
             [Val (DimOp src1 0), Val (DimOp src1 1)] [Val (ConstantOp 1), Val (ConstantOp 1)]),
        CopyOp src2
          (SubViewOp (AllocOp [4, 4] f32) [Val (ConstantOp 0), Val (DimOp src1 1)]
             [Val (DimOp src2 0), Val (DimOp src2 1)] [Val (ConstantOp 1), Val (ConstantOp 1)])] \<and>
     subviewOperands (\<lambda>n. 0) src1 = Some (chunk1, [0, 0], [4, 2], [1, 1]) \<and>
     subviewOperands (\<lambda>n. 0) src2 = Some (chunk2, [0, 0], [4, 1], [1, 1]))"
proof -
  have h1: "load_getType maskedSplitLoad = RankedTensorType [4, 4] f32"
    and h2: "load_getPtr maskedSplitLoad =
               UnrealizedConversionCastOp [chunk1, chunk2] [WRAP_SIDE_BY_SIDE]"
    and h3: "load_hasMask maskedSplitLoad"
    by (simp_all add: maskedSplitLoad_def)
  have h4: "WRAP_SIDE_BY_SIDE = WRAP_SIDE_BY_SIDE \<or> WRAP_SIDE_BY_SIDE = WRAP_STACKED" by simp
  have h5: "(1::nat) = (if WRAP_SIDE_BY_SIDE = WRAP_SIDE_BY_SIDE then 1 else 0)" by simp
  have h6: "\<not> load_hasMask maskedSplitLoad \<Longrightarrow> load_getOther maskedSplitLoad = None"
    using h3 by simp
  have h7: "load_hasMask maskedSplitLoad \<Longrightarrow>
              isMemRefType chunk1 \<and> isMemRefType chunk2 \<and> length [4, 4 :: int] = 2 \<and>
              length (load_getMixedMaskDims maskedSplitLoad) = 2"
    by (simp add: chunk1_def chunk2_def maskedSplitLoad_dims)
  have h8: "eval_m (\<lambda>n. 0) chunk1 =
              Some \<lparr>vsizes = [4, 2], vcell = (\<lambda>idx. MemCell 0 (linearize 6 [8, 1] idx))\<rparr>"
    by (simp add: chunk1_def)
  have h9: "length (vsizes \<lparr>vsizes = [4, 2 :: int],
              vcell = (\<lambda>idx. MemCell 0 (linearize 6 [8, 1] idx))\<rparr>) = 2" by simp
  have h10: "eval_ofrs (\<lambda>n. 0) (load_getMixedMaskDims maskedSplitLoad) = Some [4, 3]"
    by (simp add: maskedSplitLoad_dims eval_ofrs_def)
  from split_load_copies[OF h1 h2 h4 h5 h6 h7 h8 h9 h10 refl, of emptyRewriter]
  show ?thesis using h1 h2 h3 by (simp add: emptyRewriter_def) blast
qed

text \<open>
  Claim C8. A store through a view of memref type creates exactly one operation, a
  materialisation marked writable, and no allocation. Without a mask it materialises the
  stored value into the view. With a mask it materialises the slice of the value at
  offsets 0 with the valid extents as sizes into the sub-view of the destination at
  offsets 0 with the same sizes. Run on a destination whose cells are distinct, it writes
  every element of the value (of the slice) and changes no other cell.
\<close>

theorem store_lowering:
  assumes ty: "store_getValueType op = RankedTensorType shp e"
      and ptr: "isMemRefType (store_getPtr op)"
      and zeros: "zeros = replicate (length shp) (Attr 0)"
      and ones: "ones = replicate (length shp) (Attr 1)"
      and dims: "dims = store_getMixedMaskDims op"
      and storeOp: "storeOp =
        (if store_hasMask op
         then MaterializeInDestinationOp (ExtractSliceOp (store_getValue op) zeros dims ones)
                (SubViewOp (store_getPtr op) zeros dims ones) True
         else MaterializeInDestinationOp (store_getValue op) (store_getPtr op) True)"
  shows "StoreConverter_matchAndRewrite op rw =
           Inr (rw\<lparr>createdOps := createdOps rw @ [storeOp], replaced := Some Erased\<rparr>, success) \<and>
         allocCount storeOp = 0 \<and>
         (\<forall>env \<sigma> d n f m.
            eval_m (indexArgs env) (store_getPtr op) = Some d \<and>
            eval_t env \<sigma> (store_getValue op) = Some (n, f) \<and>
            n = vsizes d \<and> length n = length shp \<and> inj_on (vcell d) (set (box n)) \<and>
            m = (if store_hasMask op then the (eval_ofrs (indexArgs env) dims) else n) \<and>
            (store_hasMask op \<longrightarrow> eval_ofrs (indexArgs env) dims \<noteq> None) \<and>
            list_all2 (\<lambda>s n. 0 \<le> s \<and> s \<le> n) m n \<longrightarrow>
            (\<exists>\<sigma>'. exec env storeOp \<sigma> = Some \<sigma>' \<and>
                  (\<forall>idx\<in>set (box m). \<sigma>' (vcell d idx) = f idx) \<and>
                  (\<forall>c. c \<notin> vcell d ` set (box m) \<longrightarrow> \<sigma>' c = \<sigma> c)))"
proof -
  have run: "StoreConverter_matchAndRewrite op rw =
           Inr (rw\<lparr>createdOps := createdOps rw @ [storeOp], replaced := Some Erased\<rparr>, success)"
    using ty ptr
    by (simp add: StoreConverter_matchAndRewrite_def Let_def getSubview_def getExtractSlice_def
        create_def storeOp zeros ones dims)
  have na: "allocCount storeOp = 0" by (simp add: storeOp)
  have sem: "\<exists>\<sigma>'. exec env storeOp \<sigma> = Some \<sigma>' \<and>
                  (\<forall>idx\<in>set (box m). \<sigma>' (vcell d idx) = f idx) \<and>
                  (\<forall>c. c \<notin> vcell d ` set (box m) \<longrightarrow> \<sigma>' c = \<sigma> c)"
    if d: "eval_m (indexArgs env) (store_getPtr op) = Some d"
      and t: "eval_t env \<sigma> (store_getValue op) = Some (n, f)"
      and n: "n = vsizes d" and len: "length n = length shp"
      and inj: "inj_on (vcell d) (set (box n))"
      and m: "m = (if store_hasMask op then the (eval_ofrs (indexArgs env) dims) else n)"
      and ev: "store_hasMask op \<longrightarrow> eval_ofrs (indexArgs env) dims \<noteq> None"
      and le: "list_all2 (\<lambda>s n. 0 \<le> s \<and> s \<le> n) m n"
    for env :: "'a env" and \<sigma> d n f m
  proof -
    have lm: "length m = length n" using le by (rule list_all2_lengthD)
    have sub: "set (box m) \<subseteq> set (box n)" using le by (rule box_subset)
    have injm: "inj_on (vcell d) (set (box m))" using inj sub by (rule inj_on_subset)
    have vm: "validSizes m"
      using le by (auto simp: validSizes_nth list_all2_conv_all_nth)
    show ?thesis
    proof (cases "store_hasMask op")
      case False
      then have mn: "m = n" using m by simp
      have "exec env storeOp \<sigma> = Some (writeCells (vcell d) f (box m) \<sigma>)"
        using False d t n vm by (simp add: storeOp mn)
      moreover have "\<forall>idx\<in>set (box m). writeCells (vcell d) f (box m) \<sigma> (vcell d idx) = f idx"
        using writeCells_in[OF injm] by blast
      moreover have "\<forall>c. c \<notin> vcell d ` set (box m) \<longrightarrow> writeCells (vcell d) f (box m) \<sigma> c = \<sigma> c"
        using writeCells_other by metis
      ultimately show ?thesis by blast
    next
      case True
      then have em: "eval_ofrs (indexArgs env) dims = Some m" using m ev by auto
      have inb: "subviewInBounds n (replicate (length n) 0) m (replicate (length n) 1)"
        using le lm by (simp add: subviewInBounds_zero_one)
      let ?dv = "\<lparr>vsizes = m, vcell = (\<lambda>idx. vcell d (map2 (+) (replicate (length shp) 0)
                   (map2 (*) idx (replicate (length shp) 1))))\<rparr>"
      let ?f = "\<lambda>idx. f (map2 (+) (replicate (length shp) 0)
                   (map2 (*) idx (replicate (length shp) 1)))"
      have ex: "exec env storeOp \<sigma> = Some (writeCells (vcell ?dv) ?f (box m) \<sigma>)"
        using True d t em inb vm n len
        by (simp add: storeOp zeros ones eval_ofrs_def[symmetric] those_replicate_Some eval_ofrs_replicate_Attr)
      have same: "map2 (+) (replicate (length shp) 0) (map2 (*) idx (replicate (length shp) 1)) = idx"
        if "idx \<in> set (box m)" for idx
      proof -
        have "length idx = length shp" using that lm len by (simp add: box_mem_nth)
        then show ?thesis by (simp add: map2_mult_ones map2_add_zeros)
      qed
      have wc: "writeCells (vcell ?dv) ?f (box m) \<sigma> = writeCells (vcell d) f (box m) \<sigma>"
        unfolding writeCells_def
        by (rule foldl_cong) (auto simp: same)
      have "\<forall>idx\<in>set (box m). writeCells (vcell d) f (box m) \<sigma> (vcell d idx) = f idx"
        using writeCells_in[OF injm] by blast
      moreover have "\<forall>c. c \<notin> vcell d ` set (box m) \<longrightarrow> writeCells (vcell d) f (box m) \<sigma> c = \<sigma> c"
        using writeCells_other by metis
      ultimately show ?thesis using ex wc by simp
    qed
  qed
  from run na sem show ?thesis by blast
qed

text \<open>
  The scenario of the spec: an unmasked store of 4 by 4 into a view at offset 0 writes all
  16 elements and allocates nothing.
\<close>

theorem store_lowering_witness:
  "store_getValueType store4x4 = RankedTensorType [4, 4] f32 \<and>
   isMemRefType (store_getPtr store4x4) \<and>
   StoreConverter_matchAndRewrite store4x4 emptyRewriter =
     Inr (emptyRewriter\<lparr>createdOps := [MaterializeInDestinationOp (TensorArg 0) view4x4 True],
                          replaced := Some Erased\<rparr>, success) \<and>
   allocCount (MaterializeInDestinationOp (TensorArg 0) view4x4 True) = 0 \<and>
   length (box [4, 4]) = 16 \<and>
   (\<exists>\<sigma>'. exec exampleEnv (MaterializeInDestinationOp (TensorArg 0) view4x4 True) exampleMemory
            = Some \<sigma>' \<and>
         (\<forall>idx\<in>set (box [4, 4]).
            \<sigma>' (MemCell 0 (linearize 0 [4, 1] idx)) = Some (100 + 4 * (idx ! 0) + idx ! 1)))"
proof -
  have h1: "store_getValueType store4x4 = RankedTensorType [4, 4] f32"
    and h2: "isMemRefType (store_getPtr store4x4)"
    by (simp_all add: store4x4_def view4x4_def)
  let ?op = "MaterializeInDestinationOp (TensorArg 0) view4x4 True"
  have h3: "?op =
        (if store_hasMask store4x4
         then MaterializeInDestinationOp
                (ExtractSliceOp (store_getValue store4x4) (replicate (length [4, 4 :: int]) (Attr 0))
                   (store_getMixedMaskDims store4x4) (replicate (length [4, 4 :: int]) (Attr 1)))
                (SubViewOp (store_getPtr store4x4) (replicate (length [4, 4 :: int]) (Attr 0))
                   (store_getMixedMaskDims store4x4) (replicate (length [4, 4 :: int]) (Attr 1))) True
         else MaterializeInDestinationOp (store_getValue store4x4) (store_getPtr store4x4) True)"
    by (simp add: store4x4_def)
  note inst = store_lowering[OF h1 h2 refl refl refl h3, of emptyRewriter]
  let ?d = "\<lparr>vsizes = [4, 4], vcell = (\<lambda>idx. MemCell 0 (linearize 0 [4, 1] idx))\<rparr>"
  let ?f = "\<lambda>idx. Some (100 + 4 * (idx ! 0) + idx ! (1::nat) :: int)"
  from inst[THEN conjunct2, THEN conjunct2] have sem: "eval_m (indexArgs exampleEnv) (store_getPtr store4x4) = Some ?d \<and>
            eval_t exampleEnv exampleMemory (store_getValue store4x4) = Some ([4, 4], ?f) \<and>
            [4, 4] = vsizes ?d \<and> length [4, 4 :: int] = length [4, 4 :: int] \<and>
            inj_on (vcell ?d) (set (box [4, 4])) \<and>
            [4, 4] = (if store_hasMask store4x4
                 then the (eval_ofrs (indexArgs exampleEnv) (store_getMixedMaskDims store4x4))
                 else [4, 4]) \<and>
            (store_hasMask store4x4 \<longrightarrow>
               eval_ofrs (indexArgs exampleEnv) (store_getMixedMaskDims store4x4) \<noteq> None) \<and>
            list_all2 (\<lambda>s n. 0 \<le> s \<and> s \<le> n) [4, 4 :: int] [4, 4] \<longrightarrow>
            (\<exists>\<sigma>'. exec exampleEnv ?op exampleMemory = Some \<sigma>' \<and>
                  (\<forall>idx\<in>set (box [4, 4]). \<sigma>' (vcell ?d idx) = ?f idx) \<and>
                  (\<forall>c. c \<notin> vcell ?d ` set (box [4, 4]) \<longrightarrow> \<sigma>' c = exampleMemory c))"
    by blast
  have prem: "eval_m (indexArgs exampleEnv) (store_getPtr store4x4) = Some ?d \<and>
            eval_t exampleEnv exampleMemory (store_getValue store4x4) = Some ([4, 4], ?f) \<and>
            [4, 4] = vsizes ?d \<and> length [4, 4 :: int] = length [4, 4 :: int] \<and>
            inj_on (vcell ?d) (set (box [4, 4])) \<and>
            [4, 4] = (if store_hasMask store4x4
                 then the (eval_ofrs (indexArgs exampleEnv) (store_getMixedMaskDims store4x4))
                 else [4, 4]) \<and>
            (store_hasMask store4x4 \<longrightarrow>
               eval_ofrs (indexArgs exampleEnv) (store_getMixedMaskDims store4x4) \<noteq> None) \<and>
            list_all2 (\<lambda>s n. 0 \<le> s \<and> s \<le> n) [4, 4 :: int] [4, 4]"
    using view4x4_view view4x4_inj by (simp add: store4x4_def exampleEnv_def)
  from mp[OF sem prem] obtain \<sigma>' where
    "exec exampleEnv ?op exampleMemory = Some \<sigma>'"
    "\<forall>idx\<in>set (box [4, 4]). \<sigma>' (vcell ?d idx) = ?f idx"
    by blast
  then have "\<exists>\<sigma>'. exec exampleEnv ?op exampleMemory = Some \<sigma>' \<and>
         (\<forall>idx\<in>set (box [4, 4]).
            \<sigma>' (MemCell 0 (linearize 0 [4, 1] idx)) = Some (100 + 4 * (idx ! 0) + idx ! 1))"
    by (intro exI[of _ \<sigma>']) simp
  moreover have "length (box [4, 4]) = 16" by code_simp
  moreover from inst[THEN conjunct1] have "StoreConverter_matchAndRewrite store4x4 emptyRewriter =
     Inr (emptyRewriter\<lparr>createdOps := [?op], replaced := Some Erased\<rparr>, success)"
    by (simp add: emptyRewriter_def)
  ultimately show ?thesis using h1 h2 by simp
qed

end
